(* ===== verification/Chat_Prelude.thy ===== *)
theory Chat_Prelude
  imports Main "HOL-Library.Word" "HOL-Library.AList"
begin

text \<open>
  Shared vocabulary of the development: clock readings and durations, saturating 64-bit
  arithmetic, hash tables as association lists, and the transition-system interface
  through which every component's invariants reach its reachable states.
\<close>

section \<open>Collections of rewrite rules\<close>

named_theorems table_simps "facts about tables used by every component"
named_theorems wf_intros "preservation of the well-formedness invariants"

section \<open>Clocks\<close>

text \<open>
  A monotonic clock reading (\<^verbatim>\<open>std::time::Instant\<close>) and a duration are counted in
  nanoseconds. \<^verbatim>\<open>duration_since\<close> saturates at zero, which is what truncated
  subtraction on \<^typ>\<open>nat\<close> does. On the supported platform a reading holds signed
  64-bit seconds, which bounds \<^verbatim>\<open>checked_add\<close>.
\<close>

type_synonym instant = nat
type_synonym duration = nat

definition duration_since :: "instant \<Rightarrow> instant \<Rightarrow> duration" where
  "duration_since now earlier = now - earlier"

definition from_secs :: "nat \<Rightarrow> duration" where
  "from_secs s = s * 1000000000"

definition as_micros :: "duration \<Rightarrow> nat" where
  "as_micros d = d div 1000"

definition instant_max :: instant where
  "instant_max = (2 ^ 63 - 1) * 1000000000 + 999999999"

definition instant_checked_add :: "instant \<Rightarrow> duration \<Rightarrow> instant option" where
  "instant_checked_add t d = (if t + d \<le> instant_max then Some (t + d) else None)"

lemma duration_since_self [simp]: "duration_since t t = 0"
  by (simp add: duration_since_def)

lemma duration_since_mono: "t \<le> t' \<Longrightarrow> duration_since t e \<le> duration_since t' e"
  by (simp add: duration_since_def)

lemma as_micros_superadd: "as_micros a + as_micros b \<le> as_micros (a + b)"
  unfolding as_micros_def by linarith

lemma as_micros_mono: "a \<le> b \<Longrightarrow> as_micros a \<le> as_micros b"
  by (simp add: as_micros_def div_le_mono)

section \<open>Saturating and wrapping 64-bit arithmetic\<close>

type_synonym u32 = "32 word"
type_synonym u64 = "64 word"

definition u64_max :: nat where
  "u64_max = 2 ^ 64 - 1"

definition u64_of_nat_sat :: "nat \<Rightarrow> u64" where
  \<comment> \<open>\<^verbatim>\<open>u64::try_from(n).unwrap_or(u64::MAX)\<close>\<close>
  "u64_of_nat_sat n = (if n \<le> u64_max then of_nat n else - 1)"

definition u64_saturating_add :: "u64 \<Rightarrow> u64 \<Rightarrow> u64" where
  "u64_saturating_add a b = (if unat a + unat b \<le> u64_max then a + b else - 1)"

definition u64_saturating_mul :: "u64 \<Rightarrow> u64 \<Rightarrow> u64" where
  "u64_saturating_mul a b = (if unat a * unat b \<le> u64_max then a * b else - 1)"

definition u32_saturating_add :: "u32 \<Rightarrow> u32 \<Rightarrow> u32" where
  "u32_saturating_add a b = (if unat a + unat b < 2 ^ 32 then a + b else - 1)"

lemma u64_max_less: "n \<le> u64_max \<longleftrightarrow> n < 2 ^ 64"
  by (auto simp: u64_max_def)

lemma unat_minus_one_u64: "unat (- 1 :: u64) = u64_max"
  by (simp add: u64_max_def unsigned_minus_1_eq_mask mask_eq_exp_minus_1)

lemma unat_le_u64_max: "unat (a :: u64) \<le> u64_max"
  using unsigned_less [of a, where ?'a = nat] by (simp add: u64_max_less)

lemma unat_of_nat_sat: "unat (u64_of_nat_sat n) = min n u64_max"
proof (cases "n \<le> u64_max")
  case True
  then have "n < 2 ^ 64" by (simp add: u64_max_less)
  then have "unat (of_nat n :: u64) = n"
    by (simp add: unat_of_nat take_bit_nat_eq_self)
  with True show ?thesis by (simp add: u64_of_nat_sat_def min_absorb1)
next
  case False
  then show ?thesis by (simp add: u64_of_nat_sat_def unat_minus_one_u64)
qed

lemma unat_saturating_add: "unat (u64_saturating_add a b) = min (unat a + unat b) u64_max"
proof (cases "unat a + unat b \<le> u64_max")
  case True
  then have "unat a + unat b < 2 ^ LENGTH(64)" by (simp add: u64_max_less)
  then have "unat (a + b) = unat a + unat b" by (simp only: unat_add_lem)
  with True show ?thesis by (simp add: u64_saturating_add_def)
next
  case False
  then show ?thesis by (simp add: u64_saturating_add_def unat_minus_one_u64)
qed

lemma unat_saturating_mul: "unat (u64_saturating_mul a b) = min (unat a * unat b) u64_max"
proof (cases "unat a * unat b \<le> u64_max")
  case True
  then have "unat a * unat b < 2 ^ LENGTH(64)" by (simp add: u64_max_less)
  then have "unat (a * b) = unat a * unat b" by (simp only: unat_mult_lem)
  with True show ?thesis by (simp add: u64_saturating_mul_def)
next
  case False
  then show ?thesis by (simp add: u64_saturating_mul_def unat_minus_one_u64)
qed

lemma unat_u32_saturating_add:
  "unat (u32_saturating_add a b) = min (unat a + unat b) (2 ^ 32 - 1)"
proof (cases "unat a + unat b < 2 ^ 32")
  case True
  then have "unat a + unat b < 2 ^ LENGTH(32)" by simp
  then have "unat (a + b) = unat a + unat b" by (simp only: unat_add_lem)
  with True show ?thesis by (simp add: u32_saturating_add_def)
next
  case False
  have "unat (- 1 :: u32) = 2 ^ 32 - 1" by (simp add: unsigned_minus_1_eq_mask mask_eq_exp_minus_1)
  with False show ?thesis by (simp add: u32_saturating_add_def)
qed

lemma unat_min_u64: "unat (min a b :: u64) = min (unat a) (unat b)"
  by (simp add: min_def word_le_nat_alt)

section \<open>Hash tables\<close>

text \<open>
  A \<^verbatim>\<open>HashMap\<close> is an association list with distinct keys. The position of an entry
  stands for the map's unspecified iteration order; the theorems quantify over every
  starting list and so over every order. A \<^verbatim>\<open>HashSet\<close> is the same without values:
  a distinct list.
\<close>

type_synonym ('k, 'v) table = "('k \<times> 'v) list"

abbreviation tget :: "('k, 'v) table \<Rightarrow> 'k \<Rightarrow> 'v option" where
  "tget t k \<equiv> map_of t k"

abbreviation tput :: "'k \<Rightarrow> 'v \<Rightarrow> ('k, 'v) table \<Rightarrow> ('k, 'v) table" where
  "tput k v t \<equiv> AList.update k v t"

abbreviation tdel :: "'k \<Rightarrow> ('k, 'v) table \<Rightarrow> ('k, 'v) table" where
  "tdel k t \<equiv> AList.delete k t"

abbreviation tmod :: "'k \<Rightarrow> ('v \<Rightarrow> 'v) \<Rightarrow> ('k, 'v) table \<Rightarrow> ('k, 'v) table" where
  "tmod k f t \<equiv> AList.map_entry k f t"

definition contains_key :: "('k, 'v) table \<Rightarrow> 'k \<Rightarrow> bool" where
  "contains_key t k \<longleftrightarrow> map_of t k \<noteq> None"

definition table_wf :: "('k, 'v) table \<Rightarrow> bool" where
  "table_wf t \<longleftrightarrow> distinct (map fst t)"

definition retain :: "('k \<Rightarrow> 'v \<Rightarrow> bool) \<Rightarrow> ('k, 'v) table \<Rightarrow> ('k, 'v) table" where
  "retain P t = filter (\<lambda>(k, v). P k v) t"

definition set_insert :: "'a \<Rightarrow> 'a list \<Rightarrow> 'a list" where
  "set_insert x xs = (if x \<in> set xs then xs else xs @ [x])"

lemma map_of_tput [simp, table_simps]: "map_of (tput k v t) = (map_of t)(k \<mapsto> v)"
  by (rule update_conv')

lemma map_of_tdel [simp, table_simps]: "map_of (tdel k t) = (map_of t)(k := None)"
  by (rule delete_conv')

lemma map_of_tmod [simp, table_simps]:
  "map_of (tmod k f t) = (map_of t)(k := map_option f (map_of t k))"
  by (auto simp: map_of_map_entry fun_eq_iff split: option.splits)

lemma table_wf_Nil [simp, table_simps]: "table_wf []"
  by (simp add: table_wf_def)

lemma table_wf_tput [simp, table_simps]: "table_wf t \<Longrightarrow> table_wf (tput k v t)"
  by (simp add: table_wf_def distinct_update)

lemma table_wf_tdel [simp, table_simps]: "table_wf t \<Longrightarrow> table_wf (tdel k t)"
  by (simp add: table_wf_def distinct_delete)

lemma table_wf_tmod [simp, table_simps]: "table_wf t \<Longrightarrow> table_wf (tmod k f t)"
  by (simp add: table_wf_def distinct_map_entry)

lemma table_wf_filter: "table_wf t \<Longrightarrow> table_wf (filter P t)"
  by (induction t) (auto simp: table_wf_def)

lemma table_wf_retain [simp, table_simps]: "table_wf t \<Longrightarrow> table_wf (retain P t)"
  by (simp add: retain_def table_wf_filter)

lemma map_of_retain [table_simps]:
  "table_wf t \<Longrightarrow>
     map_of (retain P t) k = (case map_of t k of None \<Rightarrow> None | Some v \<Rightarrow> if P k v then Some v else None)"
proof (induction t)
  case Nil
  then show ?case by (simp add: retain_def)
next
  case (Cons e t)
  obtain a b where e: "e = (a, b)" by (cases e)
  from Cons.prems have wf: "table_wf t" and "a \<notin> fst ` set t" by (auto simp: e table_wf_def)
  then have "map_of t a = None" by (simp add: map_of_eq_None_iff)
  with Cons.IH [OF wf] show ?case by (auto simp: e retain_def split: option.splits)
qed

lemma map_of_retain_Some: "table_wf t \<Longrightarrow>
    map_of (retain P t) k = Some v \<longleftrightarrow> map_of t k = Some v \<and> P k v"
  by (auto simp: map_of_retain split: option.splits)

lemma contains_key_dom: "contains_key t k \<longleftrightarrow> k \<in> fst ` set t"
  by (simp add: contains_key_def map_of_eq_None_iff)

lemma map_of_in_set: "table_wf t \<Longrightarrow> (k, v) \<in> set t \<longleftrightarrow> map_of t k = Some v"
  by (auto simp: table_wf_def dest: map_of_SomeD)

lemma length_tput: "length (tput k v t) = (if contains_key t k then length t else Suc (length t))"
  by (induction t) (auto simp: contains_key_def)

lemma contains_key_tput [simp]: "contains_key (tput k v t) k' \<longleftrightarrow> k' = k \<or> contains_key t k'"
  by (simp add: contains_key_def)

lemma contains_key_tdel [simp]: "contains_key (tdel k t) k' \<longleftrightarrow> k' \<noteq> k \<and> contains_key t k'"
  by (simp add: contains_key_def)

lemma contains_key_tmod [simp]: "contains_key (tmod k f t) k' \<longleftrightarrow> contains_key t k'"
  by (simp add: contains_key_def)

lemma contains_key_Nil [simp]: "\<not> contains_key [] k"
  by (simp add: contains_key_def)

lemma length_tmod [simp]: "length (tmod k f t) = length t"
  by (induction t) auto

lemma length_retain_le: "length (retain P t) \<le> length t"
  by (simp add: retain_def)

lemma length_tdel_le: "length (tdel k t) \<le> length t"
  by (simp add: AList.delete_eq)

lemma set_set_insert [simp]: "set (set_insert x xs) = insert x (set xs)"
  by (auto simp: set_insert_def)

lemma distinct_set_insert [simp]: "distinct xs \<Longrightarrow> distinct (set_insert x xs)"
  by (simp add: set_insert_def)

section \<open>Transition systems\<close>

text \<open>
  A component with state promises an invariant: the initial states have it and every step
  keeps it. What a client may conclude, once and for all components: every state that any
  interleaving of steps reaches has the invariant, and so has everything a step reaches
  from there.
\<close>

locale stepping =
  fixes start :: "'s \<Rightarrow> bool"
    and step :: "'s \<Rightarrow> 's \<Rightarrow> bool"
    and good :: "'s \<Rightarrow> bool"
  assumes good_start: "start s \<Longrightarrow> good s"
    and good_step: "good s \<Longrightarrow> step s t \<Longrightarrow> good t"
begin

lemma good_run: "step\<^sup>*\<^sup>* s t \<Longrightarrow> good s \<Longrightarrow> good t"
  by (induction rule: rtranclp_induct) (auto intro: good_step)

lemma good_reachable: "start s \<Longrightarrow> step\<^sup>*\<^sup>* s t \<Longrightarrow> good t"
  using good_run good_start by blast

end

end
