(* ===== verification/Admission_Windows.thy ===== *)
theory Admission_Windows
  imports Chat_Prelude "HOL-Library.Multiset"
begin

text \<open>
  Time-based admission: the trailing-window budgets of a room (\<^verbatim>\<open>src/room/window.rs\<close>) and
  the token buckets and violation windows of a connection
  (\<^verbatim>\<open>src/signaling/connection_token_bucket.rs\<close>).
\<close>

section \<open>Trailing windows\<close>

record sliding_window =
  sw_window :: duration
  sw_capacity :: nat
  sw_reserved :: "instant list"

definition sliding_window_new :: "duration \<Rightarrow> nat \<Rightarrow> sliding_window" where
  "sliding_window_new window capacity =
     \<lparr>sw_window = window, sw_capacity = capacity, sw_reserved = []\<rparr>"

text \<open>The \<^verbatim>\<open>while\<close> loop at the head of \<^verbatim>\<open>reserve\<close>: pop the front while it has aged out.\<close>

fun pop_aged :: "duration \<Rightarrow> instant \<Rightarrow> instant list \<Rightarrow> instant list" where
  "pop_aged window now [] = []"
| "pop_aged window now (reserved_at # rest) =
     (if duration_since now reserved_at \<ge> window then pop_aged window now rest
      else reserved_at # rest)"

definition reserve :: "instant \<Rightarrow> sliding_window \<Rightarrow> bool \<times> sliding_window" where
  "reserve now s =
     (let s' = s\<lparr>sw_reserved := pop_aged (sw_window s) now (sw_reserved s)\<rparr> in
      if length (sw_reserved s') \<ge> sw_capacity s' then (False, s')
      else (True, s'\<lparr>sw_reserved := sw_reserved s' @ [now]\<rparr>))"

fun position :: "('a \<Rightarrow> bool) \<Rightarrow> 'a list \<Rightarrow> nat option" where
  "position P [] = None"
| "position P (x # xs) = (if P x then Some 0 else map_option Suc (position P xs))"

definition remove_at :: "nat \<Rightarrow> 'a list \<Rightarrow> 'a list" where
  "remove_at i xs = take i xs @ drop (Suc i) xs"

definition refund :: "instant \<Rightarrow> sliding_window \<Rightarrow> bool \<times> sliding_window" where
  "refund reserved_at s =
     (case position (\<lambda>entry. entry = reserved_at) (sw_reserved s) of
        None \<Rightarrow> (False, s)
      | Some i \<Rightarrow> (True, s\<lparr>sw_reserved := remove_at i (sw_reserved s)\<rparr>))"

text \<open>A window in use: its calls in order, and the answers they gave.\<close>

datatype window_call = Reserve instant | Refund instant

fun window_step :: "window_call \<Rightarrow> sliding_window \<Rightarrow> bool \<times> sliding_window" where
  "window_step (Reserve now) s = reserve now s"
| "window_step (Refund at) s = refund at s"

fun run_calls :: "('c \<Rightarrow> 's \<Rightarrow> 'r \<times> 's) \<Rightarrow> 'c list \<Rightarrow> 's \<Rightarrow> 'r list \<times> 's" where
  "run_calls f [] s = ([], s)"
| "run_calls f (c # cs) s =
     (let (r, s') = f c s; (rs, s'') = run_calls f cs s' in (r # rs, s''))"

text \<open>
  The contract: an account of every admission that was not given back, with nothing ever
  forgotten. A reservation is admitted exactly when fewer than \<^term>\<open>cap\<close> of them lie in the
  trailing window; a refund takes back one reservation that still counts.
\<close>

record window_account =
  wa_last :: instant
  wa_admitted :: "instant multiset"

definition counted :: "duration \<Rightarrow> instant \<Rightarrow> instant multiset \<Rightarrow> instant multiset" where
  "counted w t M = filter_mset (\<lambda>a. a \<le> t \<and> duration_since t a < w) M"

fun account_step ::
  "duration \<Rightarrow> nat \<Rightarrow> window_call \<Rightarrow> window_account \<Rightarrow> bool \<times> window_account" where
  "account_step w cap (Reserve now) s =
     (if size (counted w now (wa_admitted s)) < cap
      then (True, \<lparr>wa_last = now, wa_admitted = add_mset now (wa_admitted s)\<rparr>)
      else (False, s\<lparr>wa_last := now\<rparr>))"
| "account_step w cap (Refund at) s =
     (if at \<in># counted w (wa_last s) (wa_admitted s)
      then (True, s\<lparr>wa_admitted := wa_admitted s - {#at#}\<rparr>)
      else (False, s))"

text \<open>Reservations are made at a clock that does not run backwards.\<close>

fun clock_forward :: "instant \<Rightarrow> window_call list \<Rightarrow> bool" where
  "clock_forward latest [] = True"
| "clock_forward latest (Reserve now # cs) = (latest \<le> now \<and> clock_forward now cs)"
| "clock_forward latest (Refund at # cs) = clock_forward latest cs"

subsection \<open>The deque implements the account\<close>

lemma mset_pop_aged:
  assumes "sorted xs"
  shows "mset (pop_aged w now xs) = filter_mset (\<lambda>a. duration_since now a < w) (mset xs)"
  using assms
proof (induction xs)
  case Nil
  then show ?case by simp
next
  case (Cons a xs)
  show ?case
  proof (cases "w \<le> duration_since now a")
    case True
    with Cons show ?thesis by simp
  next
    case False
    moreover have "duration_since now b \<le> duration_since now a" if "b \<in> set xs" for b
      using Cons.prems that by (auto simp: duration_since_def intro: diff_le_mono2)
    ultimately have "\<forall>b\<in>set (a # xs). duration_since now b < w" by fastforce
    then have "filter_mset (\<lambda>a. duration_since now a < w) (mset (a # xs)) = mset (a # xs)"
      by (intro filter_mset_cong0 [of _ _ "\<lambda>_. True", simplified]) auto
    with False show ?thesis by simp
  qed
qed

lemma set_pop_aged: "set (pop_aged w now xs) \<subseteq> set xs"
  by (induction xs) auto

lemma sorted_pop_aged: "sorted xs \<Longrightarrow> sorted (pop_aged w now xs)"
  by (induction xs) auto

lemma position_None: "position P xs = None \<longleftrightarrow> (\<forall>x\<in>set xs. \<not> P x)"
  by (induction xs) auto

lemma remove_at_position:
  "position (\<lambda>e. e = x) xs = Some i \<Longrightarrow> remove_at i xs = remove1 x xs \<and> x \<in> set xs"
  by (induction xs arbitrary: i) (auto simp: remove_at_def split: if_splits)

definition accounts :: "sliding_window \<Rightarrow> window_account \<Rightarrow> bool" where
  "accounts s a \<longleftrightarrow>
     sorted (sw_reserved s) \<and>
     mset (sw_reserved s) = counted (sw_window s) (wa_last a) (wa_admitted a) \<and>
     (\<forall>x \<in># wa_admitted a. x \<le> wa_last a)"

lemma counted_later:
  assumes "t \<le> t'" and "\<forall>x \<in># M. x \<le> t"
  shows "counted w t' M = filter_mset (\<lambda>a. duration_since t' a < w) (counted w t M)"
  using assms unfolding counted_def filter_filter_mset
  by (intro filter_mset_cong refl) (auto simp: duration_since_def)

lemma accounts_reserve:
  assumes acc: "accounts s a" and t: "wa_last a \<le> now" and w: "0 < sw_window s"
  shows "fst (reserve now s) = fst (account_step (sw_window s) (sw_capacity s) (Reserve now) a)"
    and "accounts (snd (reserve now s))
           (snd (account_step (sw_window s) (sw_capacity s) (Reserve now) a))"
proof -
  let ?kept = "pop_aged (sw_window s) now (sw_reserved s)"
  have bound: "\<forall>x \<in># wa_admitted a. x \<le> wa_last a" and srt: "sorted (sw_reserved s)"
    using acc by (auto simp: accounts_def)
  have kept: "mset ?kept = counted (sw_window s) now (wa_admitted a)"
    using acc mset_pop_aged [OF srt] counted_later [OF t bound] by (simp add: accounts_def)
  then have len: "length ?kept = size (counted (sw_window s) now (wa_admitted a))"
    by (metis size_mset)
  show "fst (reserve now s) = fst (account_step (sw_window s) (sw_capacity s) (Reserve now) a)"
    by (auto simp: reserve_def Let_def len)
  have "sorted ?kept" using srt by (rule sorted_pop_aged)
  moreover have "\<forall>x \<in> set (sw_reserved s). x \<le> wa_last a"
  proof
    fix x
    assume "x \<in> set (sw_reserved s)"
    then have "x \<in># counted (sw_window s) (wa_last a) (wa_admitted a)"
      using acc by (metis accounts_def set_mset_mset)
    then show "x \<le> wa_last a" by (simp add: counted_def)
  qed
  then have "\<forall>x \<in> set ?kept. x \<le> now" using set_pop_aged t by fastforce
  ultimately have "sorted (?kept @ [now])" by (simp add: sorted_append)
  moreover have "counted (sw_window s) now (add_mset now (wa_admitted a))
      = add_mset now (counted (sw_window s) now (wa_admitted a))"
    using w by (simp add: counted_def)
  ultimately show "accounts (snd (reserve now s))
           (snd (account_step (sw_window s) (sw_capacity s) (Reserve now) a))"
    using \<open>sorted ?kept\<close> bound t kept len
    by (auto simp: reserve_def Let_def accounts_def intro: order_trans)
qed

lemma accounts_refund:
  assumes acc: "accounts s a"
  shows "fst (refund at s) = fst (account_step (sw_window s) cap (Refund at) a)"
    and "accounts (snd (refund at s)) (snd (account_step (sw_window s) cap (Refund at) a))"
proof -
  have eq: "mset (sw_reserved s) = counted (sw_window s) (wa_last a) (wa_admitted a)"
    using acc by (simp add: accounts_def)
  have mem: "at \<in> set (sw_reserved s) \<longleftrightarrow> at \<in># counted (sw_window s) (wa_last a) (wa_admitted a)"
    by (metis eq set_mset_mset)
  show "fst (refund at s) = fst (account_step (sw_window s) cap (Refund at) a)"
    using mem remove_at_position [of at "sw_reserved s"]
    by (auto simp: refund_def position_None split: option.splits)
  show "accounts (snd (refund at s)) (snd (account_step (sw_window s) cap (Refund at) a))"
  proof (cases "position (\<lambda>e. e = at) (sw_reserved s)")
    case None
    then have "at \<notin> set (sw_reserved s)" by (auto simp: position_None)
    then show ?thesis using acc mem None by (simp add: refund_def)
  next
    case (Some i)
    note rm = remove_at_position [OF Some]
    have "counted (sw_window s) (wa_last a) (wa_admitted a - {#at#})
        = counted (sw_window s) (wa_last a) (wa_admitted a) - {#at#}"
      using rm mem by (auto simp: counted_def multiset_eq_iff)
    then show ?thesis
      using acc rm mem eq Some
      by (auto simp: refund_def accounts_def sorted_remove1 dest: in_diffD)
  qed
qed

lemma window_step_config:
  "sw_window (snd (window_step c s)) = sw_window s \<and> sw_capacity (snd (window_step c s)) = sw_capacity s"
  by (cases c) (auto simp: reserve_def refund_def Let_def split: option.splits)

lemma run_calls_Cons:
  "run_calls f (c # cs) s =
     (fst (f c s) # fst (run_calls f cs (snd (f c s))), snd (run_calls f cs (snd (f c s))))"
  by (simp add: split_beta Let_def)

lemma accounts_step:
  assumes "accounts s a" and "clock_forward (wa_last a) (c # cs)" and "0 < sw_window s"
  defines "r \<equiv> account_step (sw_window s) (sw_capacity s) c a"
  shows "fst (window_step c s) = fst r" and "accounts (snd (window_step c s)) (snd r)"
    and "clock_forward (wa_last (snd r)) cs"
proof -
  show "fst (window_step c s) = fst r"
    using assms accounts_reserve(1) accounts_refund(1) by (cases c) auto
  show "accounts (snd (window_step c s)) (snd r)"
    using assms accounts_reserve(2) accounts_refund(2) by (cases c) (auto simp del: account_step.simps)
  show "clock_forward (wa_last (snd r)) cs"
    using assms(2) by (cases c) (auto simp: r_def)
qed

lemma run_window_accounts:
  assumes "accounts s a" and "clock_forward (wa_last a) cs" and "0 < sw_window s"
  shows "fst (run_calls window_step cs s)
       = fst (run_calls (account_step (sw_window s) (sw_capacity s)) cs a)"
  using assms
proof (induction cs arbitrary: s a)
  case Nil
  then show ?case by simp
next
  case (Cons c cs)
  note st = accounts_step [OF Cons.prems]
  show ?case
    using Cons.IH [OF st(2,3)] Cons.prems(3) st(1)
    by (simp add: run_calls_Cons window_step_config del: run_calls.simps(2))
qed

text \<open>The account itself never lets a trailing window exceed its capacity.\<close>

definition within_capacity :: "duration \<Rightarrow> nat \<Rightarrow> window_account \<Rightarrow> bool" where
  "within_capacity w cap a \<longleftrightarrow>
     (\<forall>x \<in># wa_admitted a. x \<le> wa_last a) \<and> (\<forall>t. size (counted w t (wa_admitted a)) \<le> cap)"

lemma counted_size_mono: "M \<subseteq># N \<Longrightarrow> size (counted w t M) \<le> size (counted w t N)"
  by (simp add: counted_def multiset_filter_mono size_mset_mono)

lemma within_capacity_step:
  assumes good: "within_capacity w cap a" and fwd: "clock_forward (wa_last a) (c # cs)"
  shows "within_capacity w cap (snd (account_step w cap c a))"
proof (cases c)
  case (Reserve now)
  then have now: "wa_last a \<le> now" using fwd by simp
  have le: "\<forall>x \<in># wa_admitted a. x \<le> now"
    using good now by (auto simp: within_capacity_def intro: order_trans)
  have "size (counted w t (add_mset now (wa_admitted a))) \<le> cap"
    if room: "size (counted w now (wa_admitted a)) < cap" for t
  proof (cases "now \<le> t")
    case True
    have "size (counted w t (wa_admitted a)) \<le> size (counted w now (wa_admitted a))"
      unfolding counted_later [OF True le] by (rule size_filter_mset_lesseq)
    then show ?thesis using room by (simp add: counted_def split: if_splits)
  next
    case False
    then show ?thesis using good by (simp add: counted_def within_capacity_def)
  qed
  then show ?thesis using good le by (auto simp: Reserve within_capacity_def)
next
  case (Refund at)
  have "size (counted w t (wa_admitted a - {#at#})) \<le> cap" for t
    using good counted_size_mono [OF diff_subset_eq_self]
    by (meson within_capacity_def order_trans)
  then show ?thesis
    using good by (auto simp: Refund within_capacity_def dest: in_diffD)
qed

lemma clock_forward_step:
  "clock_forward (wa_last a) (c # cs) \<Longrightarrow> clock_forward (wa_last (snd (account_step w cap c a))) cs"
  by (cases c) auto

lemma run_within_capacity:
  "within_capacity w cap a \<Longrightarrow> clock_forward (wa_last a) cs \<Longrightarrow>
     within_capacity w cap (snd (run_calls (account_step w cap) cs a))"
proof (induction cs arbitrary: a)
  case Nil
  then show ?case by simp
next
  case (Cons c cs)
  show ?case
    using Cons.IH [OF within_capacity_step [OF Cons.prems] clock_forward_step [OF Cons.prems(2)]]
    by (simp add: run_calls_Cons del: run_calls.simps(2))
qed

definition account_new :: window_account where
  "account_new = \<lparr>wa_last = 0, wa_admitted = {#}\<rparr>"

text \<open>
  C19: the deque of \<^verbatim>\<open>SlidingWindow\<close>, which forgets what has aged out, answers every
  sequence of \<^verbatim>\<open>reserve\<close> and \<^verbatim>\<open>refund\<close> calls exactly as a full account of the
  admissions would: a reservation is admitted if and only if fewer than the capacity are
  counted in the trailing window, and a refund takes back exactly one that is. At no instant
  does the trailing window hold more admissions than the capacity.
\<close>

theorem sliding_window_refines_account:
  assumes "0 < w" and "clock_forward 0 cs"
  shows "fst (run_calls window_step cs (sliding_window_new w cap))
       = fst (run_calls (account_step w cap) cs account_new)
    \<and> size (counted w t (wa_admitted (snd (run_calls (account_step w cap) cs account_new)))) \<le> cap"
proof -
  have "accounts (sliding_window_new w cap) account_new"
    by (simp add: accounts_def sliding_window_new_def account_new_def counted_def)
  moreover have "within_capacity w cap account_new"
    by (simp add: within_capacity_def account_new_def counted_def)
  ultimately show ?thesis
    using run_window_accounts [of "sliding_window_new w cap" account_new cs]
      run_within_capacity [of w cap account_new cs] assms
    by (auto simp: sliding_window_new_def account_new_def within_capacity_def)
qed

text \<open>
  The window of the source's own test: two fit into a second, the third waits for the first to
  age out, and a refunded one makes room at once.
\<close>

theorem sliding_window_refines_account_witness:
  "fst (run_calls (account_step 1000 2)
      [Reserve 5, Reserve 5, Reserve 1004, Refund 5, Reserve 1004, Reserve 1005] account_new)
    = [True, True, False, True, True, True]"
proof -
  let ?cs = "[Reserve 5, Reserve 5, Reserve 1004, Refund 5, Reserve 1004, Reserve 1005]"
  have "fst (run_calls window_step ?cs (sliding_window_new 1000 2))
      = [True, True, False, True, True, True]"
    by (simp add: sliding_window_new_def reserve_def refund_def duration_since_def remove_at_def)
  then show ?thesis using sliding_window_refines_account [of 1000 ?cs 2 0] by simp
qed

section \<open>Token buckets\<close>

definition TOKEN_US :: u64 where
  "TOKEN_US = 1000000"

record token_bucket =
  tb_tokens_us :: u64
  tb_capacity_us :: u64
  tb_refill_rate :: u64
  tb_last_refill :: instant

definition token_bucket_full :: "instant \<Rightarrow> u64 \<Rightarrow> u64 \<Rightarrow> token_bucket" where
  "token_bucket_full now refill_rate capacity_us =
     \<lparr>tb_tokens_us = capacity_us, tb_capacity_us = capacity_us,
      tb_refill_rate = refill_rate, tb_last_refill = now\<rparr>"

definition try_consume :: "instant \<Rightarrow> token_bucket \<Rightarrow> bool \<times> token_bucket" where
  "try_consume now b =
     (let elapsed_us = u64_of_nat_sat (as_micros (duration_since now (tb_last_refill b)));
          tokens = min (u64_saturating_add (tb_tokens_us b)
                         (u64_saturating_mul elapsed_us (tb_refill_rate b)))
                       (tb_capacity_us b);
          b' = b\<lparr>tb_last_refill := now, tb_tokens_us := tokens\<rparr> in
      if tokens < TOKEN_US then (False, b')
      else (True, b'\<lparr>tb_tokens_us := tokens - TOKEN_US\<rparr>))"

text \<open>
  What a metered resource promises: an admission costs \<^term>\<open>cost\<close> units of its level, and
  between two calls the level grows by at most its rate per elapsed microsecond. The client's
  bound on the admissions of any burst follows from these laws alone.
\<close>

locale metered =
  fixes take_one :: "instant \<Rightarrow> 's \<Rightarrow> bool \<times> 's"
    and level :: "'s \<Rightarrow> nat"
    and rate :: "'s \<Rightarrow> nat"
    and clock :: "'s \<Rightarrow> instant"
    and cost :: nat
  assumes spend: "level (snd (take_one now s)) + (if fst (take_one now s) then cost else 0)
      \<le> level s + rate s * as_micros (duration_since now (clock s))"
    and rate_const: "rate (snd (take_one now s)) = rate s"
    and clock_now: "clock (snd (take_one now s)) = now"
begin

definition admitted :: "instant list \<Rightarrow> 's \<Rightarrow> nat" where
  "admitted ts s = length (filter id (fst (run_calls take_one ts s)))"

lemma admitted_Cons: "admitted (t # ts) s
    = (if fst (take_one t s) then 1 else 0) + admitted ts (snd (take_one t s))"
  by (simp add: admitted_def run_calls_Cons del: run_calls.simps)

lemma admitted_bound:
  assumes "sorted (clock s # ts)" and "\<forall>t \<in> set ts. t \<le> end_time" and "clock s \<le> end_time"
  shows "admitted ts s * cost \<le> level s + rate s * as_micros (end_time - clock s)"
  using assms
proof (induction ts arbitrary: s)
  case Nil
  then show ?case by (simp add: admitted_def)
next
  case (Cons t ts)
  let ?s = "snd (take_one t s)"
  have t: "clock s \<le> t" "t \<le> end_time" using Cons.prems by auto
  have "admitted ts ?s * cost \<le> level ?s + rate s * as_micros (end_time - t)"
    using Cons.IH [of ?s] Cons.prems by (simp add: clock_now rate_const)
  then have "admitted (t # ts) s * cost
      \<le> level s + rate s * (as_micros (t - clock s) + as_micros (end_time - t))"
    using spend [of t s] by (auto simp: admitted_Cons duration_since_def algebra_simps split: if_splits)
  moreover have "as_micros (t - clock s) + as_micros (end_time - t) \<le> as_micros (end_time - clock s)"
    using as_micros_superadd [of "t - clock s" "end_time - t"] t by simp
  ultimately show ?case by (meson add_left_mono mult_le_mono2 order_trans)
qed

end

lemma unat_TOKEN_US: "unat TOKEN_US = 1000000"
  by (simp add: TOKEN_US_def)

lemma unat_minus_TOKEN: "\<not> x < TOKEN_US \<Longrightarrow> unat (x - TOKEN_US) = unat x - 1000000"
  by (metis unat_TOKEN_US linorder_not_less unat_sub)

text \<open>The refilled level, as a number: saturation only ever loses capacity.\<close>

definition refilled :: "instant \<Rightarrow> token_bucket \<Rightarrow> nat" where
  "refilled now b = min (min (unat (tb_tokens_us b)
      + min (min (as_micros (duration_since now (tb_last_refill b))) u64_max * unat (tb_refill_rate b)) u64_max)
      u64_max) (unat (tb_capacity_us b))"

definition refilled_word :: "instant \<Rightarrow> token_bucket \<Rightarrow> u64" where
  "refilled_word now b = min (u64_saturating_add (tb_tokens_us b)
     (u64_saturating_mul (u64_of_nat_sat (as_micros (duration_since now (tb_last_refill b))))
       (tb_refill_rate b))) (tb_capacity_us b)"

lemma unat_refilled_word: "unat (refilled_word now b) = refilled now b"
  by (simp only: refilled_word_def refilled_def unat_min_u64 unat_saturating_add unat_saturating_mul
      unat_of_nat_sat)

lemma try_consume_eq:
  "try_consume now b =
     (if refilled_word now b < TOKEN_US
      then (False, b\<lparr>tb_last_refill := now, tb_tokens_us := refilled_word now b\<rparr>)
      else (True, b\<lparr>tb_last_refill := now, tb_tokens_us := refilled_word now b - TOKEN_US\<rparr>))"
  by (simp add: try_consume_def Let_def refilled_word_def)

lemma refilled_word_less: "refilled_word now b < TOKEN_US \<longleftrightarrow> \<not> 1000000 \<le> refilled now b"
  by (simp only: word_less_nat_alt unat_refilled_word unat_TOKEN_US not_le)

lemma try_consume_level:
  "fst (try_consume now b) \<longleftrightarrow> 1000000 \<le> refilled now b"
  "unat (tb_tokens_us (snd (try_consume now b)))
     = (if 1000000 \<le> refilled now b then refilled now b - 1000000 else refilled now b)"
  using unat_minus_TOKEN [of "refilled_word now b"]
  by (auto simp: try_consume_eq refilled_word_less unat_refilled_word)

lemma try_consume_config:
  "tb_capacity_us (snd (try_consume now b)) = tb_capacity_us b"
  "tb_refill_rate (snd (try_consume now b)) = tb_refill_rate b"
  "tb_last_refill (snd (try_consume now b)) = now"
  by (auto simp: try_consume_eq)

lemma refilled_le:
  "refilled now b \<le> unat (tb_tokens_us b)
     + unat (tb_refill_rate b) * as_micros (duration_since now (tb_last_refill b))"
proof -
  have "min (as_micros (duration_since now (tb_last_refill b))) u64_max * unat (tb_refill_rate b)
      \<le> unat (tb_refill_rate b) * as_micros (duration_since now (tb_last_refill b))"
    by (simp add: mult.commute)
  then show ?thesis unfolding refilled_def by linarith
qed

interpretation bucket: metered try_consume "\<lambda>b. unat (tb_tokens_us b)"
  "\<lambda>b. unat (tb_refill_rate b)" tb_last_refill 1000000
proof unfold_locales
  fix now b
  show "unat (tb_tokens_us (snd (try_consume now b)))
      + (if fst (try_consume now b) then 1000000 else 0)
      \<le> unat (tb_tokens_us b)
        + unat (tb_refill_rate b) * as_micros (duration_since now (tb_last_refill b))"
    using refilled_le [of now b] by (simp add: try_consume_level)
qed (simp_all add: try_consume_config)

lemma tokens_le_capacity: "unat (tb_tokens_us (snd (try_consume now b))) \<le> unat (tb_capacity_us b)"
proof -
  have "refilled now b \<le> unat (tb_capacity_us b)" by (simp add: refilled_def)
  then show ?thesis by (auto simp: try_consume_level)
qed

text \<open>
  C20: a token bucket admits no burst beyond its contract. From any state, over calls at a
  clock that does not run backwards, the tokens spent never exceed what the bucket held plus
  its rate times the elapsed microseconds, saturating arithmetic included; the level never
  exceeds the capacity.
\<close>

theorem token_bucket_burst_bound:
  assumes "sorted (tb_last_refill b # ts)" and "\<forall>t \<in> set ts. t \<le> end_time"
    and "tb_last_refill b \<le> end_time"
  shows "length (filter id (fst (run_calls try_consume ts b))) * unat TOKEN_US
      \<le> unat (tb_tokens_us b) + unat (tb_refill_rate b) * as_micros (end_time - tb_last_refill b)
    \<and> unat (tb_tokens_us (snd (try_consume now b))) \<le> unat (tb_capacity_us b)"
  using bucket.admitted_bound [OF assms] tokens_le_capacity [of now b]
  by (simp add: bucket.admitted_def unat_TOKEN_US)

text \<open>
  The bucket of the source's test: two tokens per second, capacity two. Over half a second at
  most three calls are admitted.
\<close>

theorem token_bucket_burst_bound_witness:
  "length (filter id (fst (run_calls try_consume [0, 0, 0, 500000000, 500000000]
     (token_bucket_full 0 2 2000000)))) * unat TOKEN_US \<le> 2000000 + 2 * 500000"
  using token_bucket_burst_bound
    [of "token_bucket_full 0 2 2000000" "[0, 0, 0, 500000000, 500000000]" 500000000 0]
  by (simp add: token_bucket_full_def as_micros_def del: run_calls.simps)

text \<open>
  C21: a bucket that can hold a token admits again once enough time has passed: whenever the
  elapsed microseconds times the rate reach one token, the next call is admitted, from any
  state.
\<close>

theorem token_bucket_recovers:
  assumes "unat TOKEN_US \<le> unat (tb_capacity_us b)"
    and "unat TOKEN_US \<le> as_micros (duration_since now (tb_last_refill b)) * unat (tb_refill_rate b)"
  shows "fst (try_consume now b)"
proof -
  let ?e = "as_micros (duration_since now (tb_last_refill b))" and ?r = "unat (tb_refill_rate b)"
  have "1 \<le> ?r" using assms(2) by (cases ?r) (auto simp: unat_TOKEN_US)
  moreover have big: "(1000000 :: nat) \<le> u64_max" by (simp add: u64_max_def)
  ultimately have "1000000 \<le> u64_max * ?r" by (metis le_trans mult_le_mono2 nat_mult_1_right)
  then have "1000000 \<le> min ?e u64_max * ?r"
    using assms(2) by (simp add: min_def unat_TOKEN_US)
  then show ?thesis
    using assms(1) big by (auto simp: try_consume_level refilled_def unat_TOKEN_US)
qed

theorem token_bucket_recovers_witness:
  "fst (try_consume 500000000
     \<lparr>tb_tokens_us = 0, tb_capacity_us = 2000000, tb_refill_rate = 2, tb_last_refill = 0\<rparr>)"
  by (rule token_bucket_recovers)
    (simp_all add: unat_TOKEN_US as_micros_def duration_since_def)

section \<open>Violation windows\<close>

record violation_window =
  vw_started :: "instant option"
  vw_violations :: u32

definition violation_window_default :: violation_window where
  "violation_window_default = \<lparr>vw_started = None, vw_violations = 0\<rparr>"

definition violation_record :: "instant \<Rightarrow> duration \<Rightarrow> violation_window \<Rightarrow> u32 \<times> violation_window" where
  "violation_record now window v =
     (let v' = (if (case vw_started v of None \<Rightarrow> True | Some started \<Rightarrow> duration_since now started \<ge> window)
                then \<lparr>vw_started = Some now, vw_violations = 0\<rparr> else v);
          v'' = v'\<lparr>vw_violations := u32_saturating_add (vw_violations v') 1\<rparr> in
      (vw_violations v'', v''))"

lemma map_upt_from_2: "map f [2..<Suc (Suc n)] = map (\<lambda>i. f (Suc i)) [1..<Suc n]"
  by (rule nth_equalityI) (auto simp del: upt_Suc)

lemma upt_from_1: "[1..<Suc (Suc n)] = 1 # [2..<Suc (Suc n)]"
  by (simp add: upt_conv_Cons numeral_2_eq_2)

lemma violation_record_counts:
  assumes "\<forall>t \<in> set ts. duration_since t start < window"
    and "vw_started v = Some start"
  shows "map unat (fst (run_calls (\<lambda>now. violation_record now window) ts v))
     = map (\<lambda>i. min (unat (vw_violations v) + i) (2 ^ 32 - 1)) [1..<Suc (length ts)]"
  using assms
proof (induction ts arbitrary: v)
  case Nil
  then show ?case by simp
next
  case (Cons t ts)
  let ?v = "v\<lparr>vw_violations := u32_saturating_add (vw_violations v) 1\<rparr>"
  have step: "violation_record t window v = (vw_violations ?v, ?v)"
    using Cons.prems by (simp add: violation_record_def Let_def)
  have "map unat (fst (run_calls (\<lambda>now. violation_record now window) ts ?v))
     = map (\<lambda>i. min (unat (vw_violations ?v) + i) (2 ^ 32 - 1)) [1..<Suc (length ts)]"
    using Cons.IH [of ?v] Cons.prems by simp
  also have "\<dots> = map (\<lambda>i. min (unat (vw_violations v) + i) (2 ^ 32 - 1)) [2..<Suc (Suc (length ts))]"
    unfolding map_upt_from_2 by (auto simp: unat_u32_saturating_add)
  finally show ?case
    unfolding length_Cons upt_from_1
    by (simp add: run_calls_Cons step unat_u32_saturating_add del: run_calls.simps upt_Suc)
qed

text \<open>
  C22: the violation count a connection is closed by is the number of refusals in the current
  window: the first refusal (and every refusal once the window has elapsed) counts one, and
  the refusals that follow before the window ends count up one by one, saturating at the top
  of the 32-bit counter.
\<close>

theorem violation_window_counts:
  assumes "vw_started v = None \<or> (\<exists>started. vw_started v = Some started \<and> window \<le> duration_since now started)"
    and "\<forall>t \<in> set ts. duration_since t now < window"
  shows "map unat (fst (run_calls (\<lambda>at. violation_record at window) (now # ts) v))
     = map (\<lambda>i. min i (2 ^ 32 - 1)) [1..<Suc (Suc (length ts))]"
proof -
  let ?v = "\<lparr>vw_started = Some now, vw_violations = 1\<rparr>"
  have "violation_record now window v = (1, ?v)"
    using assms(1) by (auto simp: violation_record_def Let_def u32_saturating_add_def)
  moreover have "map (\<lambda>i. min i (2 ^ 32 - 1)) [2..<Suc (Suc (length ts))]
      = map (\<lambda>i. min (1 + i) (2 ^ 32 - 1)) [1..<Suc (length ts)]"
    unfolding map_upt_from_2 by simp
  ultimately show ?thesis
    using violation_record_counts [OF assms(2), of ?v] unfolding upt_from_1
    by (simp add: run_calls_Cons del: run_calls.simps upt_Suc)
qed

text \<open>Refusals at 0, 9 and 11 seconds of a ten-second window count 1, 2 and then 1 again.\<close>

theorem violation_window_counts_witness:
  "map unat (fst (run_calls (\<lambda>at. violation_record at (from_secs 10)) [from_secs 0, from_secs 9]
     violation_window_default)) = [1, 2]"
  using violation_window_counts
    [of violation_window_default "from_secs 10" "from_secs 0" "[from_secs 9]"]
  by (simp add: violation_window_default_def from_secs_def duration_since_def del: run_calls.simps)

end
