(* ===== verification/Net_Cohort.thy ===== *)
theory Net_Cohort
  imports Chat_Prelude
begin

text \<open>
  Address cohorts (\<^verbatim>\<open>src/net.rs\<close>): the identity every per-address limit and sanction
  uses. An IPv4 address is a 32-bit word, an IPv6 address its 128 bits in network order.
\<close>

datatype ip_addr = V4 "32 word" | V6 "128 word"

text \<open>
  \<^verbatim>\<open>Ipv6Addr::to_ipv4_mapped\<close>: the addresses \<^verbatim>\<open>::ffff:a.b.c.d\<close>, that is eighty zero
  bits, sixteen one bits and the IPv4 address.
\<close>

definition to_ipv4_mapped :: "128 word \<Rightarrow> 32 word option" where
  "to_ipv4_mapped a = (if drop_bit 32 a = 0xFFFF then Some (ucast a) else None)"

text \<open>Keeping segments 0 to 3 and zeroing segments 4 to 7 clears the low 64 bits.\<close>

definition slash_64 :: "128 word \<Rightarrow> 128 word" where
  "slash_64 a = push_bit 64 (drop_bit 64 a)"

fun cohort :: "ip_addr \<Rightarrow> ip_addr" where
  "cohort (V4 a) = V4 a"
| "cohort (V6 a) = (case to_ipv4_mapped a of Some m \<Rightarrow> V4 m | None \<Rightarrow> V6 (slash_64 a))"

lemma drop_bit_slash_64: "drop_bit 64 (slash_64 a) = drop_bit 64 a"
  unfolding slash_64_def by (rule bit_word_eqI) (auto simp: bit_simps dest: bit_imp_le_length)

lemma slash_64_not_mapped: "to_ipv4_mapped (slash_64 a) = None"
proof -
  have "\<not> bit (drop_bit 32 (slash_64 a)) 0"
    by (simp add: slash_64_def bit_simps)
  moreover have "bit (0xFFFF :: 128 word) 0" by simp
  ultimately have "drop_bit 32 (slash_64 a) \<noteq> 0xFFFF" by metis
  then show ?thesis by (simp add: to_ipv4_mapped_def)
qed

lemma slash_64_eq_iff: "slash_64 a = slash_64 b \<longleftrightarrow> drop_bit 64 a = drop_bit 64 b"
  by (metis drop_bit_slash_64 slash_64_def)

lemma slash_64_idem: "slash_64 (slash_64 a) = slash_64 a"
  by (simp add: slash_64_eq_iff drop_bit_slash_64)

lemma cohort_idem [simp]: "cohort (cohort a) = cohort a"
  by (cases a) (auto simp: slash_64_not_mapped slash_64_idem split: option.splits)

text \<open>
  C17: an address is its own cohort's representative (applying \<^verbatim>\<open>cohort\<close> twice changes
  nothing, so an already canonical guest address keeps matching), IPv4 identities stay exact,
  and two IPv6 addresses that are not IPv4-mapped share an identity exactly when they share
  their /64.
\<close>

theorem cohort_identity:
  assumes "to_ipv4_mapped c = None" and "to_ipv4_mapped d = None"
  shows "cohort (cohort x) = cohort x
    \<and> (cohort (V4 a) = cohort (V4 b) \<longleftrightarrow> a = b)
    \<and> (cohort (V6 c) = cohort (V6 d) \<longleftrightarrow> drop_bit 64 c = drop_bit 64 d)"
  using assms by (simp add: slash_64_eq_iff)

text \<open>Two addresses of 2001:db8:1:2::/64 meet, one of the next /64 does not.\<close>

theorem cohort_identity_witness:
  "cohort (V6 0x20010db8000100020000000000000001) = cohort (V6 0x20010db800010002ffff000000000042)
   \<and> cohort (V6 0x20010db8000100020000000000000001) \<noteq> cohort (V6 0x20010db8000100030000000000000001)"
proof -
  have m: "to_ipv4_mapped 0x20010db8000100020000000000000001 = None"
          "to_ipv4_mapped 0x20010db800010002ffff000000000042 = None"
          "to_ipv4_mapped 0x20010db8000100030000000000000001 = None"
    by code_simp+
  show ?thesis
    using cohort_identity [OF m(1) m(2)] cohort_identity [OF m(1) m(3)]
    by (simp del: cohort.simps)
qed

end
