(* ===== verification/Chat_Text.thy ===== *)
theory Chat_Text
  imports Chat_Prelude
begin

text \<open>
  Text as the server sees it (\<^verbatim>\<open>src/labels.rs\<close>, \<^verbatim>\<open>src/ids.rs\<close> and the standard
  library's string operations they use). A \<^typ>\<open>string\<close> is the UTF-8 encoding, so
  \<^const>\<open>length\<close> is \<^verbatim>\<open>str::len\<close>; a character is the bytes that encode it.
  The Unicode tables of the ICU crates are parameters.
\<close>

section \<open>UTF-8 strings\<close>

type_synonym character = string

definition continuation :: "char \<Rightarrow> bool" where
  "continuation c \<longleftrightarrow> (of_char c :: nat) div 64 = 2"

function chars :: "string \<Rightarrow> character list" where
  "chars [] = []"
| "chars (b # bs) = (b # takeWhile continuation bs) # chars (dropWhile continuation bs)"
  by pat_completeness auto
termination by (relation "measure length") (auto simp: length_dropWhile_le le_imp_less_Suc)

fun code_point :: "character \<Rightarrow> nat" where
  "code_point [a] = of_char a"
| "code_point [a, b] = (of_char a mod 32) * 64 + of_char b mod 64"
| "code_point [a, b, c] = ((of_char a mod 16) * 64 + of_char b mod 64) * 64 + of_char c mod 64"
| "code_point [a, b, c, d] =
     (((of_char a mod 8) * 64 + of_char b mod 64) * 64 + of_char c mod 64) * 64 + of_char d mod 64"
| "code_point _ = 0"

definition is_control :: "character \<Rightarrow> bool" where
  \<comment> \<open>\<^verbatim>\<open>char::is_control\<close>: the general category Cc\<close>
  "is_control c \<longleftrightarrow> (let n = code_point c in n \<le> 0x1F \<or> (0x7F \<le> n \<and> n \<le> 0x9F))"

definition is_whitespace :: "character \<Rightarrow> bool" where
  \<comment> \<open>\<^verbatim>\<open>char::is_whitespace\<close>: the property White\_Space\<close>
  "is_whitespace c \<longleftrightarrow>
     (let n = code_point c in
      (0x09 \<le> n \<and> n \<le> 0x0D) \<or> n \<in> {0x20, 0x85, 0xA0, 0x1680, 0x2028, 0x2029, 0x202F, 0x205F, 0x3000}
        \<or> (0x2000 \<le> n \<and> n \<le> 0x200A))"

definition trim_start :: "string \<Rightarrow> string" where
  "trim_start s = concat (dropWhile is_whitespace (chars s))"

definition trim_end :: "string \<Rightarrow> string" where
  "trim_end s = concat (rev (dropWhile is_whitespace (rev (chars s))))"

definition trim :: "string \<Rightarrow> string" where
  "trim s = trim_end (trim_start s)"

definition take_chars :: "nat \<Rightarrow> string \<Rightarrow> string" where
  "take_chars n s = concat (take n (chars s))"

fun nat_to_string :: "nat \<Rightarrow> string" where
  "nat_to_string n =
     (if n < 10 then [char_of (48 + n)] else nat_to_string (n div 10) @ [char_of (48 + n mod 10)])"

definition is_ascii_alphanumeric :: "char \<Rightarrow> bool" where
  "is_ascii_alphanumeric c \<longleftrightarrow>
     (let n = of_char c :: nat in (48 \<le> n \<and> n \<le> 57) \<or> (65 \<le> n \<and> n \<le> 90) \<or> (97 \<le> n \<and> n \<le> 122))"

section \<open>Identifiers\<close>

definition MAX_ROOM_ID_LEN :: nat where
  "MAX_ROOM_ID_LEN = 128"

datatype invalid_room_id = Empty | TooLong | Character

definition slug_byte :: "char \<Rightarrow> bool" where
  "slug_byte b \<longleftrightarrow> is_ascii_alphanumeric b \<or> b \<in> {CHR ''-'', CHR ''_''}"

definition room_id_new :: "string \<Rightarrow> invalid_room_id + string" where
  "room_id_new value =
     (if value = [] then Inl Empty
      else if length value > MAX_ROOM_ID_LEN then Inl TooLong
      else if \<not> list_all slug_byte value then Inl Character
      else Inr value)"

definition valid_correlation_id :: "string \<Rightarrow> bool" where
  "valid_correlation_id value \<longleftrightarrow> value \<noteq> [] \<and> length value \<le> 64 \<and> list_all slug_byte value"

section \<open>Labels\<close>

text \<open>What the ICU crates provide: the default-ignorable set, NFKC and full case folding.\<close>

record icu =
  default_ignorable :: "nat \<Rightarrow> bool"
  nfkc :: "string \<Rightarrow> string"
  fold_string :: "string \<Rightarrow> string"

definition comparison_key :: "icu \<Rightarrow> string \<Rightarrow> string" where
  "comparison_key u s =
     (let visible = concat (filter (\<lambda>c. \<not> default_ignorable u (code_point c)) (chars s));
          normalized = nfkc u (trim visible);
          folded = fold_string u normalized in
      trim (nfkc u folded))"

definition is_hidden_format :: "icu \<Rightarrow> character \<Rightarrow> bool" where
  "is_hidden_format u c =
     (let n = code_point c in
      if n \<in> {0x2028, 0x2029} then True
      else (let needed = (0x200C \<le> n \<and> n \<le> 0x200F) \<or> n = 0x061C \<or> (0x180B \<le> n \<and> n \<le> 0x180F)
              \<or> (0xFE00 \<le> n \<and> n \<le> 0xFE0F) \<or> (0xE0020 \<le> n \<and> n \<le> 0xE007F)
              \<or> (0xE0100 \<le> n \<and> n \<le> 0xE01EF) in
            \<not> needed \<and> default_ignorable u n))"

definition is_plain_text :: "icu \<Rightarrow> string \<Rightarrow> bool" where
  "is_plain_text u s \<longleftrightarrow>
     \<not> list_ex (\<lambda>c. (is_control c \<and> c \<noteq> [char_of (10::nat)] \<and> c \<noteq> [char_of (9::nat)])
                    \<or> is_hidden_format u c) (chars s)"

definition is_plain :: "icu \<Rightarrow> string \<Rightarrow> bool" where
  "is_plain u s \<longleftrightarrow> comparison_key u s \<noteq> [] \<and>
     \<not> list_ex (\<lambda>c. is_control c \<or> is_hidden_format u c) (chars s)"

definition is_reserved_name :: "icu \<Rightarrow> string \<Rightarrow> bool" where
  "is_reserved_name u s \<longleftrightarrow> comparison_key u s = ''you''"

section \<open>Facts about strings\<close>

lemma concat_chars [simp]: "concat (chars s) = s"
  by (induction s rule: chars.induct) simp_all

lemma chars_nonempty: "c \<in> set (chars s) \<Longrightarrow> c \<noteq> []"
  by (induction s rule: chars.induct) auto

text \<open>A string is well formed for splitting when it does not start inside a character.\<close>

definition starts_char :: "string \<Rightarrow> bool" where
  "starts_char s \<longleftrightarrow> (s \<noteq> [] \<longrightarrow> \<not> continuation (hd s))"

lemma chars_append:
  "starts_char t \<Longrightarrow> chars (s @ t) = chars s @ chars t"
proof (induction s rule: chars.induct)
  case 1
  then show ?case by simp
next
  case (2 b bs)
  have t: "takeWhile continuation t = []" "dropWhile continuation t = t"
    using "2.prems" by (cases t; simp add: starts_char_def)+
  show ?case
  proof (cases "list_all continuation bs")
    case True
    then have bs: "takeWhile continuation bs = bs" "dropWhile continuation bs = []"
      by (simp_all add: list_all_iff takeWhile_eq_all_conv dropWhile_eq_Nil_conv)
    from True show ?thesis using t by (simp add: bs takeWhile_append2 dropWhile_append2 list_all_iff)
  next
    case False
    then obtain x where "x \<in> set bs" "\<not> continuation x" by (auto simp: list_all_iff)
    then show ?thesis using 2 by (simp add: takeWhile_append1 dropWhile_append1)
  qed
qed

lemma length_concat_le: "length (concat (take n xss)) \<le> length (concat xss)"
  by (metis append_take_drop_id concat_append le_add1 length_append)

lemma length_take_chars: "length (take_chars n s) \<le> length s"
  using length_concat_le [of n "chars s"] by (simp add: take_chars_def)

lemma room_id_new_valid: "room_id_new s = Inr t \<longleftrightarrow>
    t = s \<and> s \<noteq> [] \<and> length s \<le> MAX_ROOM_ID_LEN \<and> list_all slug_byte s"
  by (auto simp: room_id_new_def)

lemma is_plain_is_plain_text: "is_plain u s \<Longrightarrow> is_plain_text u s"
  by (auto simp: is_plain_def is_plain_text_def list_ex_iff)

end
