(* ===== verification/Room_Roles.thy ===== *)
theory Room_Roles
  imports Chat_Prelude
begin

text \<open>
  Standing in a room (\<^verbatim>\<open>src/room/roles.rs\<close>): the ordered roles, what each may do, how a
  role is resolved from durable state, and the table that stores granted roles.
\<close>

datatype role = Guest | User | Member | Moderator | Admin | Owner

fun discriminant :: "role \<Rightarrow> nat" where
  "discriminant Guest = 0"
| "discriminant User = 1"
| "discriminant Member = 2"
| "discriminant Moderator = 3"
| "discriminant Admin = 4"
| "discriminant Owner = 5"

text \<open>The derived order compares discriminants.\<close>

instantiation role :: linorder
begin

definition less_eq_role :: "role \<Rightarrow> role \<Rightarrow> bool" where
  "less_eq_role a b \<longleftrightarrow> discriminant a \<le> discriminant b"

definition less_role :: "role \<Rightarrow> role \<Rightarrow> bool" where
  "less_role a b \<longleftrightarrow> discriminant a < discriminant b"

instance
proof
  fix a b :: role
  show "a \<le> b \<Longrightarrow> b \<le> a \<Longrightarrow> a = b"
    by (cases a; cases b) (auto simp: less_eq_role_def)
qed (auto simp: less_eq_role_def less_role_def)

end

lemmas role_order = less_eq_role_def less_role_def

fun role_name :: "role \<Rightarrow> string" where
  "role_name Owner = ''owner''"
| "role_name Admin = ''admin''"
| "role_name Moderator = ''moderator''"
| "role_name Member = ''member''"
| "role_name User = ''user''"
| "role_name Guest = ''guest''"

definition is_stored :: "role \<Rightarrow> bool" where
  "is_stored r \<longleftrightarrow> r \<in> {Member, Moderator, Admin}"

definition can_moderate :: "role \<Rightarrow> role \<Rightarrow> bool" where
  "can_moderate self target \<longleftrightarrow> Moderator \<le> self \<and> target < self"

definition can_set_role :: "role \<Rightarrow> role \<Rightarrow> role \<Rightarrow> bool" where
  "can_set_role self target new_role \<longleftrightarrow>
     Moderator \<le> self \<and> target < self \<and> new_role < self \<and> new_role \<noteq> Owner"

definition can_broadcast :: "role \<Rightarrow> bool \<Rightarrow> bool" where
  "can_broadcast self moderated = (if moderated then Member \<le> self else True)"

definition role_can_chat :: "role \<Rightarrow> bool \<Rightarrow> bool" where
  "role_can_chat self moderated = (if moderated then Member \<le> self else True)"

definition can_change_settings :: "role \<Rightarrow> bool" where
  "can_change_settings self \<longleftrightarrow> Admin \<le> self"

definition can_admit_lobby :: "role \<Rightarrow> bool" where
  "can_admit_lobby self \<longleftrightarrow> Moderator \<le> self"

section \<open>Durable roles\<close>

text \<open>
  The rows of \<^verbatim>\<open>room_roles\<close> for one room, by account: the role and who granted it. The
  row a query finds is an argument of the functions that query; a query can also fail, and
  the failure is the left summand, as the \<^verbatim>\<open>?\<close> after the query returns it.
\<close>

type_synonym uuid = nat
type_synonym role_rows = "(uuid, role \<times> uuid) table"

definition role_row :: "role_rows \<Rightarrow> uuid \<Rightarrow> role option" where
  "role_row rows user_id = map_option fst (tget rows user_id)"

definition resolve_role ::
  "('e + role option) \<Rightarrow> uuid option \<Rightarrow> uuid \<Rightarrow> bool \<Rightarrow> 'e + role" where
  "resolve_role row user_id owner_id is_authenticated =
     (case user_id of
        Some uid \<Rightarrow>
          if uid = owner_id then Inr Owner
          else (case row of
                  Inl e \<Rightarrow> Inl e
                | Inr (Some r) \<Rightarrow> Inr r
                | Inr None \<Rightarrow> if is_authenticated then Inr User else Inr Guest)
      | None \<Rightarrow> Inr Guest)"

text \<open>\<^verbatim>\<open>current_role\<close>: the owner's role, else the stored row's, of an existing room.\<close>

definition current_role :: "uuid option \<Rightarrow> role_rows \<Rightarrow> uuid \<Rightarrow> role option" where
  "current_role room_owner rows user_id =
     (case room_owner of
        None \<Rightarrow> None
      | Some owner_id \<Rightarrow> if user_id = owner_id then Some Owner else role_row rows user_id)"

definition set_role :: "role_rows \<Rightarrow> uuid \<Rightarrow> role \<Rightarrow> uuid \<Rightarrow> role_rows" where
  "set_role rows user_id r granted_by =
     (if \<not> is_stored r then tdel user_id rows else tput user_id (r, granted_by) rows)"

text \<open>Only storable roles are ever in the table.\<close>

definition role_rows_wf :: "role_rows \<Rightarrow> bool" where
  "role_rows_wf rows \<longleftrightarrow> table_wf rows \<and> (\<forall>u r g. tget rows u = Some (r, g) \<longrightarrow> is_stored r)"

lemma set_role_wf [wf_intros]: "role_rows_wf rows \<Longrightarrow> role_rows_wf (set_role rows u r g)"
  by (auto simp: role_rows_wf_def set_role_def split: if_splits)

lemma role_row_set_role:
  "role_row (set_role rows u r g) v
     = (if v = u then (if is_stored r then Some r else None) else role_row rows v)"
  by (simp add: role_row_def set_role_def)

lemma can_set_role_moderates: "can_set_role s t n \<Longrightarrow> can_moderate s t"
  by (simp add: can_set_role_def can_moderate_def)

lemma can_moderate_irrefl: "\<not> can_moderate r r"
  by (simp add: can_moderate_def)

lemma can_moderate_trans: "can_moderate a b \<Longrightarrow> can_moderate b c \<Longrightarrow> can_moderate a c"
  by (auto simp: can_moderate_def)

lemma role_less_Owner: "r < Owner \<longleftrightarrow> r \<noteq> Owner"
  by (cases r) (auto simp: less_role_def)

text \<open>
  C18: what a granted role means after it is saved. Whoever may set a role outranks both the
  target and the role granted, so ownership is never granted, nobody promotes a peer of
  theirs or themselves, and the account then resolves to exactly the new role (a role that
  has no row, for a signed-in account, to \<^const>\<open>User\<close>), whatever the table held before; no
  other account's role changes.
\<close>

theorem set_role_resolves:
  assumes "role_rows_wf rows" and "can_set_role setter target new_role"
    and "user \<noteq> owner_id" and "new_role \<noteq> Guest" and "other \<noteq> user"
  shows "resolve_role (Inr (role_row (set_role rows user new_role g) user) :: 'e + role option)
           (Some user) owner_id True = Inr new_role
    \<and> current_role (Some owner_id) (set_role rows user new_role g) user
           = (if is_stored new_role then Some new_role else None)
    \<and> role_row (set_role rows user new_role g) other = role_row rows other
    \<and> role_rows_wf (set_role rows user new_role g)
    \<and> new_role < setter \<and> target < setter \<and> new_role < Owner"
proof -
  have n: "new_role < setter" "target < setter" "new_role \<noteq> Owner"
    using assms(2) by (auto simp: can_set_role_def)
  then have "is_stored new_role \<or> new_role = User"
    using assms(4) by (cases new_role) (auto simp: is_stored_def)
  then show ?thesis
    using assms(1,3,5) n
    by (auto simp: resolve_role_def current_role_def role_row_set_role role_less_Owner set_role_wf
        is_stored_def)
qed

text \<open>An administrator (account 3, of a room owned by account 1) makes account 7 a moderator.\<close>

theorem set_role_resolves_witness:
  "resolve_role (Inr (role_row (set_role [(7, Member, 1)] 7 Moderator 3) 7) :: string + role option)
     (Some 7) 1 True = Inr Moderator \<and> Moderator < Admin"
proof -
  have "role_rows_wf [(7, Member, 1)]"
    by (simp add: role_rows_wf_def table_wf_def is_stored_def)
  moreover have "can_set_role Admin Member Moderator"
    by (simp add: can_set_role_def role_order)
  ultimately show ?thesis
    using set_role_resolves [where ?'e = string, of "[(7, Member, 1)]" Admin Member Moderator 7 1 8 3]
    by simp
qed

end
