(* ===== verification/Room_Refusals.thy ===== *)
theory Room_Refusals
  imports Main
begin

text \<open>
  Why a room operation was refused (\<^verbatim>\<open>src/room/refusal.rs\<close> and the failures of
  \<^verbatim>\<open>src/room/social.rs\<close>): refusals with a client-safe message, their wire codes and HTTP
  statuses, and the error values the room operations return.
\<close>

datatype error_code =
  CodeInvalidMessage | CodeInvalid | CodeForbidden | CodeNotFound | CodeRateLimited
  | CodeUnavailable | CodeTimedOut | CodeRequestFailed

datatype refusal =
  NotFound string | Unauthorized string | Forbidden string | Invalid string | Conflict string
  | RateLimited string | Unavailable string | TimedOut string

fun refusal_message :: "refusal \<Rightarrow> string" where
  "refusal_message (NotFound m) = m"
| "refusal_message (Unauthorized m) = m"
| "refusal_message (Forbidden m) = m"
| "refusal_message (Invalid m) = m"
| "refusal_message (Conflict m) = m"
| "refusal_message (RateLimited m) = m"
| "refusal_message (Unavailable m) = m"
| "refusal_message (TimedOut m) = m"

fun refusal_code :: "refusal \<Rightarrow> error_code" where
  "refusal_code (NotFound _) = CodeNotFound"
| "refusal_code (Unauthorized _) = CodeForbidden"
| "refusal_code (Forbidden _) = CodeForbidden"
| "refusal_code (Invalid _) = CodeInvalid"
| "refusal_code (Conflict _) = CodeInvalid"
| "refusal_code (RateLimited _) = CodeRateLimited"
| "refusal_code (Unavailable _) = CodeUnavailable"
| "refusal_code (TimedOut _) = CodeTimedOut"

fun refusal_status :: "refusal \<Rightarrow> nat" where
  "refusal_status (NotFound _) = 404"
| "refusal_status (Unauthorized _) = 401"
| "refusal_status (Forbidden _) = 403"
| "refusal_status (Invalid _) = 400"
| "refusal_status (Conflict _) = 409"
| "refusal_status (RateLimited _) = 429"
| "refusal_status (Unavailable _) = 503"
| "refusal_status (TimedOut _) = 503"

text \<open>
  A persistence failure: a refusal or an error of the database library, with the variants the
  room control operations tell apart. An error the database itself reported carries its
  SQLSTATE code when it has one.
\<close>

datatype sqlx_error =
  RowNotFound | DatabaseReported "string option" | PoolTimedOut | PoolClosed | InvalidArgument
  | Protocol string | OtherSqlx nat

datatype room_error = Refused refusal | Database sqlx_error

text \<open>What an operation of the room manager fails with (\<^verbatim>\<open>anyhow::Error\<close>).\<close>

datatype failure = Bail string | SocialFailure error_code string | RoomPasswordRequired

type_synonym 'a outcome = "failure + 'a"

definition refused :: "refusal \<Rightarrow> failure" where
  "refused r = SocialFailure (refusal_code r) (refusal_message r)"

abbreviation invalid :: "string \<Rightarrow> failure" where
  "invalid m \<equiv> SocialFailure CodeInvalid m"

abbreviation forbidden :: "string \<Rightarrow> failure" where
  "forbidden m \<equiv> SocialFailure CodeForbidden m"

abbreviation not_found :: "string \<Rightarrow> failure" where
  "not_found m \<equiv> SocialFailure CodeNotFound m"

abbreviation rate_limited :: "string \<Rightarrow> failure" where
  "rate_limited m \<equiv> SocialFailure CodeRateLimited m"

abbreviation unavailable :: "string \<Rightarrow> failure" where
  "unavailable m \<equiv> SocialFailure CodeUnavailable m"

fun is_ok :: "'e + 'a \<Rightarrow> bool" where
  "is_ok (Inl _) = False"
| "is_ok (Inr _) = True"

lemma is_ok_iff: "is_ok r \<longleftrightarrow> (\<exists>v. r = Inr v)"
  by (cases r) auto

end
