(* ===== verification/Room_Settings.thy ===== *)
theory Room_Settings
  imports Chat_Text Room_Roles Room_Refusals
begin

text \<open>
  Room settings (\<^verbatim>\<open>src/room/settings.rs\<close>): the stored and runtime projection, the partial
  change of the socket and HTTP interfaces, the validation of a new room, and the updates of
  the \<^verbatim>\<open>rooms\<close> table as functions on its rows.
\<close>

section \<open>Settings and patches\<close>

datatype chat_style_kind = Accent | TextStyle | Bubble

record chat_style =
  cs_color :: "string option"
  cs_style :: chat_style_kind

definition chat_style_default :: chat_style where
  "chat_style_default = \<lparr>cs_color = None, cs_style = Accent\<rparr>"

type_synonym room_id = string

record room_settings =
  rs_id :: string
  rs_owner_id :: uuid
  rs_display_name :: string
  rs_password_protected :: bool
  rs_require_registration :: bool
  rs_max_participants :: "int option"
  rs_max_broadcasters :: "int option"
  rs_allow_screen_sharing :: bool
  rs_allow_chat :: bool
  rs_allow_video :: bool
  rs_moderated :: bool
  rs_invite_only :: bool
  rs_secret :: bool
  rs_lobby_enabled :: bool
  rs_push_to_talk :: bool
  rs_guests_allowed :: bool
  rs_guests_can_broadcast :: bool
  rs_topic :: "string option"
  rs_name_style :: chat_style
  rs_topic_style :: chat_style
  rs_history_retention_days :: int

definition settings_defaults :: "room_id \<Rightarrow> room_settings" where
  "settings_defaults room_id =
     \<lparr>rs_id = room_id, rs_owner_id = 0, rs_display_name = room_id, rs_password_protected = False,
      rs_require_registration = False, rs_max_participants = None, rs_max_broadcasters = None,
      rs_allow_screen_sharing = True, rs_allow_chat = True, rs_allow_video = True,
      rs_moderated = False, rs_invite_only = False, rs_secret = False, rs_lobby_enabled = False,
      rs_push_to_talk = False, rs_guests_allowed = True, rs_guests_can_broadcast = True,
      rs_topic = None, rs_name_style = chat_style_default, rs_topic_style = chat_style_default,
      rs_history_retention_days = 0\<rparr>"

text \<open>
  A field of a patch is omitted (\<^const>\<open>None\<close>) or present; for the ceilings and the password a
  present \<^const>\<open>None\<close> clears it. The integers are the signed 32-bit numbers of the wire.
\<close>

record settings_patch =
  sp_moderated :: "bool option"
  sp_lobby_enabled :: "bool option"
  sp_guests_allowed :: "bool option"
  sp_guests_can_broadcast :: "bool option"
  sp_max_broadcasters :: "int option option"
  sp_max_participants :: "int option option"
  sp_allow_screen_sharing :: "bool option"
  sp_allow_chat :: "bool option"
  sp_allow_video :: "bool option"
  sp_require_registration :: "bool option"
  sp_invite_only :: "bool option"
  sp_push_to_talk :: "bool option"
  sp_secret :: "bool option"
  sp_password :: "string option option"

definition patch_default :: settings_patch where
  "patch_default =
     \<lparr>sp_moderated = None, sp_lobby_enabled = None, sp_guests_allowed = None,
      sp_guests_can_broadcast = None, sp_max_broadcasters = None, sp_max_participants = None,
      sp_allow_screen_sharing = None, sp_allow_chat = None, sp_allow_video = None,
      sp_require_registration = None, sp_invite_only = None, sp_push_to_talk = None,
      sp_secret = None, sp_password = None\<rparr>"

definition keep :: "'a option \<Rightarrow> 'a \<Rightarrow> 'a" where
  \<comment> \<open>\<^verbatim>\<open>if let Some(v) = patch.field { settings.field = v; }\<close>\<close>
  "keep patch current = (case patch of Some v \<Rightarrow> v | None \<Rightarrow> current)"

definition apply_settings_update :: "settings_patch \<Rightarrow> room_settings \<Rightarrow> room_settings" where
  "apply_settings_update p s = s\<lparr>
     rs_moderated := keep (sp_moderated p) (rs_moderated s),
     rs_lobby_enabled := keep (sp_lobby_enabled p) (rs_lobby_enabled s),
     rs_guests_allowed := keep (sp_guests_allowed p) (rs_guests_allowed s),
     rs_guests_can_broadcast := keep (sp_guests_can_broadcast p) (rs_guests_can_broadcast s),
     rs_max_broadcasters := keep (sp_max_broadcasters p) (rs_max_broadcasters s),
     rs_max_participants := keep (sp_max_participants p) (rs_max_participants s),
     rs_allow_screen_sharing := keep (sp_allow_screen_sharing p) (rs_allow_screen_sharing s),
     rs_allow_chat := keep (sp_allow_chat p) (rs_allow_chat s),
     rs_allow_video := keep (sp_allow_video p) (rs_allow_video s),
     rs_require_registration := keep (sp_require_registration p) (rs_require_registration s),
     rs_invite_only := keep (sp_invite_only p) (rs_invite_only s),
     rs_push_to_talk := keep (sp_push_to_talk p) (rs_push_to_talk s),
     rs_secret := keep (sp_secret p) (rs_secret s),
     rs_password_protected :=
       keep (map_option (\<lambda>v. v \<noteq> None) (sp_password p)) (rs_password_protected s)\<rparr>"

section \<open>Validation\<close>

definition MAX_DISPLAY_NAME_LEN :: nat where "MAX_DISPLAY_NAME_LEN = 128"
definition MAX_TOPIC_LEN :: nat where "MAX_TOPIC_LEN = 512"
definition MIN_PASSWORD_LEN :: nat where "MIN_PASSWORD_LEN = 8"
definition MAX_PASSWORD_LEN :: nat where "MAX_PASSWORD_LEN = 256"
definition MAX_PARTICIPANTS :: int where "MAX_PARTICIPANTS = 10000"
definition MAX_BROADCASTERS :: int where "MAX_BROADCASTERS = 1000"
definition MAX_PERSISTED_ROOMS_PER_OWNER :: nat where "MAX_PERSISTED_ROOMS_PER_OWNER = 100"

record create_room_request =
  cr_id :: string
  cr_display_name :: string
  cr_password :: "string option"
  cr_require_registration :: "bool option"
  cr_max_participants :: "int option"
  cr_max_broadcasters :: "int option"
  cr_moderated :: "bool option"
  cr_secret :: "bool option"
  cr_lobby_enabled :: "bool option"
  cr_guests_allowed :: "bool option"
  cr_guests_can_broadcast :: "bool option"
  cr_topic :: "string option"

definition valid_room_id :: "string \<Rightarrow> bool" where
  "valid_room_id s = is_ok (room_id_new s)"

definition has_control :: "string \<Rightarrow> bool" where
  "has_control s = list_ex is_control (chars s)"

definition valid_new_room_password :: "string \<Rightarrow> bool" where
  "valid_new_room_password password \<longleftrightarrow>
     MIN_PASSWORD_LEN \<le> length password \<and> length password \<le> MAX_PASSWORD_LEN \<and>
     \<not> has_control password"

definition is_some_and :: "('a \<Rightarrow> bool) \<Rightarrow> 'a option \<Rightarrow> bool" where
  "is_some_and P x = (case x of None \<Rightarrow> False | Some v \<Rightarrow> P v)"

fun broadcasters_exceed :: "int option \<Rightarrow> int option \<Rightarrow> bool" where
  "broadcasters_exceed (Some broadcasters) (Some participants) = (broadcasters > participants)"
| "broadcasters_exceed _ _ = False"

definition validate_create_request :: "icu \<Rightarrow> create_room_request \<Rightarrow> string + unit" where
  "validate_create_request u r =
     (if \<not> valid_room_id (cr_id r) then
        Inl ''Room ID must use 1-128 letters, numbers, hyphens, or underscores''
      else if trim (cr_display_name r) = [] \<or> length (cr_display_name r) > MAX_DISPLAY_NAME_LEN
              \<or> \<not> is_plain u (cr_display_name r) then
        Inl ''Display name must be 1-128 characters without control characters''
      else if is_some_and (\<lambda>p. \<not> valid_new_room_password p) (cr_password r) then
        Inl ''Password must be 8-256 bytes without control characters''
      else if is_some_and (\<lambda>t. length t > MAX_TOPIC_LEN \<or> has_control t) (cr_topic r) then
        Inl ''Topic must be at most 512 characters without control characters''
      else if is_some_and (\<lambda>v. \<not> (1 \<le> v \<and> v \<le> MAX_PARTICIPANTS)) (cr_max_participants r) then
        Inl ''Maximum participants must be between 1 and 10000''
      else if is_some_and (\<lambda>v. \<not> (1 \<le> v \<and> v \<le> MAX_BROADCASTERS)) (cr_max_broadcasters r) then
        Inl ''Maximum broadcasters must be between 1 and 1000''
      else if broadcasters_exceed (cr_max_broadcasters r) (cr_max_participants r) then
        Inl ''Maximum broadcasters cannot exceed maximum participants''
      else Inr ())"

section \<open>The table of persisted rooms\<close>

text \<open>
  A row of \<^verbatim>\<open>rooms\<close>: the settings' columns and the password hash. Reading a row derives
  \<^verbatim>\<open>password_protected\<close> from the hash, so the row stores every other field.
\<close>

record room_row =
  rr_settings :: room_settings
  rr_password_hash :: "string option"

type_synonym room_rows = "(room_id, room_row) table"

definition load_room :: "room_rows \<Rightarrow> room_id \<Rightarrow> (room_settings \<times> string option) option" where
  "load_room rows room_id =
     map_option (\<lambda>r. ((rr_settings r)\<lparr>rs_password_protected := rr_password_hash r \<noteq> None\<rparr>,
                      rr_password_hash r)) (tget rows room_id)"

definition unwrap_or :: "'a option \<Rightarrow> 'a \<Rightarrow> 'a" where
  "unwrap_or x d = (case x of Some v \<Rightarrow> v | None \<Rightarrow> d)"

definition requested_settings :: "uuid \<Rightarrow> create_room_request \<Rightarrow> string option \<Rightarrow> room_settings" where
  "requested_settings owner_id req password_hash =
     \<lparr>rs_id = cr_id req, rs_owner_id = owner_id, rs_display_name = cr_display_name req,
      rs_password_protected = (password_hash \<noteq> None),
      rs_require_registration = unwrap_or (cr_require_registration req) False,
      rs_max_participants = cr_max_participants req, rs_max_broadcasters = cr_max_broadcasters req,
      rs_allow_screen_sharing = True, rs_allow_chat = True, rs_allow_video = True,
      rs_moderated = unwrap_or (cr_moderated req) False, rs_invite_only = False,
      rs_secret = unwrap_or (cr_secret req) False,
      rs_lobby_enabled = unwrap_or (cr_lobby_enabled req) False, rs_push_to_talk = False,
      rs_guests_allowed = unwrap_or (cr_guests_allowed req) True,
      rs_guests_can_broadcast = unwrap_or (cr_guests_can_broadcast req) True,
      rs_topic = cr_topic req, rs_name_style = chat_style_default,
      rs_topic_style = chat_style_default, rs_history_retention_days = 0\<rparr>"

text \<open>
  One transaction: the global count, the owner's count, then the insert. The room identifier
  is the primary key, so an insert of an existing one is a database error.
\<close>

definition owned_count :: "room_rows \<Rightarrow> uuid \<Rightarrow> nat" where
  "owned_count rows owner_id = length (filter (\<lambda>(_, r). rs_owner_id (rr_settings r) = owner_id) rows)"

definition create_room ::
  "nat \<Rightarrow> room_rows \<Rightarrow> uuid \<Rightarrow> create_room_request \<Rightarrow> string option \<Rightarrow>
     (room_error + room_settings) \<times> room_rows" where
  "create_room max_persisted_rooms rows owner_id req password_hash =
     (if length rows \<ge> max_persisted_rooms then
        (Inl (Refused (Unavailable ''Persisted room capacity has been reached'')), rows)
      else if owned_count rows owner_id \<ge> MAX_PERSISTED_ROOMS_PER_OWNER then
        (Inl (Refused (Conflict (''Persisted room quota reached (maximum ''
           @ nat_to_string MAX_PERSISTED_ROOMS_PER_OWNER @ '')''))), rows)
      else if contains_key rows (cr_id req) then (Inl (Database (DatabaseReported (Some ''23505''))), rows)
      else (let s = requested_settings owner_id req password_hash in
            (Inr s, tput (cr_id req) \<lparr>rr_settings = s, rr_password_hash = password_hash\<rparr> rows)))"

text \<open>The update binds one column per present field; an empty update runs no query.\<close>

definition patch_is_empty :: "settings_patch \<Rightarrow> string option option \<Rightarrow> bool" where
  "patch_is_empty p password_hash \<longleftrightarrow>
     sp_moderated p = None \<and> sp_lobby_enabled p = None \<and> sp_guests_allowed p = None \<and>
     sp_guests_can_broadcast p = None \<and> sp_max_broadcasters p = None \<and>
     sp_max_participants p = None \<and> sp_allow_screen_sharing p = None \<and> sp_allow_chat p = None \<and>
     sp_allow_video p = None \<and> sp_require_registration p = None \<and> sp_invite_only p = None \<and>
     sp_push_to_talk p = None \<and> sp_secret p = None \<and> password_hash = None"

definition update_row :: "settings_patch \<Rightarrow> string option option \<Rightarrow> room_row \<Rightarrow> room_row" where
  "update_row p password_hash r =
     (let s = rr_settings r in
      \<lparr>rr_settings = (apply_settings_update p s)\<lparr>rs_password_protected := rs_password_protected s\<rparr>,
       rr_password_hash = keep password_hash (rr_password_hash r)\<rparr>)"

definition update_room_settings ::
  "room_rows \<Rightarrow> room_id \<Rightarrow> settings_patch \<Rightarrow> string option option \<Rightarrow>
     (room_error + unit) \<times> room_rows" where
  "update_room_settings rows room_id p password_hash =
     (if patch_is_empty p password_hash then (Inr (), rows)
      else if \<not> contains_key rows room_id then (Inl (Database RowNotFound), rows)
      else (Inr (), tmod room_id (update_row p password_hash) rows))"

section \<open>What the settings promise\<close>

text \<open>
  The contract the two implementations of a settings change share (the live projection of a
  room and the row it is stored in): an omitted field keeps its value, a present one takes it.
\<close>

definition password_hash_of :: "(string \<Rightarrow> string) \<Rightarrow> settings_patch \<Rightarrow> string option option" where
  \<comment> \<open>the hash the manager prepares for a patch, as in \<^verbatim>\<open>update_room_settings_controlled\<close>\<close>
  "password_hash_of hash p = map_option (map_option hash) (sp_password p)"

lemma keep_simps [simp]: "keep None c = c" "keep (Some v) c = v"
  by (simp_all add: keep_def)

lemma unwrap_or_simps [simp]: "unwrap_or None d = d" "unwrap_or (Some v) d = v"
  by (simp_all add: unwrap_or_def)

lemma is_some_and_simps [simp]: "\<not> is_some_and P None" "is_some_and P (Some v) = P v"
  by (simp_all add: is_some_and_def)

lemma apply_empty_patch:
  assumes "patch_is_empty p (password_hash_of h p)"
  shows "apply_settings_update p s = s"
proof -
  have "sp_password p = None" using assms by (simp add: patch_is_empty_def password_hash_of_def)
  with assms show ?thesis by (simp add: patch_is_empty_def apply_settings_update_def)
qed

lemma load_room_update_row:
  "(rr_settings (update_row p (password_hash_of h p) r))
      \<lparr>rs_password_protected := rr_password_hash (update_row p (password_hash_of h p) r) \<noteq> None\<rparr>
    = apply_settings_update p ((rr_settings r)\<lparr>rs_password_protected := rr_password_hash r \<noteq> None\<rparr>)"
  by (cases "sp_password p")
    (auto simp: update_row_def apply_settings_update_def password_hash_of_def Let_def)







end
