(* ===== verification/Moderation_State.thy ===== *)
theory Moderation_State
  imports Net_Cohort Room_Settings
begin

text \<open>
  Sanctions (\<^verbatim>\<open>src/room/moderation.rs\<close> and the identities of \<^verbatim>\<open>src/room/mod.rs\<close>): what a
  mute or camera ban takes away, whom it binds, and how restrictions combine.
\<close>

type_synonym participant_id = nat

datatype media_kind = Audio | Video

record punitive_state =
  cam_banned :: bool
  text_muted :: bool

definition punitive_default :: punitive_state where
  "punitive_default = \<lparr>cam_banned = False, text_muted = False\<rparr>"

datatype punitive_kind = CamBanned | Muted

fun punitive_as_db_str :: "punitive_kind \<Rightarrow> string" where
  "punitive_as_db_str CamBanned = ''cambanned''"
| "punitive_as_db_str Muted = ''muted''"

text \<open>Whom a saved sanction binds.\<close>

datatype sanction_identity = SanctionUser uuid "ip_addr option" | SanctionGuest ip_addr

definition sanction_identity_of ::
  "participant_id \<Rightarrow> bool \<Rightarrow> ip_addr option \<Rightarrow> room_error + sanction_identity" where
  "sanction_identity_of participant authenticated ip =
     (if authenticated then Inr (SanctionUser participant ip)
      else (case ip of
              Some a \<Rightarrow> Inr (SanctionGuest (cohort a))
            | None \<Rightarrow> Inl (Refused (Invalid
                ''The participant cannot be identified for a saved sanction''))))"

fun sanction_user_id :: "sanction_identity \<Rightarrow> uuid option" where
  "sanction_user_id (SanctionUser i _) = Some i"
| "sanction_user_id (SanctionGuest _) = None"

fun sanction_address :: "sanction_identity \<Rightarrow> ip_addr option" where
  \<comment> \<open>the source renders the address as text\<close>
  "sanction_address (SanctionUser _ ip) = ip"
| "sanction_address (SanctionGuest ip) = Some ip"

text \<open>The key a live sanction outlives its participant by.\<close>

datatype sanction_key = KeyUser participant_id | KeyGuestIp ip_addr | KeyConnection participant_id

definition sanction_key_for :: "participant_id \<Rightarrow> bool \<Rightarrow> ip_addr option \<Rightarrow> sanction_key" where
  "sanction_key_for participant_id authenticated ip =
     (if authenticated then KeyUser participant_id
      else (case ip of Some a \<Rightarrow> KeyGuestIp (cohort a) | None \<Rightarrow> KeyConnection participant_id))"

definition can_produce :: "punitive_state \<Rightarrow> role \<Rightarrow> bool \<Rightarrow> media_kind \<Rightarrow> bool" where
  "can_produce state r moderated kind =
     (if cam_banned state \<and> kind = Video then False
      else if moderated \<and> \<not> can_broadcast r True then False
      else True)"

definition can_chat :: "punitive_state \<Rightarrow> role \<Rightarrow> bool \<Rightarrow> bool" where
  "can_chat state r moderated = (if text_muted state then False else role_can_chat r moderated)"

definition merge_punitive_state :: "punitive_state \<Rightarrow> punitive_state option \<Rightarrow> punitive_state" where
  "merge_punitive_state resolved in_memory =
     (case in_memory of
        Some m \<Rightarrow> \<lparr>cam_banned = cam_banned resolved \<or> cam_banned m,
                   text_muted = text_muted resolved \<or> text_muted m\<rparr>
      | None \<Rightarrow> resolved)"

fun punitive_value :: "punitive_state \<Rightarrow> punitive_kind \<Rightarrow> bool" where
  "punitive_value p CamBanned = cam_banned p"
| "punitive_value p Muted = text_muted p"

fun set_punitive :: "punitive_kind \<Rightarrow> bool \<Rightarrow> punitive_state \<Rightarrow> punitive_state" where
  "set_punitive CamBanned enabled p = p\<lparr>cam_banned := enabled\<rparr>"
| "set_punitive Muted enabled p = p\<lparr>text_muted := enabled\<rparr>"

definition select_join_role :: "bool \<Rightarrow> bool \<Rightarrow> role option \<Rightarrow> bool \<Rightarrow> role option" where
  "select_join_role persisted is_first resolved_role authenticated =
     (if persisted then resolved_role
      else if is_first then Some Owner
      else if authenticated then Some User
      else Some Guest)"

section \<open>The vocabulary of the moderation history\<close>

datatype report_status = ReportOpen | ReportResolvedStatus | ReportDismissedStatus

fun report_status_as_str :: "report_status \<Rightarrow> string" where
  "report_status_as_str ReportOpen = ''open''"
| "report_status_as_str ReportResolvedStatus = ''resolved''"
| "report_status_as_str ReportDismissedStatus = ''dismissed''"

definition report_status_from_str :: "string \<Rightarrow> report_status option" where
  "report_status_from_str value =
     (if value = ''open'' then Some ReportOpen
      else if value = ''resolved'' then Some ReportResolvedStatus
      else if value = ''dismissed'' then Some ReportDismissedStatus
      else None)"

datatype moderation_action =
  Kick | Ban | Unban | CamBan | CamUnban | TextMute | TextUnmute | ReportResolved
  | ReportDismissed | MessageRemoved

definition moderation_actions :: "moderation_action list" where
  "moderation_actions = [Kick, Ban, Unban, CamBan, CamUnban, TextMute, TextUnmute, ReportResolved,
     ReportDismissed, MessageRemoved]"

fun action_as_str :: "moderation_action \<Rightarrow> string" where
  "action_as_str Kick = ''kick''"
| "action_as_str Ban = ''ban''"
| "action_as_str Unban = ''unban''"
| "action_as_str CamBan = ''cam_ban''"
| "action_as_str CamUnban = ''cam_unban''"
| "action_as_str TextMute = ''text_mute''"
| "action_as_str TextUnmute = ''text_unmute''"
| "action_as_str ReportResolved = ''report_resolved''"
| "action_as_str ReportDismissed = ''report_dismissed''"
| "action_as_str MessageRemoved = ''message_removed''"

definition action_parse :: "string \<Rightarrow> moderation_action option" where
  "action_parse value = find (\<lambda>action. action_as_str action = value) moderation_actions"

fun action_for_punitive :: "punitive_kind \<Rightarrow> bool \<Rightarrow> moderation_action" where
  "action_for_punitive CamBanned True = CamBan"
| "action_for_punitive CamBanned False = CamUnban"
| "action_for_punitive Muted True = TextMute"
| "action_for_punitive Muted False = TextUnmute"

datatype report_resolution = ResolvedReport | DismissedReport

fun resolution_status :: "report_resolution \<Rightarrow> report_status" where
  "resolution_status ResolvedReport = ReportResolvedStatus"
| "resolution_status DismissedReport = ReportDismissedStatus"

fun resolution_action :: "report_resolution \<Rightarrow> moderation_action" where
  "resolution_action ResolvedReport = ReportResolved"
| "resolution_action DismissedReport = ReportDismissed"

definition MAX_REASON_LEN :: nat where "MAX_REASON_LEN = 256"

definition valid_reason :: "string \<Rightarrow> bool" where
  "valid_reason value \<longleftrightarrow> length value \<le> MAX_REASON_LEN \<and> \<not> has_control value"

datatype moderation_target_id = TargetParticipant participant_id | TargetBan string

type_synonym date_time = int

record moderation_event =
  me_event_id :: uuid
  me_action :: moderation_action
  me_actor_id :: participant_id
  me_actor_name :: string
  me_target_id :: moderation_target_id
  me_target_name :: string
  me_target_authenticated :: bool
  me_reason :: "string option"
  me_expires_at :: "date_time option"
  me_report_id :: "uuid option"
  me_created_at :: date_time
  me_target_ip :: "ip_addr option"

record moderation_target =
  mt_id :: moderation_target_id
  mt_name :: string
  mt_authenticated :: bool
  mt_ip :: "ip_addr option"

text \<open>The fresh identifier and the wall clock are arguments.\<close>

definition moderation_event_new ::
  "uuid \<Rightarrow> date_time \<Rightarrow> moderation_action \<Rightarrow> participant_id \<times> string \<Rightarrow> moderation_target \<Rightarrow>
     string option \<Rightarrow> date_time option \<Rightarrow> uuid option \<Rightarrow> moderation_event" where
  "moderation_event_new event_id now action actor target reason expires_at report_id =
     \<lparr>me_event_id = event_id, me_action = action, me_actor_id = fst actor, me_actor_name = snd actor,
      me_target_id = mt_id target, me_target_name = mt_name target,
      me_target_authenticated = mt_authenticated target, me_reason = reason,
      me_expires_at = expires_at, me_report_id = report_id, me_created_at = now,
      me_target_ip = (if mt_authenticated target then mt_ip target
                      else map_option cohort (mt_ip target))\<rparr>"

section \<open>Facts\<close>

lemma merge_punitive_value:
  "punitive_value (merge_punitive_state a b) k
     \<longleftrightarrow> punitive_value a k \<or> (\<exists>m. b = Some m \<and> punitive_value m k)"
  by (cases k; cases b) (auto simp: merge_punitive_state_def)

lemma punitive_value_set: "punitive_value (set_punitive k e p) j = (if j = k then e else punitive_value p j)"
  by (cases k; cases j) auto

lemma punitive_state_eqI: "(\<And>k. punitive_value a k = punitive_value b k) \<Longrightarrow> a = (b :: punitive_state)"
  by (metis (full_types) punitive_state.equality punitive_value.simps(1,2) unit.exhaust)

lemma can_produce_sanction: "can_produce p r m Video \<Longrightarrow> \<not> cam_banned p"
  by (auto simp: can_produce_def split: if_splits)

lemma can_chat_sanction: "can_chat p r m \<Longrightarrow> \<not> text_muted p"
  by (auto simp: can_chat_def split: if_splits)

lemma can_produce_antimono:
  "can_produce (merge_punitive_state p q) r m k \<Longrightarrow> can_produce p r m k"
  by (auto simp: can_produce_def merge_punitive_state_def split: option.splits if_splits)

lemma sanction_key_guest:
  "\<not> auth \<Longrightarrow> cohort a = cohort b \<Longrightarrow> sanction_key_for p auth (Some a) = sanction_key_for q auth (Some b)"
  by (simp add: sanction_key_for_def)

lemma action_as_str_inj: "action_as_str a = action_as_str b \<Longrightarrow> a = b"
  by (cases a; cases b) auto

lemma action_listed: "a \<in> set moderation_actions"
  by (cases a) (simp_all add: moderation_actions_def)

text \<open>
  C28: the stored names of the moderation history round-trip: every action parses back from
  the name it is stored under and nothing else parses to it, and likewise for the states of a
  report.
\<close>

theorem moderation_names_round_trip:
  "(action_parse name = Some action \<longleftrightarrow> name = action_as_str action)
   \<and> (report_status_from_str name = Some status \<longleftrightarrow> name = report_status_as_str status)"
proof -
  have "action_parse name = Some action \<longleftrightarrow> name = action_as_str action"
  proof
    assume "action_parse name = Some action"
    then show "name = action_as_str action"
      by (auto simp: action_parse_def find_Some_iff)
  next
    assume name: "name = action_as_str action"
    then have "find (\<lambda>a. action_as_str a = name) moderation_actions \<noteq> None"
      using action_listed [of action] by (auto simp: find_None_iff)
    then obtain b where b: "find (\<lambda>a. action_as_str a = name) moderation_actions = Some b" by auto
    then have "action_as_str b = name" by (auto simp: find_Some_iff)
    with b name show "action_parse name = Some action"
      using action_as_str_inj by (simp add: action_parse_def)
  qed
  moreover have "report_status_from_str name = Some status \<longleftrightarrow> name = report_status_as_str status"
    by (cases status) (auto simp: report_status_from_str_def)
  ultimately show ?thesis ..
qed

end
