(* ===== verification/Chat_Messages.thy ===== *)
theory Chat_Messages
  imports Moderation_State
begin

text \<open>
  Chat messages as values (\<^verbatim>\<open>ChatEntry\<close> of \<^verbatim>\<open>src/signaling/protocol.rs\<close>, the message
  functions of \<^verbatim>\<open>src/room/social.rs\<close> and \<^verbatim>\<open>src/room/history.rs\<close>): reactions, quotes,
  removal and editing.
\<close>

type_synonym message_id = nat

record chat_attachment =
  ca_id :: uuid
  ca_name :: string
  ca_content_type :: string
  ca_size :: int

record chat_reply_ref =
  cq_message_id :: message_id
  cq_participant_id :: participant_id
  cq_participant_name :: string
  cq_excerpt :: string

record chat_reaction =
  cx_emoji :: string
  cx_participant_ids :: "participant_id list"

record chat_entry =
  ce_message_id :: message_id
  ce_client_message_id :: string
  ce_participant_id :: participant_id
  ce_participant_name :: string
  ce_recipient_id :: "participant_id option"
  ce_recipient_name :: "string option"
  ce_account_conversation :: "bool option"
  ce_content :: string
  ce_attachments :: "chat_attachment list"
  ce_sent_at :: date_time
  ce_removed_at :: "date_time option"
  ce_revision :: u32
  ce_edited_at :: "date_time option"
  ce_chat_style :: chat_style
  ce_reply_to :: "chat_reply_ref option"
  ce_reactions :: "chat_reaction list"

section \<open>Reactions\<close>

definition MESSAGE_REACTIONS :: nat where "MESSAGE_REACTIONS = 64"

definition bytes :: "nat list \<Rightarrow> string" where
  "bytes = map char_of"

definition REACTIONS :: "string list" where
  "REACTIONS = [bytes [0xF0, 0x9F, 0x91, 0x8D], bytes [0xE2, 0x9D, 0xA4, 0xEF, 0xB8, 0x8F],
     bytes [0xF0, 0x9F, 0x98, 0x82], bytes [0xF0, 0x9F, 0x98, 0xAE], bytes [0xF0, 0x9F, 0x98, 0xA2],
     bytes [0xF0, 0x9F, 0x8E, 0x89], bytes [0xF0, 0x9F, 0x94, 0xA5], bytes [0xF0, 0x9F, 0x91, 0x8F]]"

definition total_reactions :: "chat_reaction list \<Rightarrow> nat" where
  "total_reactions rs = sum_list (map (\<lambda>r. length (cx_participant_ids r)) rs)"

text \<open>
  The first reaction with the emoji decides: an actor it lists is taken off (and an emptied
  reaction dropped), otherwise the actor is added to it or a new reaction is appended.
\<close>

fun take_back :: "participant_id \<Rightarrow> string \<Rightarrow> chat_reaction list \<Rightarrow> chat_reaction list" where
  "take_back reactor emoji [] = []"
| "take_back reactor emoji (r # rs) =
     (if cx_emoji r = emoji then
        (let r' = r\<lparr>cx_participant_ids := filter (\<lambda>i. i \<noteq> reactor) (cx_participant_ids r)\<rparr> in
         if cx_participant_ids r' = [] then rs else r' # rs)
      else r # take_back reactor emoji rs)"

fun add_reactor :: "participant_id \<Rightarrow> string \<Rightarrow> chat_reaction list \<Rightarrow> chat_reaction list" where
  "add_reactor reactor emoji [] = [\<lparr>cx_emoji = emoji, cx_participant_ids = [reactor]\<rparr>]"
| "add_reactor reactor emoji (r # rs) =
     (if cx_emoji r = emoji then r\<lparr>cx_participant_ids := cx_participant_ids r @ [reactor]\<rparr> # rs
      else r # add_reactor reactor emoji rs)"

definition toggle_reactions ::
  "chat_reaction list \<Rightarrow> participant_id \<Rightarrow> string \<Rightarrow> string + chat_reaction list" where
  "toggle_reactions current reactor emoji =
     (if emoji \<notin> set REACTIONS then Inl ''Choose one of the offered reactions''
      else if (case find (\<lambda>r. cx_emoji r = emoji) current of
                 Some r \<Rightarrow> reactor \<in> set (cx_participant_ids r) | None \<Rightarrow> False)
        then Inr (take_back reactor emoji current)
      else if total_reactions current \<ge> MESSAGE_REACTIONS
        then Inl ''This message has all the reactions it can hold''
      else Inr (add_reactor reactor emoji current))"

definition has_reaction :: "chat_reaction list \<Rightarrow> participant_id \<Rightarrow> string \<Rightarrow> bool" where
  "has_reaction rs p emoji \<longleftrightarrow> list_ex (\<lambda>r. cx_emoji r = emoji \<and> p \<in> set (cx_participant_ids r)) rs"

definition set_reaction ::
  "chat_reaction list \<Rightarrow> participant_id \<Rightarrow> string \<Rightarrow> bool \<Rightarrow> string + chat_reaction list" where
  "set_reaction current p emoji present =
     (if emoji \<notin> set REACTIONS then Inl ''Choose one of the offered reactions''
      else if has_reaction current p emoji = present then Inr current
      else toggle_reactions current p emoji)"

section \<open>Quotes, removal and edits\<close>

definition REPLY_EXCERPT_CHARS :: nat where "REPLY_EXCERPT_CHARS = 140"

definition ellipsis :: string where "ellipsis = bytes [0xE2, 0x80, 0xA6]"

text \<open>\<^verbatim>\<open>split_whitespace\<close>: the maximal runs of characters that are not white space.\<close>

function split_runs :: "character list \<Rightarrow> string list" where
  "split_runs [] = []"
| "split_runs (c # cs) =
     (if is_whitespace c then split_runs cs
      else concat (c # takeWhile (\<lambda>d. \<not> is_whitespace d) cs)
           # split_runs (dropWhile (\<lambda>d. \<not> is_whitespace d) cs))"
  by pat_completeness auto
termination by (relation "measure length") (auto simp: length_dropWhile_le le_imp_less_Suc)

fun join_with :: "string \<Rightarrow> string list \<Rightarrow> string" where
  "join_with sep [] = []"
| "join_with sep [s] = s"
| "join_with sep (s # t # ts) = s @ sep @ join_with sep (t # ts)"

definition quote_excerpt :: "string \<Rightarrow> string" where
  "quote_excerpt content =
     (let flat = join_with '' '' (split_runs (chars content));
          head = take_chars REPLY_EXCERPT_CHARS flat in
      if length (chars flat) > REPLY_EXCERPT_CHARS then trim_end head @ ellipsis else head)"

definition replied_to :: "chat_entry \<Rightarrow> message_id option" where
  "replied_to m = map_option cq_message_id (ce_reply_to m)"

definition redact_message :: "message_id \<Rightarrow> date_time \<Rightarrow> chat_entry \<Rightarrow> chat_entry" where
  "redact_message message_id removed_at m =
     (if ce_recipient_id m \<noteq> None then m
      else if ce_message_id m = message_id then
        m\<lparr>ce_content := [], ce_attachments := [], ce_reply_to := None, ce_reactions := [],
          ce_removed_at := Some removed_at\<rparr>
      else (case ce_reply_to m of
              Some reply \<Rightarrow>
                if cq_message_id reply = message_id
                then m\<lparr>ce_reply_to := Some (reply\<lparr>cq_excerpt := ''Message removed''\<rparr>)\<rparr> else m
            | None \<Rightarrow> m))"

record edit_request =
  er_content :: string
  er_expected_revision :: u32

definition u32_checked_inc :: "u32 \<Rightarrow> u32 option" where
  "u32_checked_inc v = (if v = - 1 then None else Some (v + 1))"

definition message_length_error :: string where
  "message_length_error = ''Message must contain 1'' @ bytes [0xE2, 0x80, 0x93] @ ''4096 bytes of text''"

definition apply_edit :: "icu \<Rightarrow> date_time \<Rightarrow> chat_entry \<Rightarrow> edit_request \<Rightarrow> string + chat_entry" where
  "apply_edit u now m request =
     (if (trim (er_content request) = [] \<and> ce_attachments m = []) \<or> length (er_content request) > 4096
        then Inl message_length_error
      else if \<not> is_plain_text u (er_content request)
        then Inl ''Message contains hidden formatting characters''
      else if ce_removed_at m \<noteq> None then Inl ''That message has been removed''
      else if ce_revision m \<noteq> er_expected_revision request then
        (if u32_checked_inc (er_expected_revision request) = Some (ce_revision m)
             \<and> ce_content m = er_content request
         then Inr m
         else Inl ''This message changed. Reload it before editing again'')
      else if ce_content m = er_content request then Inr m
      else (case u32_checked_inc (ce_revision m) of
              None \<Rightarrow> Inl ''This message cannot be edited again''
            | Some r \<Rightarrow> Inr (m\<lparr>ce_revision := r, ce_content := er_content request,
                               ce_edited_at := Some now\<rparr>)))"

section \<open>Reactions stay bounded and a retried request is harmless\<close>

definition reactions_wf :: "chat_reaction list \<Rightarrow> bool" where
  "reactions_wf rs \<longleftrightarrow> distinct (map cx_emoji rs) \<and>
     (\<forall>r\<in>set rs. cx_emoji r \<in> set REACTIONS \<and> cx_participant_ids r \<noteq> [] \<and> distinct (cx_participant_ids r)) \<and>
     total_reactions rs \<le> MESSAGE_REACTIONS"

lemma total_reactions_Cons [simp]:
  "total_reactions (r # rs) = length (cx_participant_ids r) + total_reactions rs"
  by (simp add: total_reactions_def)

lemma has_reaction_Cons [simp]:
  "has_reaction (r # rs) p e \<longleftrightarrow> (cx_emoji r = e \<and> p \<in> set (cx_participant_ids r)) \<or> has_reaction rs p e"
  by (simp add: has_reaction_def)

lemma has_reaction_Nil [simp]: "\<not> has_reaction [] p e"
  by (simp add: has_reaction_def)

lemma has_reaction_emoji: "has_reaction rs p e \<Longrightarrow> e \<in> cx_emoji ` set rs"
  by (induction rs) auto

lemma take_back_emojis: "set (take_back p e rs) \<subseteq> {r. cx_emoji r \<in> cx_emoji ` set rs}"
  by (induction rs) (auto simp: Let_def)

lemma take_back_reactions:
  assumes "distinct (map cx_emoji rs)"
  shows "has_reaction (take_back p e rs) q f \<longleftrightarrow> has_reaction rs q f \<and> (q, f) \<noteq> (p, e)"
  using assms
proof (induction rs)
  case (Cons r rs)
  have "\<not> has_reaction rs q e" if "cx_emoji r = e"
    using Cons.prems that has_reaction_emoji [of rs q e] by auto
  with Cons show ?case by (auto simp: Let_def filter_empty_conv)
qed simp

lemma take_back_total: "total_reactions (take_back p e rs) \<le> total_reactions rs"
proof (induction rs)
  case (Cons r rs)
  have "length (filter (\<lambda>i. i \<noteq> p) (cx_participant_ids r)) \<le> length (cx_participant_ids r)"
    by (rule length_filter_le)
  with Cons.IH show ?case by (simp add: Let_def)
qed simp

lemma take_back_distinct: "distinct (map cx_emoji rs) \<Longrightarrow> distinct (map cx_emoji (take_back p e rs))"
proof (induction rs)
  case (Cons r rs)
  then show ?case using take_back_emojis [of p e rs] by (auto simp: Let_def)
qed simp

lemma take_back_members:
  "\<forall>r\<in>set rs. cx_emoji r \<in> E \<and> cx_participant_ids r \<noteq> [] \<and> distinct (cx_participant_ids r) \<Longrightarrow>
   \<forall>r\<in>set (take_back p e rs). cx_emoji r \<in> E \<and> cx_participant_ids r \<noteq> [] \<and> distinct (cx_participant_ids r)"
  by (induction rs) (auto simp: Let_def)

lemma reactions_wfI:
  "\<lbrakk>distinct (map cx_emoji rs);
    \<forall>r\<in>set rs. cx_emoji r \<in> set REACTIONS \<and> cx_participant_ids r \<noteq> [] \<and> distinct (cx_participant_ids r);
    total_reactions rs \<le> MESSAGE_REACTIONS\<rbrakk> \<Longrightarrow> reactions_wf rs"
  unfolding reactions_wf_def by (intro conjI)

lemma reactions_wfD:
  assumes "reactions_wf rs"
  shows "distinct (map cx_emoji rs)"
    and "\<forall>r\<in>set rs. cx_emoji r \<in> set REACTIONS \<and> cx_participant_ids r \<noteq> [] \<and> distinct (cx_participant_ids r)"
    and "total_reactions rs \<le> MESSAGE_REACTIONS"
  using assms unfolding reactions_wf_def by blast+

lemma take_back_wf: "reactions_wf rs \<Longrightarrow> reactions_wf (take_back p e rs)"
  by (intro reactions_wfI take_back_distinct take_back_members order_trans [OF take_back_total])
    (rule reactions_wfD, assumption)+

lemma add_reactor_reactions:
  "has_reaction (add_reactor p e rs) q f \<longleftrightarrow> has_reaction rs q f \<or> (q, f) = (p, e)"
  by (induction rs) auto

lemma add_reactor_emojis: "cx_emoji ` set (add_reactor p e rs) = insert e (cx_emoji ` set rs)"
  by (induction rs) auto

lemma add_reactor_total: "total_reactions (add_reactor p e rs) = Suc (total_reactions rs)"
  by (induction rs) (auto simp: total_reactions_def)

lemma add_reactor_distinct:
  "distinct (map cx_emoji rs) \<Longrightarrow> distinct (map cx_emoji (add_reactor p e rs))"
proof (induction rs)
  case (Cons r rs)
  then show ?case using add_reactor_emojis [of p e rs] by (auto simp: image_iff set_map [symmetric] simp del: set_map)
qed simp

lemma add_reactor_members:
  assumes "\<forall>r\<in>set rs. cx_emoji r \<in> E \<and> cx_participant_ids r \<noteq> [] \<and> distinct (cx_participant_ids r)"
    and "e \<in> E" and "\<not> has_reaction rs p e"
  shows "\<forall>r\<in>set (add_reactor p e rs). cx_emoji r \<in> E \<and> cx_participant_ids r \<noteq> [] \<and> distinct (cx_participant_ids r)"
  using assms by (induction rs) auto

lemma find_has_reaction:
  assumes "distinct (map cx_emoji rs)"
  shows "(case find (\<lambda>r. cx_emoji r = e) rs of Some r \<Rightarrow> p \<in> set (cx_participant_ids r) | None \<Rightarrow> False)
      \<longleftrightarrow> has_reaction rs p e"
  using assms
proof (induction rs)
  case (Cons r rs)
  then show ?case using has_reaction_emoji [of rs p e] by auto
qed simp

lemma toggle_reactions_cases:
  assumes "reactions_wf rs" and "toggle_reactions rs p e = Inr rs'"
  shows "reactions_wf rs'"
    and "has_reaction rs' q f \<longleftrightarrow> (if (q, f) = (p, e) then \<not> has_reaction rs p e else has_reaction rs q f)"
proof -
  note d = reactions_wfD(1) [OF assms(1)]
  note found = find_has_reaction [OF d]
  have "reactions_wf (add_reactor p e rs)"
    if "e \<in> set REACTIONS" "\<not> has_reaction rs p e" "total_reactions rs < MESSAGE_REACTIONS"
    using that reactions_wfD [OF assms(1)]
    by (intro reactions_wfI add_reactor_distinct add_reactor_members) (simp_all add: add_reactor_total)
  then show "reactions_wf rs'"
    using assms(2) take_back_wf [OF assms(1), of p e]
    unfolding toggle_reactions_def found by (auto simp only: not_le split: if_splits)
  show "has_reaction rs' q f \<longleftrightarrow> (if (q, f) = (p, e) then \<not> has_reaction rs p e else has_reaction rs q f)"
    using assms(2) take_back_reactions [OF d]
    unfolding toggle_reactions_def found by (auto simp: add_reactor_reactions split: if_splits)
qed

text \<open>
  C29: a reaction request that states the desired presence does exactly that. When it is
  accepted, the reaction is present or absent as asked, nobody else's reaction changes, the
  message keeps at most \<^const>\<open>MESSAGE_REACTIONS\<close> reactions with each person once per
  emoji of the palette, and repeating the request changes nothing: a lost response cannot
  toggle the reaction off again.
\<close>

theorem set_reaction_idempotent:
  assumes "reactions_wf rs" and "set_reaction rs p e present = Inr rs'" and "(q, f) \<noteq> (p, e)"
  shows "reactions_wf rs' \<and> (has_reaction rs' p e \<longleftrightarrow> present)
    \<and> (has_reaction rs' q f \<longleftrightarrow> has_reaction rs q f)
    \<and> set_reaction rs' p e present = Inr rs'"
proof (cases "has_reaction rs p e = present")
  case True
  then have "rs' = rs" using assms(2) by (auto simp: set_reaction_def split: if_splits)
  then show ?thesis using True assms by (auto simp: set_reaction_def split: if_splits)
next
  case False
  then have "toggle_reactions rs p e = Inr rs'" and "e \<in> set REACTIONS"
    using assms(2) by (auto simp: set_reaction_def split: if_splits)
  from toggle_reactions_cases [OF assms(1) this(1)] this(2) False assms(3)
  show ?thesis by (auto simp: set_reaction_def)
qed

theorem set_reaction_idempotent_witness:
  "set_reaction [\<lparr>cx_emoji = REACTIONS ! 0, cx_participant_ids = [4, 5]\<rparr>] 5 (REACTIONS ! 0) False
     = Inr [\<lparr>cx_emoji = REACTIONS ! 0, cx_participant_ids = [4]\<rparr>]
   \<and> set_reaction [\<lparr>cx_emoji = REACTIONS ! 0, cx_participant_ids = [4]\<rparr>] 5 (REACTIONS ! 0) False
     = Inr [\<lparr>cx_emoji = REACTIONS ! 0, cx_participant_ids = [4]\<rparr>]"
proof -
  let ?rs = "[\<lparr>cx_emoji = REACTIONS ! 0, cx_participant_ids = [4, 5]\<rparr>]"
  have "reactions_wf ?rs"
    by (simp add: reactions_wf_def REACTIONS_def total_reactions_def MESSAGE_REACTIONS_def)
  moreover have s: "set_reaction ?rs 5 (REACTIONS ! 0) False
      = Inr [\<lparr>cx_emoji = REACTIONS ! 0, cx_participant_ids = [4]\<rparr>]"
    by (simp add: set_reaction_def toggle_reactions_def REACTIONS_def)
  ultimately show ?thesis using set_reaction_idempotent [OF _ s, of 4 "REACTIONS ! 0"] by simp
qed

section \<open>Removal is final\<close>

lemma redact_idem: "redact_message i t (redact_message i t m) = redact_message i t m"
  by (auto simp: redact_message_def split: option.splits)

lemma redact_keeps_identity:
  "ce_message_id (redact_message i t m) = ce_message_id m"
  "ce_client_message_id (redact_message i t m) = ce_client_message_id m"
  "ce_recipient_id (redact_message i t m) = ce_recipient_id m"
  "ce_participant_id (redact_message i t m) = ce_participant_id m"
  by (auto simp: redact_message_def split: option.splits)


definition sample_message :: chat_entry where
  "sample_message = \<lparr>ce_message_id = 1, ce_client_message_id = ''c1'', ce_participant_id = 4,
     ce_participant_name = ''Maya'', ce_recipient_id = None, ce_recipient_name = None,
     ce_account_conversation = None, ce_content = ''hello'', ce_attachments = [], ce_sent_at = 0,
     ce_removed_at = None, ce_revision = 0, ce_edited_at = None, ce_chat_style = chat_style_default,
     ce_reply_to = None, ce_reactions = []\<rparr>"


end
