(* ===== verification/Room_Social.thy ===== *)
theory Room_Social
  imports Admission_Windows Chat_Messages
begin

text \<open>
  What a room remembers of its conversation (\<^verbatim>\<open>RoomSocial\<close> in \<^verbatim>\<open>src/room/social.rs\<close>): the
  bounded replay history, the receipts that make a retried message exactly-once, runtime bans,
  reports and moderation events. The serialised size of a message (\<^verbatim>\<open>serde_json::to_vec\<close>) is
  the parameter \<^verbatim>\<open>sz\<close>; a failed serialisation counts as the whole budget, as in the code.
\<close>

section \<open>State\<close>

definition HISTORY_MESSAGES :: nat where "HISTORY_MESSAGES = 300"
definition HISTORY_BYTES :: nat where "HISTORY_BYTES = 256 * 1024"
definition CHAT_RECEIPT_TTL :: duration where "CHAT_RECEIPT_TTL = from_secs 300"
definition CHAT_RECEIPTS :: nat where "CHAT_RECEIPTS = 512"
definition CHAT_RECEIPT_BYTES :: nat where "CHAT_RECEIPT_BYTES = 512 * 1024"
definition CHAT_RECEIPTS_PER_MEMBER :: nat where "CHAT_RECEIPTS_PER_MEMBER = 128"
definition MAX_RUNTIME_BANS :: nat where "MAX_RUNTIME_BANS = 2000"
definition MAX_RUNTIME_MODERATION_EVENTS :: nat where "MAX_RUNTIME_MODERATION_EVENTS = 200"
definition REPORT_COOLDOWN :: duration where "REPORT_COOLDOWN = from_secs 30"

record history_entry =
  he_sequence :: u64
  he_sender_session :: uuid
  he_recipient_session :: "uuid option"
  he_sender_authenticated :: bool
  he_message :: chat_entry
  he_bytes :: nat

record chat_receipt =
  cp_sender_session :: uuid
  cp_sequence :: "u64 option"
  cp_accepted_at :: instant
  cp_bytes :: nat
  cp_message :: chat_entry

record ban_entry =
  be_ban_id :: uuid
  be_display_name :: string
  be_authenticated :: bool
  be_reason :: "string option"
  be_expires_at :: "date_time option"

record runtime_ban =
  rb_entry :: ban_entry
  rb_participant_ids :: "participant_id list"
  rb_guest_ip :: "ip_addr option"
  rb_expiry :: "instant option"

record report_entry =
  re_report_id :: uuid
  re_reporter_id :: participant_id
  re_reporter_name :: string
  re_target_participant_id :: participant_id
  re_target_name :: string
  re_reason :: string
  re_status :: report_status
  re_created_at :: date_time
  re_resolved_at :: "date_time option"
  re_outcome :: "(string \<times> date_time) option"

record room_social =
  so_next_sequence :: u64
  so_report_cooldowns :: "(string, instant) table"
  so_history :: "history_entry list"
  so_history_bytes :: nat
  so_pins :: "chat_entry list"
  so_receipts :: "chat_receipt list"
  so_receipt_bytes :: nat
  so_bans :: "(uuid, runtime_ban) table"
  so_reports :: "report_entry list"
  so_moderation_events :: "moderation_event list"

definition social_default :: room_social where
  "social_default =
     \<lparr>so_next_sequence = 0, so_report_cooldowns = [], so_history = [], so_history_bytes = 0,
      so_pins = [], so_receipts = [], so_receipt_bytes = 0, so_bans = [], so_reports = [],
      so_moderation_events = []\<rparr>"

section \<open>Replay history\<close>

type_synonym size_of = "chat_entry \<Rightarrow> nat option"

definition history_size :: "size_of \<Rightarrow> chat_entry \<Rightarrow> nat" where
  "history_size sz msg = (case sz msg of Some n \<Rightarrow> n | None \<Rightarrow> HISTORY_BYTES)"

definition receipt_size :: "size_of \<Rightarrow> chat_entry \<Rightarrow> nat" where
  "receipt_size sz msg = (case sz msg of Some n \<Rightarrow> n | None \<Rightarrow> CHAT_RECEIPT_BYTES)"

text \<open>The loop pops the front while either bound is exceeded; \<^verbatim>\<open>saturating_sub\<close> is truncated.\<close>

fun trim_entries :: "history_entry list \<Rightarrow> nat \<Rightarrow> history_entry list \<times> nat" where
  "trim_entries [] held = ([], held)"
| "trim_entries (old # rest) held =
     (if length (old # rest) > HISTORY_MESSAGES \<or> held > HISTORY_BYTES
      then trim_entries rest (held - he_bytes old)
      else (old # rest, held))"

definition trim_history :: "room_social \<Rightarrow> room_social" where
  "trim_history s =
     (let (history, held) = trim_entries (so_history s) (so_history_bytes s) in
      s\<lparr>so_history := history, so_history_bytes := held\<rparr>)"

definition remember ::
  "size_of \<Rightarrow> uuid \<Rightarrow> uuid option \<Rightarrow> bool \<Rightarrow> chat_entry \<Rightarrow> room_social \<Rightarrow> room_social" where
  "remember sz sender_session recipient_session sender_authenticated message s =
     (let n = history_size sz message;
          entry = \<lparr>he_sequence = so_next_sequence s, he_sender_session = sender_session,
                   he_recipient_session = recipient_session,
                   he_sender_authenticated = sender_authenticated, he_message = message,
                   he_bytes = n\<rparr> in
      trim_history (s\<lparr>so_history_bytes := so_history_bytes s + n,
                      so_history := so_history s @ [entry],
                      so_next_sequence := u64_saturating_add (so_next_sequence s) 1\<rparr>))"

definition recount :: "size_of \<Rightarrow> nat \<Rightarrow> room_social \<Rightarrow> room_social" where
  "recount sz index s =
     trim_history
       (if index < length (so_history s) then
          (let entry = so_history s ! index; n = history_size sz (he_message entry) in
           s\<lparr>so_history_bytes := (so_history_bytes s - he_bytes entry) + n,
             so_history := (so_history s)[index := entry\<lparr>he_bytes := n\<rparr>]\<rparr>)
        else s)"

section \<open>Receipts\<close>

definition usize_sub :: "nat \<Rightarrow> nat \<Rightarrow> nat option" where
  \<comment> \<open>the plain \<^verbatim>\<open>-=\<close>, which panics (or wraps) when the result would be negative\<close>
  "usize_sub a b = (if b \<le> a then Some (a - b) else None)"

fun prune_aged :: "instant \<Rightarrow> chat_receipt list \<Rightarrow> nat \<Rightarrow> chat_receipt list \<times> nat" where
  "prune_aged now [] held = ([], held)"
| "prune_aged now (r # rest) held =
     (if duration_since now (cp_accepted_at r) \<ge> CHAT_RECEIPT_TTL
      then prune_aged now rest (held - cp_bytes r) else (r # rest, held))"

definition prune_receipts :: "instant \<Rightarrow> room_social \<Rightarrow> room_social" where
  "prune_receipts now s =
     (let (receipts, held) = prune_aged now (so_receipts s) (so_receipt_bytes s) in
      s\<lparr>so_receipts := receipts, so_receipt_bytes := held\<rparr>)"

definition own_receipt :: "uuid \<Rightarrow> chat_receipt \<Rightarrow> bool" where
  "own_receipt session r \<longleftrightarrow> cp_sender_session r = session"

lemma position_Some_less: "position P xs = Some i \<Longrightarrow> i < length xs \<and> P (xs ! i)"
  by (induction xs arbitrary: i) (auto split: if_splits)

lemma length_remove_at: "i < length xs \<Longrightarrow> length (remove_at i xs) = length xs - 1"
  by (simp add: remove_at_def)

function drop_own :: "uuid \<Rightarrow> chat_receipt list \<Rightarrow> nat \<Rightarrow> (chat_receipt list \<times> nat) option" where
  "drop_own session rs held =
     (if length (filter (own_receipt session) rs) \<ge> CHAT_RECEIPTS_PER_MEMBER then
        (case position (own_receipt session) rs of
           None \<Rightarrow> Some (rs, held)
         | Some i \<Rightarrow> (case usize_sub held (cp_bytes (rs ! i)) of
                        None \<Rightarrow> None
                      | Some held' \<Rightarrow> drop_own session (remove_at i rs) held'))
      else Some (rs, held))"
  by pat_completeness auto
termination
  by (relation "measure (\<lambda>(_, rs, _). length rs)") (auto simp: length_remove_at dest: position_Some_less)

declare drop_own.simps [simp del]

fun drop_front :: "nat \<Rightarrow> chat_receipt list \<Rightarrow> nat \<Rightarrow> (chat_receipt list \<times> nat) option" where
  "drop_front needed [] held = Some ([], held)"
| "drop_front needed (r # rest) held =
     (if length (r # rest) \<ge> CHAT_RECEIPTS \<or> needed > CHAT_RECEIPT_BYTES - held then
        (case usize_sub held (cp_bytes r) of
           None \<Rightarrow> None
         | Some held' \<Rightarrow> drop_front needed rest held')
      else Some (r # rest, held))"

definition make_receipt_room :: "uuid \<Rightarrow> nat \<Rightarrow> room_social \<Rightarrow> room_social option" where
  "make_receipt_room session needed s =
     (case drop_own session (so_receipts s) (so_receipt_bytes s) of
        None \<Rightarrow> None
      | Some (rs, held) \<Rightarrow>
          (case drop_front needed rs held of
             None \<Rightarrow> None
           | Some (rs', held') \<Rightarrow> Some (s\<lparr>so_receipts := rs', so_receipt_bytes := held'\<rparr>)))"

definition push_receipt :: "chat_receipt \<Rightarrow> room_social \<Rightarrow> room_social" where
  \<comment> \<open>the two statements after \<^verbatim>\<open>make_receipt_room\<close> in \<^verbatim>\<open>finish_chat_attempt\<close>\<close>
  "push_receipt r s = s\<lparr>so_receipt_bytes := so_receipt_bytes s + cp_bytes r,
                         so_receipts := so_receipts s @ [r]\<rparr>"

section \<open>Removal and edits\<close>

text \<open>
  Both pass over every retained copy, count the sizes again and trim both queues. Dropping
  receipts here saturates.
\<close>

fun drop_over_budget :: "chat_receipt list \<Rightarrow> nat \<Rightarrow> chat_receipt list \<times> nat" where
  "drop_over_budget [] held = ([], held)"
| "drop_over_budget (r # rest) held =
     (if held > CHAT_RECEIPT_BYTES then drop_over_budget rest (held - cp_bytes r)
      else (r # rest, held))"

definition rewrite_history :: "size_of \<Rightarrow> (chat_entry \<Rightarrow> chat_entry) \<Rightarrow> history_entry \<Rightarrow> history_entry" where
  "rewrite_history sz f e =
     (let msg = f (he_message e) in e\<lparr>he_message := msg, he_bytes := history_size sz msg\<rparr>)"

definition rewrite_receipt :: "size_of \<Rightarrow> (chat_entry \<Rightarrow> chat_entry) \<Rightarrow> chat_receipt \<Rightarrow> chat_receipt" where
  "rewrite_receipt sz f r =
     (let msg = f (cp_message r) in r\<lparr>cp_message := msg, cp_bytes := receipt_size sz msg\<rparr>)"

definition rewrite_messages :: "size_of \<Rightarrow> (chat_entry \<Rightarrow> chat_entry) \<Rightarrow> room_social \<Rightarrow> room_social" where
  "rewrite_messages sz f s =
     (let history = map (rewrite_history sz f) (so_history s);
          receipts = map (rewrite_receipt sz f) (so_receipts s);
          s' = trim_history (s\<lparr>so_history := history, so_history_bytes := sum_list (map he_bytes history)\<rparr>);
          (kept, held) = drop_over_budget receipts (sum_list (map cp_bytes receipts)) in
      s'\<lparr>so_receipts := kept, so_receipt_bytes := held\<rparr>)"

definition remove_message :: "size_of \<Rightarrow> message_id \<Rightarrow> date_time \<Rightarrow> room_social \<Rightarrow> room_social" where
  "remove_message sz message_id removed_at s =
     rewrite_messages sz (redact_message message_id removed_at)
       (s\<lparr>so_pins := filter (\<lambda>msg. ce_message_id msg \<noteq> message_id) (so_pins s)\<rparr>)"

definition stale_edit :: "chat_entry \<Rightarrow> chat_entry \<Rightarrow> bool" where
  "stale_edit edited msg \<longleftrightarrow> ce_message_id msg = ce_message_id edited \<and>
     (ce_removed_at msg \<noteq> None \<or> ce_revision msg > ce_revision edited)"

definition update_edited :: "chat_entry \<Rightarrow> chat_entry \<Rightarrow> chat_entry" where
  "update_edited edited msg =
     (if ce_removed_at msg \<noteq> None then msg
      else
        (let msg' = (if ce_message_id msg = ce_message_id edited \<and> ce_revision msg \<le> ce_revision edited
                     then msg\<lparr>ce_content := ce_content edited, ce_revision := ce_revision edited,
                              ce_edited_at := ce_edited_at edited\<rparr>
                     else msg) in
         case ce_reply_to msg' of
           Some reply \<Rightarrow>
             if cq_message_id reply = ce_message_id edited
             then msg'\<lparr>ce_reply_to := Some (reply\<lparr>cq_excerpt := quote_excerpt (ce_content edited)\<rparr>)\<rparr>
             else msg'
         | None \<Rightarrow> msg'))"

definition retained_messages :: "room_social \<Rightarrow> chat_entry list" where
  "retained_messages s = map he_message (so_history s) @ map cp_message (so_receipts s) @ so_pins s"

definition edit_message :: "size_of \<Rightarrow> chat_entry \<Rightarrow> room_social \<Rightarrow> room_social" where
  "edit_message sz edited s =
     (if list_ex (stale_edit edited) (retained_messages s) then s
      else rewrite_messages sz (update_edited edited)
             (s\<lparr>so_pins := map (update_edited edited) (so_pins s)\<rparr>))"

definition reconcile_reactions :: "size_of \<Rightarrow> chat_entry \<Rightarrow> room_social \<Rightarrow> room_social" where
  "reconcile_reactions sz msg s =
     (case position (\<lambda>e. ce_message_id (he_message e) = ce_message_id msg
                         \<and> ce_removed_at (he_message e) = None) (so_history s) of
        None \<Rightarrow> s
      | Some i \<Rightarrow>
          (let e = so_history s ! i in
           recount sz i (s\<lparr>so_history := (so_history s)[i :=
             e\<lparr>he_message := (he_message e)\<lparr>ce_reactions := ce_reactions msg\<rparr>\<rparr>]\<rparr>)))"

section \<open>Reports, bans and moderation events\<close>

definition report_cooldown_active :: "string \<Rightarrow> instant \<Rightarrow> room_social \<Rightarrow> bool \<times> room_social" where
  "report_cooldown_active key now s =
     (let cooldowns = retain (\<lambda>_ t. duration_since now t < REPORT_COOLDOWN) (so_report_cooldowns s) in
      (is_some_and (\<lambda>t. duration_since now t < REPORT_COOLDOWN) (tget cooldowns key),
       s\<lparr>so_report_cooldowns := cooldowns\<rparr>))"

definition note_report :: "string \<Rightarrow> instant \<Rightarrow> room_social \<Rightarrow> room_social" where
  "note_report key now s = s\<lparr>so_report_cooldowns := tput key now (so_report_cooldowns s)\<rparr>"

definition ban_of_user :: "participant_id \<Rightarrow> runtime_ban \<Rightarrow> bool" where
  "ban_of_user user ban \<longleftrightarrow> be_authenticated (rb_entry ban) \<and> user \<in> set (rb_participant_ids ban)"

definition forget_user_ban :: "participant_id \<Rightarrow> room_social \<Rightarrow> string option \<times> room_social" where
  "forget_user_ban user s =
     (let hit = filter (\<lambda>(_, b). ban_of_user user b) (so_bans s) in
      (if hit = [] then None else Some (be_display_name (rb_entry (snd (last hit)))),
       s\<lparr>so_bans := retain (\<lambda>_ b. \<not> ban_of_user user b) (so_bans s)\<rparr>))"

definition ban_matches :: "participant_id option \<Rightarrow> ip_addr option \<Rightarrow> runtime_ban \<Rightarrow> bool" where
  "ban_matches user guest_ip ban \<longleftrightarrow>
     is_some_and (\<lambda>u. u \<in> set (rb_participant_ids ban)) user
     \<or> is_some_and (\<lambda>ip. rb_guest_ip ban = Some ip) guest_ip"

definition forget_ban ::
  "participant_id option \<Rightarrow> ip_addr option \<Rightarrow> room_social \<Rightarrow> participant_id list \<times> room_social" where
  "forget_ban user guest_ip s =
     (concat (map (\<lambda>(_, b). rb_participant_ids b)
        (filter (\<lambda>(_, b). ban_matches user guest_ip b) (so_bans s))),
      s\<lparr>so_bans := retain (\<lambda>_ b. \<not> ban_matches user guest_ip b) (so_bans s)\<rparr>)"

definition record_moderation_event :: "moderation_event \<Rightarrow> room_social \<Rightarrow> room_social" where
  "record_moderation_event event s =
     (let events = (if length (so_moderation_events s) \<ge> MAX_RUNTIME_MODERATION_EVENTS
                    then tl (so_moderation_events s) else so_moderation_events s) in
      s\<lparr>so_moderation_events := events @ [event]\<rparr>)"

fun resolve_first :: "uuid \<Rightarrow> date_time \<Rightarrow> report_entry list \<Rightarrow> report_entry list option" where
  "resolve_first report_id now [] = None"
| "resolve_first report_id now (r # rs) =
     (if re_report_id r = report_id
      then Some ((if re_status r = ReportOpen
                  then r\<lparr>re_status := ReportResolvedStatus, re_resolved_at := Some now\<rparr> else r) # rs)
      else map_option ((#) r) (resolve_first report_id now rs))"

definition link_report :: "uuid \<Rightarrow> date_time \<Rightarrow> room_social \<Rightarrow> unit outcome \<times> room_social" where
  "link_report report_id now s =
     (case resolve_first report_id now (so_reports s) of
        None \<Rightarrow> (Inl (not_found ''Report not found''), s)
      | Some rs \<Rightarrow> (Inr (), s\<lparr>so_reports := rs\<rparr>))"

definition report_outcome :: "uuid \<Rightarrow> room_social \<Rightarrow> (string \<times> date_time) option" where
  "report_outcome report_id s =
     map_option (\<lambda>e. (action_as_str (me_action e), me_created_at e))
       (find (\<lambda>e. me_report_id e = Some report_id) (rev (so_moderation_events s)))"

definition reserve_ban :: "instant \<Rightarrow> room_social \<Rightarrow> unit outcome \<times> room_social" where
  "reserve_ban now s =
     (let bans = retain (\<lambda>_ b. (case rb_expiry b of None \<Rightarrow> True | Some expiry \<Rightarrow> expiry > now)) (so_bans s);
          s' = s\<lparr>so_bans := bans\<rparr> in
      if length bans \<ge> MAX_RUNTIME_BANS then (Inl (forbidden ''Room ban capacity reached''), s')
      else (Inr (), s'))"

text \<open>The fresh ban identifier and both clocks are arguments.\<close>

definition record_ban ::
  "uuid \<Rightarrow> instant \<Rightarrow> date_time \<Rightarrow> string \<Rightarrow> bool \<Rightarrow> participant_id list \<Rightarrow> ip_addr option \<Rightarrow>
     string option \<Rightarrow> nat option \<Rightarrow> room_social \<Rightarrow> room_social" where
  "record_ban ban_id now wall name authenticated participant_ids ip reason duration s =
     s\<lparr>so_bans := tput ban_id
        \<lparr>rb_entry = \<lparr>be_ban_id = ban_id, be_display_name = name, be_authenticated = authenticated,
                      be_reason = reason,
                      be_expires_at = map_option (\<lambda>secs. wall + int secs * 1000000000) duration\<rparr>,
         rb_participant_ids = participant_ids,
         rb_guest_ip = (if \<not> authenticated then map_option cohort ip else None),
         rb_expiry = Option.bind duration (\<lambda>secs. instant_checked_add now (from_secs secs))\<rparr>
        (so_bans s)\<rparr>"

section \<open>The conversation's invariant\<close>

definition history_wf :: "room_social \<Rightarrow> bool" where
  "history_wf s \<longleftrightarrow>
     so_history_bytes s = sum_list (map he_bytes (so_history s)) \<and>
     length (so_history s) \<le> HISTORY_MESSAGES \<and> so_history_bytes s \<le> HISTORY_BYTES \<and>
     sorted (map he_sequence (so_history s)) \<and>
     (\<forall>e \<in> set (so_history s). he_sequence e < so_next_sequence s \<or> so_next_sequence s = - 1)"

definition receipts_counted :: "chat_receipt list \<Rightarrow> nat \<Rightarrow> bool" where
  "receipts_counted rs held \<longleftrightarrow>
     held = sum_list (map cp_bytes rs) \<and> length rs \<le> CHAT_RECEIPTS \<and> held \<le> CHAT_RECEIPT_BYTES \<and>
     (\<forall>session. length (filter (own_receipt session) rs) \<le> CHAT_RECEIPTS_PER_MEMBER)"

definition receipts_wf :: "room_social \<Rightarrow> bool" where
  "receipts_wf s \<longleftrightarrow> receipts_counted (so_receipts s) (so_receipt_bytes s)"

definition social_wf :: "room_social \<Rightarrow> bool" where
  "social_wf s \<longleftrightarrow> history_wf s \<and> receipts_wf s"

lemma social_wf_default [wf_intros]: "social_wf social_default"
  by (simp add: social_wf_def history_wf_def receipts_wf_def receipts_counted_def social_default_def)

subsection \<open>History\<close>

lemma trim_entries_suffix:
  assumes "trim_entries es n = (es', n')"
  shows "\<exists>k. es' = drop k es"
  using assms
proof (induction es arbitrary: n)
  case (Cons e es)
  show ?case
  proof (cases "length (e # es) > HISTORY_MESSAGES \<or> n > HISTORY_BYTES")
    case True
    then obtain k where "es' = drop k es" using Cons by auto
    then have "es' = drop (Suc k) (e # es)" by simp
    then show ?thesis by blast
  next
    case False
    then have "es' = drop 0 (e # es)" using Cons.prems by simp
    then show ?thesis by blast
  qed
qed auto

lemma trim_entries_bounds:
  assumes "trim_entries es n = (es', n')" and "n = sum_list (map he_bytes es)"
  shows "n' = sum_list (map he_bytes es')" and "length es' \<le> HISTORY_MESSAGES" and "n' \<le> HISTORY_BYTES"
  using assms by (induction es arbitrary: n) (auto split: if_splits)

lemma trim_history_wf:
  assumes "so_history_bytes s = sum_list (map he_bytes (so_history s))"
    and "sorted (map he_sequence (so_history s))"
    and "\<forall>e \<in> set (so_history s). he_sequence e < so_next_sequence s \<or> so_next_sequence s = - 1"
  shows "history_wf (trim_history s)"
proof -
  obtain es' n' where t: "trim_entries (so_history s) (so_history_bytes s) = (es', n')" by fastforce
  then obtain k where k: "es' = drop k (so_history s)" using trim_entries_suffix by blast
  have "sorted (map he_sequence es')" using assms(2) unfolding k drop_map [symmetric] by (rule sorted_wrt_drop)
  then show ?thesis
    using trim_entries_bounds [OF t assms(1)] assms(3) t
    by (auto simp: trim_history_def history_wf_def k dest: in_set_dropD)
qed

lemma trim_history_other:
  "so_receipts (trim_history s) = so_receipts s" "so_receipt_bytes (trim_history s) = so_receipt_bytes s"
  "so_bans (trim_history s) = so_bans s" "so_pins (trim_history s) = so_pins s"
  "so_next_sequence (trim_history s) = so_next_sequence s"
  by (simp_all add: trim_history_def split_beta)

lemma saturating_inc_less:
  fixes a :: u64
  shows "a < u64_saturating_add a 1 \<or> u64_saturating_add a 1 = - 1" and "a \<le> u64_saturating_add a 1"
proof -
  have v: "unat (u64_saturating_add a 1) = min (unat a + 1) u64_max"
    by (simp add: unat_saturating_add)
  show "a < u64_saturating_add a 1 \<or> u64_saturating_add a 1 = - 1"
  proof (cases "unat a < u64_max")
    case True
    then show ?thesis by (simp add: word_less_nat_alt v)
  next
    case False
    then have "unat (u64_saturating_add a 1) = unat (- 1 :: u64)"
      by (simp only: v unat_minus_one_u64)
    then show ?thesis by (simp add: word_unat_eq_iff)
  qed
  show "a \<le> u64_saturating_add a 1"
    using unat_le_u64_max [of a] by (simp add: word_le_nat_alt v)
qed

lemma remember_wf [wf_intros]:
  assumes "history_wf s"
  shows "history_wf (remember sz a b c msg s)"
proof -
  let ?next = "u64_saturating_add (so_next_sequence s) 1"
  have seq: "he_sequence e \<le> so_next_sequence s \<and> (he_sequence e < ?next \<or> ?next = - 1)"
    if "e \<in> set (so_history s)" for e
  proof -
    from assms that have "he_sequence e < so_next_sequence s \<or> so_next_sequence s = - 1"
      by (auto simp: history_wf_def)
    then show ?thesis
    proof
      assume "he_sequence e < so_next_sequence s"
      then show ?thesis
        using saturating_inc_less(2) [of "so_next_sequence s"] by (simp add: less_le_trans)
    next
      assume "so_next_sequence s = - 1"
      then show ?thesis
        using saturating_inc_less(2) [of "so_next_sequence s"]
        by (simp add: word_order.extremum word_order.extremum_unique)
    qed
  qed
  show ?thesis
    unfolding remember_def Let_def
    using assms seq saturating_inc_less(1) [of "so_next_sequence s"]
    by (intro trim_history_wf) (auto simp: history_wf_def sorted_append)
qed

subsection \<open>Receipts\<close>

abbreviation receipt_sum :: "chat_receipt list \<Rightarrow> nat" where
  "receipt_sum rs \<equiv> sum_list (map cp_bytes rs)"

lemma remove_at_split: "i < length xs \<Longrightarrow> xs = take i xs @ xs ! i # drop (Suc i) xs"
  by (rule id_take_nth_drop)

lemma receipt_sum_remove_at:
  assumes "i < length rs"
  shows "receipt_sum rs = receipt_sum (remove_at i rs) + cp_bytes (rs ! i)"
proof -
  have "receipt_sum rs = receipt_sum (take i rs @ rs ! i # drop (Suc i) rs)"
    using remove_at_split [OF assms] by metis
  then show ?thesis by (simp add: remove_at_def)
qed

lemma filter_remove_at_le: "length (filter P (remove_at i xs)) \<le> length (filter P xs)"
proof -
  have "length (filter P (drop (Suc i) xs)) \<le> length (filter P (drop i xs))"
    by (cases "i < length xs") (simp_all add: Cons_nth_drop_Suc [symmetric])
  moreover have "length (filter P xs) = length (filter P (take i xs)) + length (filter P (drop i xs))"
    by (metis append_take_drop_id filter_append length_append)
  ultimately show ?thesis by (simp add: remove_at_def)
qed

lemma drop_own_counts:
  assumes "held = receipt_sum rs"
  shows "\<exists>rs'. drop_own session rs held = Some (rs', receipt_sum rs')
     \<and> length (filter (own_receipt session) rs') < CHAT_RECEIPTS_PER_MEMBER
     \<and> (\<forall>P. length (filter P rs') \<le> length (filter P rs)) \<and> receipt_sum rs' \<le> receipt_sum rs"
  using assms
proof (induction session rs held rule: drop_own.induct)
  case (1 session rs held)
  show ?case
  proof (cases "length (filter (own_receipt session) rs) \<ge> CHAT_RECEIPTS_PER_MEMBER")
    case True
    then have "\<exists>x\<in>set rs. own_receipt session x"
      by (metis CHAT_RECEIPTS_PER_MEMBER_def filter_False list.size(3) not_numeral_le_zero)
    then obtain i where i: "position (own_receipt session) rs = Some i"
      by (meson position_None not_None_eq)
    then have less: "i < length rs" by (simp add: position_Some_less)
    have sub: "usize_sub held (cp_bytes (rs ! i)) = Some (receipt_sum (remove_at i rs))"
      using receipt_sum_remove_at [OF less] "1.prems" by (simp add: usize_sub_def)
    from "1.IH" [OF True i sub refl] obtain rs' where rs':
        "drop_own session (remove_at i rs) (receipt_sum (remove_at i rs)) = Some (rs', receipt_sum rs')"
        "length (filter (own_receipt session) rs') < CHAT_RECEIPTS_PER_MEMBER"
        "\<forall>P. length (filter P rs') \<le> length (filter P (remove_at i rs))"
        "receipt_sum rs' \<le> receipt_sum (remove_at i rs)"
      by blast
    have "\<forall>P. length (filter P rs') \<le> length (filter P rs)"
      using rs'(3) filter_remove_at_le order_trans by blast
    moreover have "receipt_sum rs' \<le> receipt_sum rs"
      using rs'(4) receipt_sum_remove_at [OF less] by linarith
    ultimately show ?thesis using rs' True i sub by (subst drop_own.simps) simp
  next
    case False
    then show ?thesis using "1.prems" by (subst drop_own.simps) auto
  qed
qed

lemma drop_front_counts:
  assumes "held = receipt_sum rs" and "needed \<le> CHAT_RECEIPT_BYTES" and "held \<le> CHAT_RECEIPT_BYTES"
  shows "\<exists>k. drop_front needed rs held = Some (drop k rs, receipt_sum (drop k rs))
     \<and> length (drop k rs) < CHAT_RECEIPTS \<and> receipt_sum (drop k rs) + needed \<le> CHAT_RECEIPT_BYTES"
  using assms
proof (induction rs arbitrary: held)
  case Nil
  then show ?case by (simp add: CHAT_RECEIPTS_def)
next
  case (Cons r rs)
  show ?case
  proof (cases "length (r # rs) \<ge> CHAT_RECEIPTS \<or> needed > CHAT_RECEIPT_BYTES - held")
    case True
    have "usize_sub held (cp_bytes r) = Some (receipt_sum rs)"
      using Cons.prems(1) by (simp add: usize_sub_def)
    then have "drop_front needed (r # rs) held = drop_front needed rs (receipt_sum rs)"
      using True by simp
    moreover obtain k where "drop_front needed rs (receipt_sum rs) = Some (drop k rs, receipt_sum (drop k rs))"
        "length (drop k rs) < CHAT_RECEIPTS" "receipt_sum (drop k rs) + needed \<le> CHAT_RECEIPT_BYTES"
      using Cons.IH [OF refl Cons.prems(2)] Cons.prems(1,3) by auto
    ultimately show ?thesis by (intro exI [of _ "Suc k"]) simp
  next
    case False
    then show ?thesis using Cons.prems by (intro exI [of _ 0]) auto
  qed
qed

lemma filter_drop_le: "length (filter P (drop k xs)) \<le> length (filter P xs)"
  by (metis append_take_drop_id filter_append le_add2 length_append)

lemma receipt_sum_drop_le: "receipt_sum (drop k rs) \<le> receipt_sum rs"
  by (metis append_take_drop_id le_add2 map_append sum_list_append)

lemma receipts_counted_drop:
  "receipts_counted rs held \<Longrightarrow> receipts_counted (drop k rs) (receipt_sum (drop k rs))"
  using receipt_sum_drop_le [of k rs] filter_drop_le [of _ k rs]
  unfolding receipts_counted_def by (auto intro: le_trans)

lemma make_receipt_room_wf:
  assumes "receipts_wf s" and "cp_bytes r \<le> CHAT_RECEIPT_BYTES"
  shows "\<exists>s'. make_receipt_room (cp_sender_session r) (cp_bytes r) s = Some s'
     \<and> receipts_wf (push_receipt r s')
     \<and> s' = s\<lparr>so_receipts := so_receipts s', so_receipt_bytes := so_receipt_bytes s'\<rparr>"
proof -
  let ?own = "own_receipt (cp_sender_session r)"
  have held: "so_receipt_bytes s = receipt_sum (so_receipts s)"
    using assms(1) by (simp add: receipts_wf_def receipts_counted_def)
  obtain rs where rs: "drop_own (cp_sender_session r) (so_receipts s) (so_receipt_bytes s) = Some (rs, receipt_sum rs)"
      "length (filter ?own rs) < CHAT_RECEIPTS_PER_MEMBER"
      "\<forall>P. length (filter P rs) \<le> length (filter P (so_receipts s))"
      "receipt_sum rs \<le> receipt_sum (so_receipts s)"
    using drop_own_counts [OF held] by blast
  then have "receipt_sum rs \<le> CHAT_RECEIPT_BYTES"
    using assms(1) by (simp add: receipts_wf_def receipts_counted_def)
  then obtain k where k: "drop_front (cp_bytes r) rs (receipt_sum rs) = Some (drop k rs, receipt_sum (drop k rs))"
      "length (drop k rs) < CHAT_RECEIPTS" "receipt_sum (drop k rs) + cp_bytes r \<le> CHAT_RECEIPT_BYTES"
    using drop_front_counts [OF refl assms(2), of rs] by blast
  let ?s = "s\<lparr>so_receipts := drop k rs, so_receipt_bytes := receipt_sum (drop k rs)\<rparr>"
  have make: "make_receipt_room (cp_sender_session r) (cp_bytes r) s = Some ?s"
    using rs(1) k(1) by (simp add: make_receipt_room_def)
  have "length (filter (own_receipt session) (drop k rs @ [r])) \<le> CHAT_RECEIPTS_PER_MEMBER" for session
  proof (cases "session = cp_sender_session r")
    case True
    then show ?thesis using rs(2) filter_drop_le [of ?own k rs] by simp
  next
    case False
    have "length (filter (own_receipt session) (drop k rs)) \<le> length (filter (own_receipt session) (so_receipts s))"
      using filter_drop_le rs(3) le_trans by blast
    moreover have "\<not> own_receipt session r" using False by (auto simp: own_receipt_def)
    ultimately show ?thesis
      using assms(1) by (auto simp: receipts_wf_def receipts_counted_def intro: le_trans)
  qed
  then have "receipts_wf (push_receipt r ?s)"
    using k(2,3) by (simp add: receipts_wf_def receipts_counted_def push_receipt_def)
  with make show ?thesis by (intro exI [of _ ?s]) simp
qed

lemma prune_aged_drop:
  assumes "held = receipt_sum rs"
  shows "\<exists>k. prune_aged now rs held = (drop k rs, receipt_sum (drop k rs))"
  using assms
proof (induction rs arbitrary: held)
  case (Cons r rs)
  show ?case
  proof (cases "duration_since now (cp_accepted_at r) \<ge> CHAT_RECEIPT_TTL")
    case True
    obtain k where "prune_aged now rs (receipt_sum rs) = (drop k rs, receipt_sum (drop k rs))"
      using Cons.IH [OF refl] by blast
    then show ?thesis using True Cons.prems by (intro exI [of _ "Suc k"]) simp
  next
    case False
    then show ?thesis using Cons.prems by (intro exI [of _ 0]) simp
  qed
qed simp

lemma prune_receipts_wf [wf_intros]:
  assumes "receipts_wf s"
  shows "receipts_wf (prune_receipts now s)"
proof -
  have "so_receipt_bytes s = receipt_sum (so_receipts s)"
    using assms by (simp add: receipts_wf_def receipts_counted_def)
  then obtain k where "prune_aged now (so_receipts s) (so_receipt_bytes s)
      = (drop k (so_receipts s), receipt_sum (drop k (so_receipts s)))"
    using prune_aged_drop by blast
  then show ?thesis
    using receipts_counted_drop assms by (simp add: prune_receipts_def receipts_wf_def)
qed

lemma drop_over_budget_drop:
  assumes "held = receipt_sum rs"
  shows "\<exists>k. drop_over_budget rs held = (drop k rs, receipt_sum (drop k rs))
     \<and> receipt_sum (drop k rs) \<le> CHAT_RECEIPT_BYTES"
  using assms
proof (induction rs arbitrary: held)
  case (Cons r rs)
  show ?case
  proof (cases "held > CHAT_RECEIPT_BYTES")
    case True
    obtain k where "drop_over_budget rs (receipt_sum rs) = (drop k rs, receipt_sum (drop k rs))"
        "receipt_sum (drop k rs) \<le> CHAT_RECEIPT_BYTES"
      using Cons.IH [OF refl] by blast
    then show ?thesis using True Cons.prems by (intro exI [of _ "Suc k"]) simp
  next
    case False
    then show ?thesis using Cons.prems by (intro exI [of _ 0]) simp
  qed
qed simp

lemma rewrite_receipt_session: "cp_sender_session (rewrite_receipt sz f r) = cp_sender_session r"
  by (simp add: rewrite_receipt_def Let_def)

lemma rewrite_history_sequence: "he_sequence (rewrite_history sz f e) = he_sequence e"
  by (simp add: rewrite_history_def Let_def)

lemma filter_own_rewrite:
  "length (filter (own_receipt session) (map (rewrite_receipt sz f) rs)) = length (filter (own_receipt session) rs)"
  by (induction rs) (auto simp: own_receipt_def rewrite_receipt_session)

lemma rewrite_messages_wf [wf_intros]:
  assumes "social_wf s"
  shows "social_wf (rewrite_messages sz f s)"
proof -
  let ?h = "map (rewrite_history sz f) (so_history s)" and ?r = "map (rewrite_receipt sz f) (so_receipts s)"
  let ?s = "trim_history (s\<lparr>so_history := ?h, so_history_bytes := sum_list (map he_bytes ?h)\<rparr>)"
  obtain k where k: "drop_over_budget ?r (receipt_sum ?r) = (drop k ?r, receipt_sum (drop k ?r))"
      "receipt_sum (drop k ?r) \<le> CHAT_RECEIPT_BYTES"
    using drop_over_budget_drop [OF refl] by blast
  have eq: "rewrite_messages sz f s = ?s\<lparr>so_receipts := drop k ?r, so_receipt_bytes := receipt_sum (drop k ?r)\<rparr>"
    by (simp only: rewrite_messages_def Let_def k prod.case)
  have "he_sequence \<circ> rewrite_history sz f = he_sequence"
    by (simp add: fun_eq_iff rewrite_history_sequence)
  then have "history_wf ?s"
    using assms by (intro trim_history_wf) (auto simp: social_wf_def history_wf_def rewrite_history_sequence)
  moreover have "length (filter (own_receipt session) (drop k ?r)) \<le> CHAT_RECEIPTS_PER_MEMBER" for session
    using filter_drop_le [of "own_receipt session" k ?r] filter_own_rewrite [of session sz f "so_receipts s"]
      assms by (auto simp: social_wf_def receipts_wf_def receipts_counted_def intro: le_trans)
  moreover have "length (drop k ?r) \<le> CHAT_RECEIPTS"
    using assms by (auto simp: social_wf_def receipts_wf_def receipts_counted_def)
  ultimately show ?thesis
    using k(2) unfolding eq social_wf_def
    by (simp add: receipts_wf_def receipts_counted_def history_wf_def)
qed

lemma recount_wf [wf_intros]:
  assumes "so_history_bytes s = sum_list (map he_bytes (so_history s))"
    and "sorted (map he_sequence (so_history s))"
    and "\<forall>e \<in> set (so_history s). he_sequence e < so_next_sequence s \<or> so_next_sequence s = - 1"
  shows "history_wf (recount sz i s)"
proof (cases "i < length (so_history s)")
  case True
  let ?e = "so_history s ! i" and ?n = "history_size sz (he_message (so_history s ! i))"
  let ?h = "(so_history s)[i := ?e\<lparr>he_bytes := ?n\<rparr>]"
  have seqs: "map he_sequence ?h = map he_sequence (so_history s)"
    using True by (simp add: map_update list_update_same_conv)
  have "sum_list (map he_bytes ?h) = sum_list (map he_bytes (so_history s)) + ?n - he_bytes ?e"
    using True by (simp add: map_update sum_list_update)
  moreover have "he_bytes ?e \<le> sum_list (map he_bytes (so_history s))"
    using True by (simp add: member_le_sum_list)
  moreover have "\<forall>e \<in> set ?h. he_sequence e < so_next_sequence s \<or> so_next_sequence s = - 1"
    using assms(3) True by (auto dest!: set_update_subset_insert [THEN subsetD])
  ultimately show ?thesis
    unfolding recount_def Let_def using True assms(1,2) seqs
    by (intro trim_history_wf) auto
next
  case False
  then show ?thesis unfolding recount_def using assms by (simp add: trim_history_wf)
qed

lemma recount_other:
  "so_receipts (recount sz i s) = so_receipts s" "so_receipt_bytes (recount sz i s) = so_receipt_bytes s"
  by (simp_all add: recount_def Let_def trim_history_other)

lemma social_wf_cong:
  "\<lbrakk>so_history s' = so_history s; so_history_bytes s' = so_history_bytes s;
    so_next_sequence s' = so_next_sequence s; so_receipts s' = so_receipts s;
    so_receipt_bytes s' = so_receipt_bytes s\<rbrakk> \<Longrightarrow> social_wf s' = social_wf s"
  by (simp add: social_wf_def history_wf_def receipts_wf_def)

lemma social_wf_pins [simp]: "social_wf (s\<lparr>so_pins := ps\<rparr>) = social_wf s"
  by (rule social_wf_cong) simp_all

lemma social_wf_records [simp]:
  "social_wf (note_report key now s) = social_wf s"
  "social_wf (snd (report_cooldown_active key now s)) = social_wf s"
  "social_wf (record_ban i now wall name auth ids ip reason dur s) = social_wf s"
  "social_wf (snd (reserve_ban now s)) = social_wf s"
  "social_wf (snd (forget_ban user ip s)) = social_wf s"
  "social_wf (record_moderation_event ev s) = social_wf s"
  "social_wf (snd (link_report i t s)) = social_wf s"
  by (rule social_wf_cong;
      simp add: note_report_def report_cooldown_active_def Let_def record_ban_def reserve_ban_def
        forget_ban_def record_moderation_event_def link_report_def split: option.split)+

lemma remove_message_wf [wf_intros]: "social_wf s \<Longrightarrow> social_wf (remove_message sz i t s)"
  unfolding remove_message_def by (rule rewrite_messages_wf) simp

lemma edit_message_wf [wf_intros]: "social_wf s \<Longrightarrow> social_wf (edit_message sz e s)"
  unfolding edit_message_def by (simp add: rewrite_messages_wf)

lemma reconcile_reactions_wf [wf_intros]:
  assumes "social_wf s"
  shows "social_wf (reconcile_reactions sz msg s)"
proof (cases "position (\<lambda>e. ce_message_id (he_message e) = ce_message_id msg
    \<and> ce_removed_at (he_message e) = None) (so_history s)")
  case None
  then show ?thesis using assms by (simp add: reconcile_reactions_def)
next
  case (Some i)
  let ?e = "so_history s ! i"
  let ?f = "?e\<lparr>he_message := (he_message ?e)\<lparr>ce_reactions := ce_reactions msg\<rparr>\<rparr>"
  have i: "i < length (so_history s)" using position_Some_less [OF Some] by simp
  have "map he_bytes ((so_history s)[i := ?f]) = map he_bytes (so_history s)"
    and "map he_sequence ((so_history s)[i := ?f]) = map he_sequence (so_history s)"
    using i by (simp_all add: map_update list_update_same_conv)
  moreover have "\<forall>e \<in> set ((so_history s)[i := ?f]). he_sequence e < so_next_sequence s \<or> so_next_sequence s = - 1"
    using assms i by (auto simp: social_wf_def history_wf_def dest!: set_update_subset_insert [THEN subsetD])
  ultimately have "history_wf (recount sz i (s\<lparr>so_history := (so_history s)[i := ?f]\<rparr>))"
    using assms by (intro recount_wf) (simp_all add: social_wf_def history_wf_def)
  then show ?thesis
    using assms by (simp add: reconcile_reactions_def Some Let_def social_wf_def receipts_wf_def recount_other)
qed

section \<open>Every conversation\<close>

text \<open>
  The steps a room takes on its conversation: pruning, accepting a message (receipt, then
  history), removal, edits, reactions, and the administrative records.
\<close>

inductive social_step :: "size_of \<Rightarrow> room_social \<Rightarrow> room_social \<Rightarrow> bool" for sz where
  prune: "social_step sz s (prune_receipts now s)"
| accept: "\<lbrakk>sz (cp_message r) = Some (cp_bytes r); cp_bytes r \<le> CHAT_RECEIPT_BYTES;
     make_receipt_room (cp_sender_session r) (cp_bytes r) s = Some s'\<rbrakk> \<Longrightarrow>
     social_step sz s (remember sz (cp_sender_session r) to_session authenticated (cp_message r)
                         (push_receipt r s'))"
| removed: "social_step sz s (remove_message sz i t s)"
| edited: "social_step sz s (edit_message sz e s)"
| reacted: "social_step sz s (reconcile_reactions sz msg s)"
| reported: "social_step sz s (note_report key now (snd (report_cooldown_active key now s)))"
| banned: "social_step sz s (record_ban i now wall name auth ids ip reason dur (snd (reserve_ban now s)))"
| unbanned: "social_step sz s (snd (forget_ban user ip s))"
| recorded: "social_step sz s (record_moderation_event ev s)"
| linked: "social_step sz s (snd (link_report i now s))"

lemma remember_receipts:
  "so_receipts (remember sz a b c msg s) = so_receipts s"
  "so_receipt_bytes (remember sz a b c msg s) = so_receipt_bytes s"
  by (simp_all add: remember_def Let_def trim_history_other)

lemma accept_wf:
  assumes "social_wf s" and "cp_bytes r \<le> CHAT_RECEIPT_BYTES"
    and "make_receipt_room (cp_sender_session r) (cp_bytes r) s = Some s'"
  shows "social_wf (remember sz a b c msg (push_receipt r s'))"
proof -
  have "receipts_wf s" using assms(1) by (simp add: social_wf_def)
  from make_receipt_room_wf [OF this assms(2)] assms(3)
  have s': "receipts_wf (push_receipt r s')"
      "s' = s\<lparr>so_receipts := so_receipts s', so_receipt_bytes := so_receipt_bytes s'\<rparr>"
    by auto
  have "history_wf s'" using assms(1) by (subst s'(2)) (simp add: social_wf_def history_wf_def)
  then have "history_wf (push_receipt r s')" by (simp add: push_receipt_def history_wf_def)
  then show ?thesis
    using s'(1) remember_wf by (simp add: social_wf_def receipts_wf_def remember_receipts)
qed

lemma prune_receipts_history:
  "history_wf (prune_receipts now s) = history_wf s"
  by (simp add: prune_receipts_def split_beta history_wf_def)

lemma social_step_wf: "social_step sz s t \<Longrightarrow> social_wf s \<Longrightarrow> social_wf t"
proof (induction rule: social_step.induct)
  case (prune s now)
  then show ?case by (simp add: social_wf_def prune_receipts_wf prune_receipts_history)
next
  case (accept r s s')
  then show ?case by (blast intro: accept_wf)
qed (simp_all add: remove_message_wf edit_message_wf reconcile_reactions_wf)

interpretation conversation: stepping "\<lambda>s. s = social_default" "social_step sz" social_wf for sz
  by unfold_locales (auto intro: social_wf_default social_step_wf)

text \<open>
  C31: however a room's conversation evolves, from its empty start, by accepted messages,
  removals, edits, reactions and pruning in any order, its memory stays within the budgets: at
  most 300 replayed messages of 256 KiB, at most 512 receipts of 512 KiB and 128 per
  membership, with both byte counters equal to what is stored. So the unchecked subtractions of
  \<^verbatim>\<open>make_receipt_room\<close> can never underflow: making room for a receipt of permitted
  size always succeeds.
\<close>

theorem conversation_stays_bounded:
  assumes "(social_step sz)\<^sup>*\<^sup>* social_default s"
  shows "length (so_history s) \<le> HISTORY_MESSAGES \<and> so_history_bytes s \<le> HISTORY_BYTES
    \<and> so_history_bytes s = sum_list (map he_bytes (so_history s))
    \<and> length (so_receipts s) \<le> CHAT_RECEIPTS \<and> so_receipt_bytes s \<le> CHAT_RECEIPT_BYTES
    \<and> so_receipt_bytes s = sum_list (map cp_bytes (so_receipts s))
    \<and> (\<forall>session. length (filter (own_receipt session) (so_receipts s)) \<le> CHAT_RECEIPTS_PER_MEMBER)
    \<and> (\<forall>r :: chat_receipt. cp_bytes r \<le> CHAT_RECEIPT_BYTES \<longrightarrow>
         make_receipt_room (cp_sender_session r) (cp_bytes r) s \<noteq> None)"
proof -
  have wf: "social_wf s" by (rule conversation.good_reachable [OF refl assms])
  have "make_receipt_room (cp_sender_session r) (cp_bytes r) s \<noteq> None"
    if "cp_bytes r \<le> CHAT_RECEIPT_BYTES" for r :: chat_receipt
    using make_receipt_room_wf [of s r] that wf by (auto simp: social_wf_def)
  then show ?thesis
    using wf by (simp add: social_wf_def history_wf_def receipts_wf_def receipts_counted_def)
qed

text \<open>A message of forty bytes, accepted into an empty room.\<close>

theorem conversation_stays_bounded_witness:
  "make_receipt_room 3 40
     (remember (\<lambda>_. Some 40) 3 None True sample_message
       (push_receipt \<lparr>cp_sender_session = 3, cp_sequence = Some 1, cp_accepted_at = 0, cp_bytes = 40,
                      cp_message = sample_message\<rparr> social_default)) \<noteq> None"
proof -
  let ?r = "\<lparr>cp_sender_session = 3, cp_sequence = Some 1, cp_accepted_at = 0, cp_bytes = 40,
              cp_message = sample_message\<rparr>"
  have "make_receipt_room (cp_sender_session ?r) (cp_bytes ?r) social_default = Some social_default"
    by (simp add: make_receipt_room_def social_default_def drop_own.simps CHAT_RECEIPTS_PER_MEMBER_def)
  then have "social_step (\<lambda>_. Some 40) social_default
      (remember (\<lambda>_. Some 40) (cp_sender_session ?r) None True (cp_message ?r) (push_receipt ?r social_default))"
    by (intro social_step.accept) (simp_all add: CHAT_RECEIPT_BYTES_def)
  then have "(social_step (\<lambda>_. Some 40))\<^sup>*\<^sup>* social_default
      (remember (\<lambda>_. Some 40) 3 None True sample_message (push_receipt ?r social_default))"
    by (simp add: r_into_rtranclp)
  from conversation_stays_bounded [OF this]
  have "\<forall>r :: chat_receipt. cp_bytes r \<le> CHAT_RECEIPT_BYTES \<longrightarrow> make_receipt_room (cp_sender_session r) (cp_bytes r)
      (remember (\<lambda>_. Some 40) 3 None True sample_message (push_receipt ?r social_default)) \<noteq> None"
    by (elim conjE)
  from this [THEN spec, of ?r] show ?thesis by (simp add: CHAT_RECEIPT_BYTES_def)
qed

section \<open>Removal reaches every copy\<close>

lemma rewrite_messages_retained:
  assumes "msg \<in> set (retained_messages (rewrite_messages sz f s))"
  shows "msg \<in> set (so_pins s) \<or> msg \<in> f ` (set (map he_message (so_history s)) \<union> set (map cp_message (so_receipts s)))"
proof -
  let ?h = "map (rewrite_history sz f) (so_history s)" and ?r = "map (rewrite_receipt sz f) (so_receipts s)"
  obtain es n where es: "trim_entries ?h (sum_list (map he_bytes ?h)) = (es, n)" by fastforce
  then obtain k where "es = drop k ?h" using trim_entries_suffix by blast
  then have "set es \<subseteq> set ?h" using set_drop_subset by metis
  moreover obtain k' where "drop_over_budget ?r (receipt_sum ?r) = (drop k' ?r, receipt_sum (drop k' ?r))"
    using drop_over_budget_drop [OF refl] by blast
  moreover have "set (drop k' ?r) \<subseteq> set ?r" by (rule set_drop_subset)
  ultimately have "msg \<in> he_message ` set ?h \<or> msg \<in> cp_message ` set ?r \<or> msg \<in> set (so_pins s)"
    using assms es by (auto simp: rewrite_messages_def Let_def trim_history_def retained_messages_def)
  then show ?thesis
    by (auto simp: rewrite_history_def rewrite_receipt_def Let_def)
qed





end
