(* ===== verification/Wire_Messages.thy ===== *)
theory Wire_Messages
  imports Room_Social
begin

text \<open>
  The messages of the signaling protocol (\<^verbatim>\<open>ClientMessage\<close>, \<^verbatim>\<open>ServerMessage\<close> and their parts in
  \<^verbatim>\<open>src/signaling/protocol.rs\<close>) and the request classification of \<^verbatim>\<open>src/room/social.rs\<close>. A value
  that belongs to the media library (RTP capabilities, ICE and DTLS parameters) is kept as the
  text it travels as; an identifier the media library issues is a number.
\<close>

type_synonym producer_id = nat
type_synonym consumer_id = nat
type_synonym transport_id = nat
type_synonym media_text = string

record producer_metadata =
  pm_id :: producer_id
  pm_kind :: media_kind
  pm_source :: "string option"

record participant_info =
  pi_id :: participant_id
  pi_name :: string
  pi_producers :: "producer_metadata list"
  pi_role :: role
  pi_authenticated :: bool
  pi_chat_style :: chat_style

record audio_level_entry =
  al_participant_id :: participant_id
  al_volume :: int

record snapshot_lobby_entry =
  sl_participant_id :: participant_id
  sl_display_name :: string
  sl_authenticated :: bool

record room_snapshot =
  sn_participants :: "participant_info list"
  sn_messages :: "chat_entry list"
  sn_lobby :: "snapshot_lobby_entry list"
  sn_your_role :: role
  sn_chat_session_id :: uuid
  sn_room_settings :: "room_settings option"
  sn_nickname :: string
  sn_allow_private_messages :: bool
  sn_ignored_participant_ids :: "participant_id list"
  sn_paused_producer_ids :: "producer_id list"
  sn_text_muted :: bool
  sn_cam_banned :: bool
  sn_can_chat :: bool
  sn_local_producer_ids :: "producer_id list"
  sn_can_broadcast :: bool

record member_entry =
  mb_user_id :: uuid
  mb_display_name :: string
  mb_role :: role
  mb_online :: bool
  mb_authenticated :: bool

record retry_chat_message =
  rc_client_message_id :: string
  rc_sequence :: u64
  rc_chat_session_id :: string
  rc_content :: string
  rc_attachment_ids :: "uuid list"
  rc_target_participant_id :: "participant_id option"
  rc_reply_to :: "message_id option"

datatype chat_retry_outcome = Unknown

datatype chat_retry_reason =
  SessionChanged | ReceiptExpired | SequenceSuperseded | Capacity | RetryConflict
  | RecipientUnconfirmed | StorageUnconfirmed

text \<open>A history entry as one viewer receives it, with the target's address for an owner only.\<close>

record moderation_event_view =
  mv_event :: moderation_event
  mv_target_ip :: "ip_addr option"

definition moderation_event_view_new :: "moderation_event \<Rightarrow> bool \<Rightarrow> moderation_event_view" where
  "moderation_event_view_new event owner =
     \<lparr>mv_event = event, mv_target_ip = (if owner then me_target_ip event else None)\<rparr>"

record history_page =
  hp_messages :: "chat_entry list"
  hp_next_cursor :: "string option"
  hp_newer_cursor :: "string option"
  hp_first_unread_message_id :: "message_id option"
  hp_read_message_id :: "message_id option"
  hp_retention_days :: int

datatype social_response =
  RespSetChatPreferences bool "participant_id list"
  | RespChangeNickname string
  | RespSetChatStyle chat_style
  | RespRemoveChatMessage message_id date_time
  | RespEditChatMessage chat_entry
  | RespGetAttachmentAccess string date_time
  | RespGetPinnedMessages "chat_entry list"
  | RespSetPinnedMessage "chat_entry list"
  | RespReactToMessage message_id "chat_reaction list"
  | RespGetRoomSnapshot room_snapshot
  | RespGetChatHistory history_page
  | RespMarkChatRead "message_id option"
  | RespSetRoomHistory int
  | RespListRoomBans "ban_entry list" bool
  | RespRemoveRoomBan bool
  | RespListRoomMembers "member_entry list" bool
  | RespSetMemberRole bool
  | RespReportParticipant uuid report_status
  | RespListRoomReports "report_entry list" bool
  | RespResolveRoomReport uuid report_resolution
  | RespListModerationEvents "moderation_event_view list" bool

section \<open>From the server\<close>

datatype (plugins only: code size) server_message =
  MsgRoomJoined participant_id "participant_info list" string role string chat_style "room_settings option"
  | MsgAuthenticationRenewed string u64
  | MsgAuthenticationRenewalFailed string
  | MsgAuthenticationRenewalDeferred string u32 u64
  | MsgError error_code string
  | MsgRoomPasswordRequired
  | MsgRoomClosed string
  | MsgServerRestarting string
  | MsgRouterRtpCapabilities media_text
  | MsgTransportCreated transport_id media_text media_text media_text "media_text list"
  | MsgTransportConnected transport_id
  | MsgProducerCreated producer_id
  | MsgConsumerCreated consumer_id producer_id media_kind media_text
  | MsgParticipantJoined participant_id string role bool chat_style
  | MsgParticipantLeft participant_id
  | MsgNewProducer participant_id producer_id media_kind "string option"
  | MsgProducerClosed producer_id
  | MsgProducerPaused producer_id
  | MsgProducerResumed producer_id
  | MsgConsumerResumed consumer_id
  | MsgConsumerPaused consumer_id
  | MsgMediaControlApplied
  | MsgRoomControlApplied
  | MsgReconnectResult bool participant_id "string option"
  | MsgIceRestarted transport_id media_text "media_text list"
  | MsgConnectionStats "u32 option"
  | MsgConsumerLayersChanged consumer_id "nat option" "nat option"
  | MsgChatReceived participant_id string string "chat_attachment list" message_id string date_time
      "date_time option" u32 "date_time option" chat_style "chat_reply_ref option"
  | MsgMessageAck string chat_entry
  | MsgMessageRetryResult string chat_retry_outcome chat_retry_reason
  | MsgPrivateMessageReceived chat_entry
  | MsgSocialResponse string social_response
  | MsgSocialError "string option" "string option" error_code string
  | MsgNicknameChanged participant_id string
  | MsgChatStyleChanged participant_id chat_style
  | MsgParticipantTyping participant_id "participant_id option"
  | MsgChatMessageEdited chat_entry
  | MsgPinnedMessagesChanged "chat_entry list"
  | MsgChatMessageRemoved message_id date_time
  | MsgMessageReactions message_id "chat_reaction list"
  | MsgActiveSpeaker participant_id
  | MsgAudioLevels "audio_level_entry list"
  | MsgForceClosedProducer producer_id string
  | MsgCamBanned participant_id
  | MsgCamUnbanned participant_id
  | MsgTextMuted participant_id
  | MsgTextUnmuted participant_id
  | MsgParticipantKicked participant_id "string option"
  | MsgParticipantBanned participant_id "string option"
  | MsgRoleChanged participant_id role participant_id
  | MsgVoiceRequested participant_id string
  | MsgRoomSettingsChanged room_settings
  | MsgTopicChanged string participant_id
  | MsgLobbyWaiting string "string option" u32 u32
  | MsgLobbyStatus u32 u32
  | MsgLobbyJoin participant_id string bool
  | MsgLobbyDenied "string option"
  | MsgLobbyAdmitted

section \<open>From a client\<close>

datatype (plugins only: code size) client_message =
  CmdRenewAuthentication string string
  | CmdJoinRoom room_id string "string option" "chat_style option"
  | CmdLeaveRoom
  | CmdGetRouterRtpCapabilities
  | CmdCreateSendTransport
  | CmdCreateRecvTransport
  | CmdReplaceRecvTransport transport_id
  | CmdConnectTransport transport_id media_text
  | CmdProduce transport_id media_kind media_text "string option"
  | CmdConsume producer_id media_text
  | CmdResumeConsumer consumer_id
  | CmdPauseConsumer consumer_id
  | CmdCloseConsumer consumer_id
  | CmdCloseProducer producer_id
  | CmdPauseProducer producer_id
  | CmdResumeProducer producer_id
  | CmdReconnect participant_id room_id string
  | CmdRestartIce transport_id
  | CmdSetConsumerPreferredLayers consumer_id nat "nat option"
  | CmdChatMessage string "uuid list" "string option" "u64 option" "message_id option"
  | CmdPrivateMessage participant_id string "uuid list" string "u64 option" "message_id option"
  | CmdRetryChatMessage retry_chat_message
  | CmdGetAttachmentAccess string uuid
  | CmdGetChatHistory string "string option" "string option" "message_id option" "bool option"
      "string option" "u32 option"
  | CmdMarkChatRead string message_id
  | CmdSetRoomHistory string int
  | CmdSetChatPreferences string bool "participant_id list"
  | CmdSetChatStyle string chat_style
  | CmdEditChatMessage string message_id string u32
  | CmdGetPinnedMessages string
  | CmdSetPinnedMessage string message_id bool
  | CmdRemoveChatMessage string message_id
  | CmdReactToMessage string message_id string
  | CmdChangeNickname string string
  | CmdGetRoomSnapshot string
  | CmdListRoomBans string "u32 option"
  | CmdRemoveRoomBan string string
  | CmdListRoomMembers string "u32 option"
  | CmdSetMemberRole string uuid role
  | CmdReportParticipant string participant_id string
  | CmdListRoomReports string "u32 option"
  | CmdResolveRoomReport string string report_resolution
  | CmdListModerationEvents string "u32 option"
  | CmdTyping "participant_id option"
  | CmdCloseCam participant_id
  | CmdCamBan participant_id "string option"
  | CmdCamUnban participant_id
  | CmdTextMute participant_id
  | CmdTextUnmute participant_id
  | CmdKick participant_id "string option" "string option"
  | CmdBan participant_id "string option" "u64 option" "string option"
  | CmdUnban uuid
  | CmdSetRole participant_id role
  | CmdRequestVoice
  | CmdUpdateRoomSettings settings_patch
  | CmdSetTopic string
  | CmdAdmitFromLobby participant_id
  | CmdDenyFromLobby participant_id

datatype social_budget_kind = NoBudget | ChatBroadcast | AdminMutation

definition social_budget :: "client_message \<Rightarrow> social_budget_kind" where
  "social_budget m =
     (case m of
        CmdGetRoomSnapshot _ \<Rightarrow> NoBudget
      | CmdGetAttachmentAccess _ _ \<Rightarrow> NoBudget
      | CmdGetPinnedMessages _ \<Rightarrow> NoBudget
      | CmdGetChatHistory _ _ _ _ _ _ _ \<Rightarrow> NoBudget
      | CmdMarkChatRead _ _ \<Rightarrow> NoBudget
      | CmdListRoomBans _ _ \<Rightarrow> NoBudget
      | CmdListRoomMembers _ _ \<Rightarrow> NoBudget
      | CmdListRoomReports _ _ \<Rightarrow> NoBudget
      | CmdListModerationEvents _ _ \<Rightarrow> NoBudget
      | CmdSetChatPreferences _ _ _ \<Rightarrow> NoBudget
      | CmdChangeNickname _ _ \<Rightarrow> ChatBroadcast
      | CmdSetChatStyle _ _ \<Rightarrow> ChatBroadcast
      | CmdReactToMessage _ _ _ \<Rightarrow> ChatBroadcast
      | CmdEditChatMessage _ _ _ _ \<Rightarrow> ChatBroadcast
      | _ \<Rightarrow> AdminMutation)"

definition social_request :: "client_message \<Rightarrow> (string \<times> string) option" where
  "social_request m =
     (case m of
        CmdSetChatPreferences r _ _ \<Rightarrow> Some (r, ''setChatPreferences'')
      | CmdGetAttachmentAccess r _ \<Rightarrow> Some (r, ''getAttachmentAccess'')
      | CmdChangeNickname r _ \<Rightarrow> Some (r, ''changeNickname'')
      | CmdSetChatStyle r _ \<Rightarrow> Some (r, ''setChatStyle'')
      | CmdEditChatMessage r _ _ _ \<Rightarrow> Some (r, ''editChatMessage'')
      | CmdGetPinnedMessages r \<Rightarrow> Some (r, ''getPinnedMessages'')
      | CmdSetPinnedMessage r _ _ \<Rightarrow> Some (r, ''setPinnedMessage'')
      | CmdRemoveChatMessage r _ \<Rightarrow> Some (r, ''removeChatMessage'')
      | CmdReactToMessage r _ _ \<Rightarrow> Some (r, ''reactToMessage'')
      | CmdGetRoomSnapshot r \<Rightarrow> Some (r, ''getRoomSnapshot'')
      | CmdGetChatHistory r _ _ _ _ _ _ \<Rightarrow> Some (r, ''getChatHistory'')
      | CmdMarkChatRead r _ \<Rightarrow> Some (r, ''markChatRead'')
      | CmdSetRoomHistory r _ \<Rightarrow> Some (r, ''setRoomHistory'')
      | CmdListRoomBans r _ \<Rightarrow> Some (r, ''listRoomBans'')
      | CmdRemoveRoomBan r _ \<Rightarrow> Some (r, ''removeRoomBan'')
      | CmdListRoomMembers r _ \<Rightarrow> Some (r, ''listRoomMembers'')
      | CmdSetMemberRole r _ _ \<Rightarrow> Some (r, ''setMemberRole'')
      | CmdReportParticipant r _ _ \<Rightarrow> Some (r, ''reportParticipant'')
      | CmdListRoomReports r _ \<Rightarrow> Some (r, ''listRoomReports'')
      | CmdResolveRoomReport r _ _ \<Rightarrow> Some (r, ''resolveRoomReport'')
      | CmdListModerationEvents r _ \<Rightarrow> Some (r, ''listModerationEvents'')
      | _ \<Rightarrow> None)"

definition message_id_of_attempt :: "client_message \<Rightarrow> string option" where
  "message_id_of_attempt m =
     (case m of
        CmdChatMessage _ _ c _ _ \<Rightarrow> c
      | CmdPrivateMessage _ _ _ c _ _ \<Rightarrow> Some c
      | CmdRetryChatMessage r \<Rightarrow> Some (rc_client_message_id r)
      | _ \<Rightarrow> None)"

definition social_error :: "client_message \<Rightarrow> error_code \<Rightarrow> string \<Rightarrow> server_message option" where
  "social_error m code message =
     (let request_id = map_option fst (social_request m);
          client_message_id = message_id_of_attempt m in
      if request_id = None \<and> client_message_id = None then None
      else Some (MsgSocialError request_id client_message_id code message))"

end
