(* ===== verification/Join_Rates.thy ===== *)
theory Join_Rates
  imports Admission_Windows
begin

text \<open>
  The join limiters of the room manager (\<^verbatim>\<open>RateTable\<close> and \<^verbatim>\<open>SharedRateLimiter\<close> in
  \<^verbatim>\<open>src/room/mod.rs\<close>): a fixed window per key, reclaimed in start order, with a shared
  overflow allowance once the table is full.
\<close>

definition JOIN_RATE_WINDOW :: duration where
  "JOIN_RATE_WINDOW = from_secs 60"

definition MAX_TRACKED_JOIN_KEYS :: nat where
  "MAX_TRACKED_JOIN_KEYS = 10000"

record rate_window =
  rw_started_at :: instant
  rw_attempts :: u32

record 'k rate_table =
  rt_entries :: "('k, rate_window) table"
  rt_order :: "('k \<times> instant) list"
  rt_overflow :: "rate_window option"

text \<open>Every turn of the loop pops the front stamp or breaks, so it recurses on the deque.\<close>

fun reclaim :: "instant \<Rightarrow> ('k, rate_window) table \<Rightarrow> ('k \<times> instant) list \<Rightarrow>
    ('k, rate_window) table \<times> ('k \<times> instant) list" where
  "reclaim now entries [] = (entries, [])"
| "reclaim now entries ((key, stamp) # order) =
     (case tget entries key of
        Some w \<Rightarrow>
          if rw_started_at w \<noteq> stamp then reclaim now entries order
          else if duration_since now (rw_started_at w) \<ge> JOIN_RATE_WINDOW
            then reclaim now (tdel key entries) order
          else (entries, (key, stamp) # order)
      | None \<Rightarrow> reclaim now entries order)"

definition reclaim_expired :: "instant \<Rightarrow> 'k rate_table \<Rightarrow> 'k rate_table" where
  "reclaim_expired now t =
     (let (entries, order) = reclaim now (rt_entries t) (rt_order t) in
      t\<lparr>rt_entries := entries, rt_order := order\<rparr>)"

record 'k shared_rate_limiter =
  rl_table :: "'k rate_table"
  rl_max_attempts :: u32

definition shared_rate_limiter_new :: "u32 \<Rightarrow> 'k shared_rate_limiter" where
  "shared_rate_limiter_new max_attempts =
     \<lparr>rl_table = \<lparr>rt_entries = [], rt_order = [], rt_overflow = None\<rparr>,
      rl_max_attempts = max_attempts\<rparr>"

definition restart_if_expired :: "instant \<Rightarrow> rate_window \<Rightarrow> rate_window" where
  "restart_if_expired now w =
     (if duration_since now (rw_started_at w) \<ge> JOIN_RATE_WINDOW
      then \<lparr>rw_started_at = now, rw_attempts = 0\<rparr> else w)"

definition spend_attempt :: "u32 \<Rightarrow> rate_window \<Rightarrow> bool \<times> rate_window" where
  "spend_attempt max_attempts w =
     (if rw_attempts w \<ge> max_attempts then (False, w)
      else (True, w\<lparr>rw_attempts := rw_attempts w + 1\<rparr>))"

definition allow_overflow :: "u32 \<Rightarrow> instant \<Rightarrow> 'k rate_table \<Rightarrow> bool \<times> 'k rate_table" where
  "allow_overflow max_attempts now t =
     (let overflow = (case rt_overflow t of
                        Some w \<Rightarrow> w | None \<Rightarrow> \<lparr>rw_started_at = now, rw_attempts = 0\<rparr>);
          (admitted, overflow') = spend_attempt max_attempts (restart_if_expired now overflow) in
      (admitted, t\<lparr>rt_overflow := Some overflow'\<rparr>))"

definition allow_tracked :: "u32 \<Rightarrow> 'k \<Rightarrow> instant \<Rightarrow> 'k rate_table \<Rightarrow> bool \<times> 'k rate_table" where
  "allow_tracked max_attempts key now t =
     (let (entry, fresh_window) =
            (case tget (rt_entries t) key of
               Some w \<Rightarrow> (restart_if_expired now w,
                          duration_since now (rw_started_at w) \<ge> JOIN_RATE_WINDOW)
             | None \<Rightarrow> (\<lparr>rw_started_at = now, rw_attempts = 0\<rparr>, True));
          order = (if fresh_window then rt_order t @ [(key, now)] else rt_order t);
          (admitted, entry') = spend_attempt max_attempts entry in
      (admitted, t\<lparr>rt_entries := tput key entry' (rt_entries t), rt_order := order\<rparr>))"

definition allow :: "'k \<Rightarrow> instant \<Rightarrow> 'k shared_rate_limiter \<Rightarrow> bool \<times> 'k shared_rate_limiter" where
  "allow key now l =
     (let t = reclaim_expired now (rl_table l);
          (admitted, t') =
            (if length (rt_entries t) \<ge> MAX_TRACKED_JOIN_KEYS \<and> \<not> contains_key (rt_entries t) key
             then allow_overflow (rl_max_attempts l) now t
             else allow_tracked (rl_max_attempts l) key now t) in
      (admitted, l\<lparr>rl_table := t'\<rparr>))"

section \<open>The table's invariant\<close>

text \<open>
  The stamps are exactly the windows that are tracked, in start order; the table is bounded
  and nobody has spent more than the allowance.
\<close>

definition stamps :: "('k, rate_window) table \<Rightarrow> ('k \<Rightarrow> instant option)" where
  "stamps entries k = map_option rw_started_at (tget entries k)"

definition rate_table_wf :: "u32 \<Rightarrow> instant \<Rightarrow> 'k rate_table \<Rightarrow> bool" where
  "rate_table_wf max_attempts latest t \<longleftrightarrow>
     table_wf (rt_entries t) \<and> table_wf (rt_order t) \<and>
     stamps (rt_entries t) = map_of (rt_order t) \<and>
     sorted (map snd (rt_order t)) \<and> (\<forall>(k, s) \<in> set (rt_order t). s \<le> latest) \<and>
     length (rt_entries t) \<le> MAX_TRACKED_JOIN_KEYS \<and>
     (\<forall>k w. tget (rt_entries t) k = Some w \<longrightarrow> rw_attempts w \<le> max_attempts) \<and>
     (\<forall>w. rt_overflow t = Some w \<longrightarrow> rw_attempts w \<le> max_attempts)"

definition live :: "instant \<Rightarrow> rate_window \<Rightarrow> bool" where
  "live now w \<longleftrightarrow> duration_since now (rw_started_at w) < JOIN_RATE_WINDOW"

lemma stamps_tdel: "stamps (tdel k e) = (stamps e)(k := None)"
  by (auto simp: stamps_def)

lemma stamps_None: "stamps e k = None \<longleftrightarrow> tget e k = None"
  by (simp add: stamps_def)

lemma retain_all: "(\<And>k v. (k, v) \<in> set t \<Longrightarrow> P k v) \<Longrightarrow> retain P t = t"
  by (auto simp: retain_def intro: filter_True)

lemma retain_tdel:
  assumes "table_wf t" and "\<And>v. tget t k = Some v \<Longrightarrow> \<not> P k v"
  shows "retain P (tdel k t) = retain P t"
proof -
  have "filter (\<lambda>x. (case x of (a, v) \<Rightarrow> P a v) \<and> (case x of (a, v) \<Rightarrow> k \<noteq> a)) t
      = filter (\<lambda>(a, v). P a v) t"
    using assms by (intro filter_cong refl) (auto simp: map_of_in_set)
  then show ?thesis by (simp add: retain_def AList.delete_eq filter_filter conj_commute split_def)
qed

text \<open>The loop removes exactly the expired windows and their stamps.\<close>

lemma reclaim_retains_live:
  assumes "table_wf e" and "table_wf ord" and "stamps e = map_of ord" and "sorted (map snd ord)"
  shows "reclaim now e ord
    = (retain (\<lambda>_. live now) e, retain (\<lambda>_ s. duration_since now s < JOIN_RATE_WINDOW) ord)"
  using assms
proof (induction now e ord rule: reclaim.induct)
  case (1 now entries)
  then have "entries = []" by (metis list.set_intros(1) map_of.simps(1) map_of_eq_None_iff
        neq_Nil_conv stamps_None image_eqI empty_iff)
  then show ?case by (simp add: retain_def)
next
  case (2 now e key stamp ord)
  from "2.prems"(3) have "stamps e key = Some stamp" by simp
  then obtain w where w: "tget e key = Some w" "rw_started_at w = stamp"
    by (auto simp: stamps_def)
  show ?case
  proof (cases "JOIN_RATE_WINDOW \<le> duration_since now stamp")
    case True
    have "key \<notin> fst ` set ord" and wf: "table_wf ord" using "2.prems"(2) by (auto simp: table_wf_def)
    then have "map_of ord key = None" by (simp add: map_of_eq_None_iff)
    then have st: "stamps (tdel key e) = map_of ord"
      using "2.prems"(3) by (auto simp: stamps_tdel)
    have "reclaim now (tdel key e) ord
      = (retain (\<lambda>_. live now) (tdel key e), retain (\<lambda>_ s. duration_since now s < JOIN_RATE_WINDOW) ord)"
      using "2.IH"(3) [OF w(1)] "2.prems"(1,4) st wf w True by simp
    moreover have "retain (\<lambda>_. live now) (tdel key e) = retain (\<lambda>_. live now) e"
      using "2.prems"(1) w True by (intro retain_tdel) (auto simp: live_def)
    ultimately show ?thesis using w True by (simp add: retain_def)
  next
    case False
    have later: "duration_since now s < JOIN_RATE_WINDOW" if "(k, s) \<in> set ((key, stamp) # ord)" for k s
    proof -
      have "stamp \<le> s" using that "2.prems"(4) by force
      then show ?thesis using False by (auto simp: duration_since_def)
    qed
    moreover have "live now v" if "(k, v) \<in> set e" for k v
    proof -
      have "stamps e k = Some (rw_started_at v)"
        using that "2.prems"(1) by (simp add: stamps_def map_of_in_set)
      then have "(k, rw_started_at v) \<in> set ((key, stamp) # ord)"
        using "2.prems"(3) by (metis map_of_SomeD)
      then show ?thesis using later by (simp add: live_def)
    qed
    ultimately have "retain (\<lambda>_. live now) e = e"
      and "retain (\<lambda>_ s. duration_since now s < JOIN_RATE_WINDOW) ((key, stamp) # ord) = (key, stamp) # ord"
      by (auto intro!: retain_all)
    then show ?thesis using w False by simp
  qed
qed

lemma reclaim_expired_eq:
  assumes "rate_table_wf m latest t"
  shows "reclaim_expired now t = t\<lparr>rt_entries := retain (\<lambda>_. live now) (rt_entries t),
     rt_order := retain (\<lambda>_ s. duration_since now s < JOIN_RATE_WINDOW) (rt_order t)\<rparr>"
proof -
  have "reclaim now (rt_entries t) (rt_order t) = (retain (\<lambda>_. live now) (rt_entries t),
      retain (\<lambda>_ s. duration_since now s < JOIN_RATE_WINDOW) (rt_order t))"
    by (rule reclaim_retains_live) (use assms in \<open>simp_all add: rate_table_wf_def\<close>)
  then show ?thesis by (simp only: reclaim_expired_def Let_def prod.case)
qed

lemma stamps_retain:
  "table_wf e \<Longrightarrow> table_wf ord \<Longrightarrow> stamps e = map_of ord \<Longrightarrow>
     stamps (retain (\<lambda>_. live now) e) = map_of (retain (\<lambda>_ s. duration_since now s < JOIN_RATE_WINDOW) ord)"
proof (rule ext)
  fix k
  assume wf: "table_wf e" "table_wf ord" and "stamps e = map_of ord"
  then have "map_option rw_started_at (tget e k) = map_of ord k" by (metis stamps_def)
  with wf show "stamps (retain (\<lambda>_. live now) e) k
      = map_of (retain (\<lambda>_ s. duration_since now s < JOIN_RATE_WINDOW) ord) k"
    by (cases "tget e k") (auto simp: stamps_def map_of_retain live_def dest: sym)
qed

lemma sorted_snd_retain: "sorted (map snd t) \<Longrightarrow> sorted (map snd (retain P t))"
  by (simp add: retain_def sorted_filter)

lemma set_retain: "set (retain P t) \<subseteq> set t"
  by (auto simp: retain_def)

lemma rate_table_wf_reclaim:
  assumes "rate_table_wf m latest t"
  shows "rate_table_wf m latest (reclaim_expired now t)"
    and "\<And>k w. tget (rt_entries (reclaim_expired now t)) k = Some w \<longleftrightarrow>
           tget (rt_entries t) k = Some w \<and> live now w"
    and "rt_overflow (reclaim_expired now t) = rt_overflow t"
proof -
  note eq = reclaim_expired_eq [OF assms, of now]
  have wf: "table_wf (rt_entries t)" "table_wf (rt_order t)" using assms by (auto simp: rate_table_wf_def)
  show get: "\<And>k w. tget (rt_entries (reclaim_expired now t)) k = Some w \<longleftrightarrow>
           tget (rt_entries t) k = Some w \<and> live now w"
    using wf by (simp add: eq map_of_retain_Some)
  show "rt_overflow (reclaim_expired now t) = rt_overflow t" by (simp add: eq)
  show "rate_table_wf m latest (reclaim_expired now t)"
    unfolding rate_table_wf_def
  proof (intro conjI)
    show "stamps (rt_entries (reclaim_expired now t)) = tget (rt_order (reclaim_expired now t))"
      using stamps_retain [OF wf] assms by (simp add: eq rate_table_wf_def)
    show "\<forall>(k, s) \<in> set (rt_order (reclaim_expired now t)). s \<le> latest"
      using assms set_retain [of _ "rt_order t"] by (simp add: eq rate_table_wf_def) blast
    show "length (rt_entries (reclaim_expired now t)) \<le> MAX_TRACKED_JOIN_KEYS"
      using assms length_retain_le [of _ "rt_entries t"] by (simp add: eq rate_table_wf_def) (meson le_trans)
  qed (use assms wf get in \<open>auto simp: eq rate_table_wf_def sorted_snd_retain\<close>)
qed

lemma spend_attempt_le: "rw_attempts w \<le> m \<Longrightarrow> rw_attempts (snd (spend_attempt m w)) \<le> m"
  by (auto simp: spend_attempt_def not_le intro: inc_le)

lemma spend_attempt_started: "rw_started_at (snd (spend_attempt m w)) = rw_started_at w"
  by (simp add: spend_attempt_def)

lemma rate_table_wf_overflow:
  "rate_table_wf m latest t \<Longrightarrow> rate_table_wf m latest (snd (allow_overflow m now t))"
  by (auto simp: rate_table_wf_def allow_overflow_def Let_def split_beta restart_if_expired_def
      intro!: spend_attempt_le split: option.splits)

text \<open>A tracked attempt on a table whose windows are all live.\<close>

lemma allow_tracked_present:
  assumes "tget (rt_entries t) k = Some w" and "live now w"
  shows "allow_tracked m k now t
    = (fst (spend_attempt m w), t\<lparr>rt_entries := tput k (snd (spend_attempt m w)) (rt_entries t)\<rparr>)"
  using assms by (simp add: allow_tracked_def Let_def split_beta restart_if_expired_def live_def not_le)

lemma allow_tracked_absent:
  fixes now :: instant
  assumes "tget (rt_entries t) k = None"
  defines "w \<equiv> \<lparr>rw_started_at = now, rw_attempts = 0\<rparr>"
  shows "allow_tracked m k now t
    = (fst (spend_attempt m w), t\<lparr>rt_entries := tput k (snd (spend_attempt m w)) (rt_entries t),
         rt_order := rt_order t @ [(k, now)]\<rparr>)"
  using assms by (simp add: allow_tracked_def Let_def split_beta)

lemma rate_table_wf_tracked:
  assumes wf: "rate_table_wf m latest t" and "latest \<le> now"
    and live: "\<And>w. tget (rt_entries t) k = Some w \<Longrightarrow> live now w"
    and room: "contains_key (rt_entries t) k \<or> length (rt_entries t) < MAX_TRACKED_JOIN_KEYS"
  shows "rate_table_wf m now (snd (allow_tracked m k now t))"
proof (cases "tget (rt_entries t) k")
  case None
  have st: "stamps (rt_entries t) = map_of (rt_order t)" using wf by (simp add: rate_table_wf_def)
  then have fresh: "map_of (rt_order t) k = None" using None by (metis stamps_None)
  have "table_wf (rt_order t @ [(k, now)])"
    using wf fresh by (auto simp: rate_table_wf_def table_wf_def map_of_eq_None_iff)
  moreover have "map_of (rt_order t @ [(k, now)]) = (map_of (rt_order t))(k \<mapsto> now)"
    using fresh by (auto simp: map_add_def fun_eq_iff split: option.splits)
  moreover have "stamps (tput k v (rt_entries t)) = (map_of (rt_order t))(k \<mapsto> rw_started_at v)" for v
    using st by (auto simp: stamps_def fun_eq_iff)
  ultimately show ?thesis
    using wf room None assms(2) spend_attempt_le [of "\<lparr>rw_started_at = now, rw_attempts = 0\<rparr>" m]
    by (auto simp: rate_table_wf_def allow_tracked_absent spend_attempt_started length_tput
        contains_key_def sorted_append)
next
  case (Some w)
  have "stamps (tput k v (rt_entries t)) = stamps (rt_entries t)" if "rw_started_at v = rw_started_at w" for v
    using Some that by (auto simp: stamps_def fun_eq_iff)
  then have "stamps (tput k (snd (spend_attempt m w)) (rt_entries t)) = stamps (rt_entries t)"
    by (simp add: spend_attempt_started)
  then show ?thesis
    using wf Some assms(2) spend_attempt_le [of w m]
    by (auto simp: rate_table_wf_def allow_tracked_present [OF Some live [OF Some]] length_tput
        contains_key_def)
qed

definition rate_limiter_wf :: "instant \<Rightarrow> 'k shared_rate_limiter \<Rightarrow> bool" where
  "rate_limiter_wf latest l \<longleftrightarrow> rate_table_wf (rl_max_attempts l) latest (rl_table l)"

lemma rate_limiter_wf_new: "rate_limiter_wf 0 (shared_rate_limiter_new m)"
  by (simp add: rate_limiter_wf_def rate_table_wf_def shared_rate_limiter_new_def stamps_def fun_eq_iff)

lemma rate_table_wf_later: "rate_table_wf m a t \<Longrightarrow> a \<le> b \<Longrightarrow> rate_table_wf m b t"
  by (auto simp: rate_table_wf_def)

lemma allow_eq:
  "allow key now l =
     (let t = reclaim_expired now (rl_table l);
          r = (if MAX_TRACKED_JOIN_KEYS \<le> length (rt_entries t) \<and> \<not> contains_key (rt_entries t) key
               then allow_overflow (rl_max_attempts l) now t
               else allow_tracked (rl_max_attempts l) key now t) in
      (fst r, l\<lparr>rl_table := snd r\<rparr>))"
  by (simp only: allow_def Let_def split_beta)

lemma rate_limiter_wf_allow [wf_intros]:
  assumes "rate_limiter_wf latest l" and "latest \<le> now"
  shows "rate_limiter_wf now (snd (allow k now l))"
proof -
  define t where "t = reclaim_expired now (rl_table l)"
  define m where "m = rl_max_attempts l"
  have wf: "rate_table_wf m latest t"
    and live: "\<And>w. tget (rt_entries t) k = Some w \<Longrightarrow> live now w"
    using rate_table_wf_reclaim(1,2) [of m latest "rl_table l" now] assms(1)
    by (simp_all add: rate_limiter_wf_def t_def m_def)
  show ?thesis
  proof (cases "MAX_TRACKED_JOIN_KEYS \<le> length (rt_entries t) \<and> \<not> contains_key (rt_entries t) k")
    case True
    then have "allow k now l = (fst (allow_overflow m now t), l\<lparr>rl_table := snd (allow_overflow m now t)\<rparr>)"
      by (simp add: allow_eq Let_def t_def [symmetric] m_def [symmetric])
    moreover have "rate_table_wf m now (snd (allow_overflow m now t))"
      by (rule rate_table_wf_later [OF rate_table_wf_overflow [OF wf] assms(2)])
    ultimately show ?thesis by (simp add: rate_limiter_wf_def m_def)
  next
    case False
    then have "allow k now l = (fst (allow_tracked m k now t), l\<lparr>rl_table := snd (allow_tracked m k now t)\<rparr>)"
      by (auto simp: allow_eq Let_def t_def [symmetric] m_def [symmetric])
    moreover have "contains_key (rt_entries t) k \<or> length (rt_entries t) < MAX_TRACKED_JOIN_KEYS"
      using False by auto
    then have "rate_table_wf m now (snd (allow_tracked m k now t))"
      by (intro rate_table_wf_tracked [OF wf assms(2)] live) auto
    ultimately show ?thesis by (simp add: rate_limiter_wf_def m_def)
  qed
qed

section \<open>Reclaiming is invisible\<close>

text \<open>
  The contract of the limiter: every key has a fixed window of its own, kept for ever, that
  restarts with the first attempt after it has elapsed.
\<close>

definition windows_allow :: "u32 \<Rightarrow> 'k \<Rightarrow> instant \<Rightarrow> ('k \<Rightarrow> rate_window option) \<Rightarrow>
    bool \<times> ('k \<Rightarrow> rate_window option)" where
  "windows_allow m key now f =
     (let w = (case f key of None \<Rightarrow> \<lparr>rw_started_at = now, rw_attempts = 0\<rparr>
                           | Some w \<Rightarrow> restart_if_expired now w);
          r = spend_attempt m w in
      (fst r, f(key \<mapsto> snd r)))"

definition tracks :: "instant \<Rightarrow> 'k shared_rate_limiter \<Rightarrow> ('k \<Rightarrow> rate_window option) \<Rightarrow> bool" where
  "tracks latest l f \<longleftrightarrow>
     (\<forall>k w. tget (rt_entries (rl_table l)) k = Some w \<longrightarrow> f k = Some w) \<and>
     (\<forall>k w. f k = Some w \<longrightarrow> tget (rt_entries (rl_table l)) k = Some w \<or> \<not> live latest w)"

lemma live_antimono: "live later w \<Longrightarrow> earlier \<le> later \<Longrightarrow> live earlier w"
  by (auto simp: live_def duration_since_def)

lemma restart_live: "live now w \<Longrightarrow> restart_if_expired now w = w"
  by (simp add: live_def restart_if_expired_def)

lemma restart_expired: "\<not> live now w \<Longrightarrow> restart_if_expired now w = \<lparr>rw_started_at = now, rw_attempts = 0\<rparr>"
  by (simp add: live_def restart_if_expired_def not_less)

text \<open>A full table makes room for every key it tracks, even one whose window has elapsed.\<close>

lemma tracked_after_reclaim:
  fixes now :: instant
  assumes wf: "rate_table_wf m latest t"
    and room: "contains_key (rt_entries t) k \<or> length (rt_entries t) < MAX_TRACKED_JOIN_KEYS"
  defines "r \<equiv> reclaim_expired now t"
  shows "\<not> (MAX_TRACKED_JOIN_KEYS \<le> length (rt_entries r) \<and> \<not> contains_key (rt_entries r) k)"
proof (cases "length (rt_entries t) < MAX_TRACKED_JOIN_KEYS")
  case True
  have "length (rt_entries r) \<le> length (rt_entries t)"
    by (simp add: r_def reclaim_expired_eq [OF wf] length_retain_le)
  with True show ?thesis by simp
next
  case False
  then obtain v where v: "tget (rt_entries t) k = Some v" using room by (auto simp: contains_key_def)
  show ?thesis
  proof (cases "live now v")
    case True
    then show ?thesis
      using v rate_table_wf_reclaim(2) [OF wf, of now k v] by (simp add: contains_key_def r_def)
  next
    case dead: False
    have "length (rt_entries r) < length (rt_entries t)"
      using map_of_SomeD [OF v] dead
      by (auto simp: r_def reclaim_expired_eq [OF wf] retain_def intro!: length_filter_less)
    then show ?thesis using wf by (simp add: rate_table_wf_def)
  qed
qed

lemma allow_tracked_windows:
  assumes live: "\<And>v. tget (rt_entries t) k = Some v \<Longrightarrow> f k = Some v \<and> live now v"
    and held: "\<And>v. f k = Some v \<Longrightarrow> live now v \<Longrightarrow> tget (rt_entries t) k = Some v"
  shows "\<exists>w. rt_entries (snd (allow_tracked m k now t)) = tput k w (rt_entries t) \<and>
     windows_allow m k now f = (fst (allow_tracked m k now t), f(k \<mapsto> w))"
proof (cases "tget (rt_entries t) k")
  case None
  then have "\<And>v. f k = Some v \<Longrightarrow> \<not> live now v" using held by force
  then show ?thesis
    by (auto simp: allow_tracked_absent [OF None] windows_allow_def Let_def restart_expired
        split: option.splits)
next
  case (Some v)
  then show ?thesis
    using live [OF Some]
    by (auto simp: allow_tracked_present [OF Some] windows_allow_def Let_def restart_live)
qed

lemma tracked_step:
  assumes wf: "rate_limiter_wf latest l" and fwd: "latest \<le> now" and tr: "tracks latest l f"
    and room: "contains_key (rt_entries (rl_table l)) k \<or> length (rt_entries (rl_table l)) < MAX_TRACKED_JOIN_KEYS"
  shows "fst (allow k now l) = fst (windows_allow (rl_max_attempts l) k now f)"
    and "tracks now (snd (allow k now l)) (snd (windows_allow (rl_max_attempts l) k now f))"
    and "contains_key (rt_entries (rl_table (snd (allow k now l)))) j
           \<Longrightarrow> j = k \<or> contains_key (rt_entries (rl_table l)) j"
proof -
  define t where "t = reclaim_expired now (rl_table l)"
  define m where "m = rl_max_attempts l"
  have twf: "rate_table_wf m latest (rl_table l)" using wf by (simp add: rate_limiter_wf_def m_def)
  note get = rate_table_wf_reclaim(2) [OF twf, of now, folded t_def]
  have tl: "tget (rt_entries t) j = Some v \<Longrightarrow> f j = Some v \<and> live now v" for j v
    using tr by (simp add: get tracks_def)
  have ft: "f j = Some v \<Longrightarrow> live now v \<Longrightarrow> tget (rt_entries t) j = Some v" for j v
  proof -
    assume f: "f j = Some v" and v: "live now v"
    have "live latest v" by (rule live_antimono [OF v fwd])
    then show "tget (rt_entries t) j = Some v" using tr f v by (auto simp: get tracks_def)
  qed
  have al: "allow k now l = (fst (allow_tracked m k now t), l\<lparr>rl_table := snd (allow_tracked m k now t)\<rparr>)"
    using tracked_after_reclaim [OF twf room, of now]
    by (simp only: allow_eq Let_def t_def [symmetric] m_def [symmetric] if_False)
  have "\<exists>w. rt_entries (snd (allow_tracked m k now t)) = tput k w (rt_entries t) \<and>
      windows_allow m k now f = (fst (allow_tracked m k now t), f(k \<mapsto> w))"
    by (rule allow_tracked_windows) (erule tl, erule (1) ft)
  then obtain w where w: "rt_entries (snd (allow_tracked m k now t)) = tput k w (rt_entries t)"
      "windows_allow m k now f = (fst (allow_tracked m k now t), f(k \<mapsto> w))"
    by (elim exE conjE)
  show "fst (allow k now l) = fst (windows_allow (rl_max_attempts l) k now f)"
    using al w by (simp add: m_def)
  show "tracks now (snd (allow k now l)) (snd (windows_allow (rl_max_attempts l) k now f))"
    unfolding tracks_def
  proof (intro conjI allI impI)
    fix j v
    let ?e = "rt_entries (rl_table (snd (allow k now l)))"
      and ?f = "snd (windows_allow (rl_max_attempts l) k now f)"
    have e: "tget ?e = (tget (rt_entries t))(k \<mapsto> w)" and f: "?f = f(k \<mapsto> w)"
      using al w by (simp_all add: m_def fun_eq_iff)
    show "?f j = Some v" if "tget ?e j = Some v"
      using that tl [of j v] unfolding e f by (cases "j = k") auto
    show "tget ?e j = Some v \<or> \<not> live now v" if "?f j = Some v"
      using that ft [of j v] unfolding e f by (cases "j = k") auto
  qed
  show "contains_key (rt_entries (rl_table (snd (allow k now l)))) j
      \<Longrightarrow> j = k \<or> contains_key (rt_entries (rl_table l)) j"
    using al w get by (auto simp: contains_key_def split: if_splits)
qed

lemma allow_max_attempts: "rl_max_attempts (snd (allow k now l)) = rl_max_attempts l"
  by (simp add: allow_eq Let_def)

lemma run_tracked:
  assumes "rate_limiter_wf latest l" and "tracks latest l f" and "sorted (latest # map snd calls)"
    and "\<And>j. contains_key (rt_entries (rl_table l)) j \<Longrightarrow> j \<in> K"
    and "fst ` set calls \<subseteq> K" and "finite K" and "card K \<le> MAX_TRACKED_JOIN_KEYS"
  shows "fst (run_calls (\<lambda>(k, now). allow k now) calls l)
       = fst (run_calls (\<lambda>(k, now). windows_allow (rl_max_attempts l) k now) calls f)"
  using assms
proof (induction calls arbitrary: latest l f)
  case Nil
  then show ?case by simp
next
  case (Cons c calls)
  obtain k now where c: "c = (k, now)" by (cases c)
  have fwd: "latest \<le> now" using Cons.prems(3) c by simp
  let ?e = "rt_entries (rl_table l)"
  have "contains_key ?e k \<or> length ?e < MAX_TRACKED_JOIN_KEYS"
  proof (rule disjCI)
    assume full: "\<not> length ?e < MAX_TRACKED_JOIN_KEYS"
    have "distinct (map fst ?e)"
      using Cons.prems(1) by (simp add: rate_limiter_wf_def rate_table_wf_def table_wf_def)
    then have "card (fst ` set ?e) = length ?e" by (metis distinct_card length_map list.set_map)
    moreover have "fst ` set ?e \<subseteq> K" using Cons.prems(4) by (auto simp: contains_key_dom)
    ultimately have "fst ` set ?e = K"
      using full Cons.prems(6,7) by (intro card_seteq) auto
    then show "contains_key ?e k" using Cons.prems(5) c by (auto simp: contains_key_dom)
  qed
  note st = tracked_step [OF Cons.prems(1) fwd Cons.prems(2) this]
  have "sorted (now # map snd calls)" using Cons.prems(3) c by simp
  moreover have "j \<in> K" if "contains_key (rt_entries (rl_table (snd (allow k now l)))) j" for j
    using st(3) [OF that] Cons.prems(4,5) c by auto
  ultimately show ?case
    using Cons.IH [OF rate_limiter_wf_allow [OF Cons.prems(1) fwd] st(2)] Cons.prems(5-7) st(1)
    by (simp add: c run_calls_Cons allow_max_attempts del: run_calls.simps(2))
qed

lemma run_rate_limiter_wf:
  "rate_limiter_wf latest l \<Longrightarrow> sorted (latest # map snd calls) \<Longrightarrow>
     \<exists>final. rate_limiter_wf final (snd (run_calls (\<lambda>(k, now). allow k now) calls l))"
proof (induction calls arbitrary: latest l)
  case Nil
  then show ?case by auto
next
  case (Cons c calls)
  then show ?case
    using Cons.IH [OF rate_limiter_wf_allow [OF Cons.prems(1)]]
    by (cases c) (simp add: run_calls_Cons del: run_calls.simps(2))
qed

lemma tracks_new: "tracks 0 (shared_rate_limiter_new m) (\<lambda>_. None)"
  by (simp add: tracks_def shared_rate_limiter_new_def)

lemma shared_rate_limiter_new_simps [simp]:
  "rl_max_attempts (shared_rate_limiter_new m) = m"
  "rt_entries (rl_table (shared_rate_limiter_new m)) = []"
  by (simp_all add: shared_rate_limiter_new_def)

text \<open>
  C23: as long as no more identities attempt to join than the table can track, the join limiter
  answers every sequence of attempts (at a clock that does not run backwards) as if every
  identity had a fixed one-minute window of its own that is never reclaimed: reclaiming from
  the front of the stamp queue neither renews a live allowance nor keeps an elapsed one.
\<close>

theorem join_limiter_refines_windows:
  assumes "sorted (map snd calls)" and "card (fst ` set calls) \<le> MAX_TRACKED_JOIN_KEYS"
  shows "fst (run_calls (\<lambda>(k, now). allow k now) calls (shared_rate_limiter_new m))
       = fst (run_calls (\<lambda>(k, now). windows_allow m k now) calls (\<lambda>_. None))"
  using run_tracked [of 0 "shared_rate_limiter_new m" "\<lambda>_. None" calls "fst ` set calls"]
    assms
  by (simp add: rate_limiter_wf_new tracks_new)

text \<open>One attempt a minute for two keys: the second attempt of the first key waits.\<close>

theorem join_limiter_refines_windows_witness:
  "fst (run_calls (\<lambda>(k, now). windows_allow 1 k now)
     [(1 :: nat, 0), (2, 5), (1, from_secs 59), (1, from_secs 60)] (\<lambda>_. None))
   = [True, True, False, True]"
proof -
  let ?calls = "[(1 :: nat, 0), (2, 5), (1, from_secs 59), (1, from_secs 60)]"
  have "fst (run_calls (\<lambda>(k, now). allow k now) ?calls (shared_rate_limiter_new 1))
      = [True, True, False, True]"
    by (simp add: shared_rate_limiter_new_def allow_def reclaim_expired_def allow_tracked_def
        spend_attempt_def restart_if_expired_def duration_since_def JOIN_RATE_WINDOW_def
        MAX_TRACKED_JOIN_KEYS_def from_secs_def)
  moreover have "fst ` set ?calls = {1, 2}" by auto
  then have "card (fst ` set ?calls) \<le> MAX_TRACKED_JOIN_KEYS" by (simp add: MAX_TRACKED_JOIN_KEYS_def)
  moreover have "sorted (map snd ?calls)" by (simp add: from_secs_def)
  ultimately show ?thesis using join_limiter_refines_windows [of ?calls 1] by simp
qed

text \<open>
  C24: whatever keys attempt to join, in any order, the limiter's memory stays bounded: at most
  \<^const>\<open>MAX_TRACKED_JOIN_KEYS\<close> windows and exactly one stamp for each of them, and no window (the
  shared overflow window included) ever records more than the allowance.
\<close>

theorem join_limiter_bounded:
  assumes "sorted (map snd calls)"
    and "l = snd (run_calls (\<lambda>(k, now). allow k now) calls (shared_rate_limiter_new m))"
  shows "length (rt_entries (rl_table l)) \<le> MAX_TRACKED_JOIN_KEYS
    \<and> length (rt_order (rl_table l)) = length (rt_entries (rl_table l))
    \<and> (\<forall>k w. tget (rt_entries (rl_table l)) k = Some w \<longrightarrow> rw_attempts w \<le> m)
    \<and> (\<forall>w. rt_overflow (rl_table l) = Some w \<longrightarrow> rw_attempts w \<le> m)"
proof -
  have m: "rl_max_attempts (snd (run_calls (\<lambda>(k, now). allow k now) calls l')) = rl_max_attempts l'" for l'
    by (induction calls arbitrary: l')
      (auto simp: run_calls_Cons allow_max_attempts split_beta simp del: run_calls.simps(2))
  obtain final where "rate_limiter_wf final l"
    using run_rate_limiter_wf [OF rate_limiter_wf_new, of calls m] assms by auto
  then have wf: "rate_table_wf m final (rl_table l)"
    using m [of "shared_rate_limiter_new m"] by (simp add: rate_limiter_wf_def assms(2))
  then have "dom (map_of (rt_order (rl_table l))) = dom (map_of (rt_entries (rl_table l)))"
    unfolding rate_table_wf_def by (metis (mono_tags, lifting) dom_def stamps_None Collect_cong)
  then have "fst ` set (rt_order (rl_table l)) = fst ` set (rt_entries (rl_table l))"
    by (simp add: dom_map_of_conv_image_fst)
  then have "length (rt_order (rl_table l)) = length (rt_entries (rl_table l))"
    using wf by (metis rate_table_wf_def table_wf_def distinct_card length_map list.set_map)
  then show ?thesis using wf by (auto simp: rate_table_wf_def)
qed

theorem join_limiter_bounded_witness:
  "length (rt_order (rl_table (snd (run_calls (\<lambda>(k, now). allow k now)
     [(1 :: nat, 0), (2, 5), (1, from_secs 70)] (shared_rate_limiter_new 1)))))
   = length (rt_entries (rl_table (snd (run_calls (\<lambda>(k, now). allow k now)
     [(1 :: nat, 0), (2, 5), (1, from_secs 70)] (shared_rate_limiter_new 1)))))"
  using join_limiter_bounded [OF _ refl, of "[(1 :: nat, 0), (2, 5), (1, from_secs 70)]" 1]
  by (simp add: from_secs_def del: run_calls.simps)

end
