(* ===== verification/Room_State.thy ===== *)
theory Room_State
  imports Wire_Messages Join_Rates
begin

text \<open>
  A runtime room (\<^verbatim>\<open>Room\<close>, \<^verbatim>\<open>Participant\<close> and \<^verbatim>\<open>LobbyEntry\<close> in \<^verbatim>\<open>src/room/mod.rs\<close>) with its
  helper operations: names, bans, broadcasts, cohorts and sanctions. An outbound channel is a
  number (\<^verbatim>\<open>same_channel\<close> is equality, \<^verbatim>\<open>is_closed\<close> the parameter \<^verbatim>\<open>closed\<close>), and every
  attempted send is an effect, in order. Metrics and log lines are left out; the observers of
  the media server are part of the media layer.
\<close>

section \<open>Data\<close>

type_synonym chan = nat

record producer_record =
  pr_kind :: media_kind
  pr_source :: "string option"
  pr_paused :: bool

record participant_social =
  ps_connected :: bool
  ps_chat_session_id :: uuid
  ps_chat_high_water :: u64
  ps_joined_sequence :: u64
  ps_allow_private_messages :: bool
  ps_ignored :: "participant_id list"
  ps_guest_ignored :: "participant_id list"
  ps_last_typing :: "instant option"

record participant =
  pt_social :: participant_social
  pt_id :: participant_id
  pt_name :: string
  pt_sender :: chan
  pt_media_session_id :: uuid
  pt_producers :: "(producer_id, producer_record) table"
  pt_role :: role
  pt_punitive :: punitive_state
  pt_authenticated :: bool
  pt_ip :: "ip_addr option"
  pt_chat_style :: chat_style

record lobby_entry =
  le_participant_id :: participant_id
  le_name :: string
  le_sender :: chan
  le_chat_style :: chat_style
  le_media_session_id :: uuid
  le_authenticated :: bool
  le_reconnect_token :: string
  le_in_lobby_flag :: nat
  le_ip :: "ip_addr option"
  le_role :: role
  le_punitive :: punitive_state

record room =
  rm_social :: room_social
  rm_id :: room_id
  rm_participants :: "(participant_id, participant) table"
  rm_settings :: "room_settings option"
  rm_broadcaster_ceiling :: "nat option"
  rm_persisted :: bool
  rm_password_hash :: "string option"
  rm_last_password_hash_at :: "instant option"
  rm_chat_broadcasts :: sliding_window
  rm_media_mutations :: sliding_window
  rm_media_control_ipc :: sliding_window
  rm_voice_requests :: sliding_window
  rm_admin_mutations :: sliding_window
  rm_producer_to_participant :: "(producer_id, participant_id) table"
  rm_banned_participants :: "(participant_id, instant option) table"
  rm_banned_guest_ips :: "(ip_addr, instant option) table"
  rm_banned_guest_participants :: "participant_id list"
  rm_policy_revision :: u64
  rm_pending_joins :: nat
  rm_sanctions :: "(sanction_key, punitive_state) table"
  rm_deleting :: bool
  rm_lobby :: "(participant_id, lobby_entry) table"

text \<open>
  What an operation does besides changing the room: it tries to enqueue a message on a channel,
  or tells a connection that it no longer waits in a lobby.
\<close>

datatype effect = Send chan server_message | ClearLobbyFlag nat

text \<open>
  A \<^verbatim>\<open>for\<close> loop whose body changes the room and sends: the effects of each round follow those
  of the rounds before.
\<close>

fun for_each :: "('a \<Rightarrow> room \<Rightarrow> room \<times> effect list) \<Rightarrow> 'a list \<Rightarrow> room \<Rightarrow> room \<times> effect list" where
  "for_each body [] room = (room, [])"
| "for_each body (x # xs) room =
     (let (room', sent) = body x room; (room'', rest) = for_each body xs room' in (room'', sent @ rest))"

section \<open>A new room\<close>

definition ROOM_CHAT_WINDOW :: duration where "ROOM_CHAT_WINDOW = from_secs 1"
definition MAX_ROOM_CHAT_MESSAGES_PER_WINDOW :: nat where "MAX_ROOM_CHAT_MESSAGES_PER_WINDOW = 10"
definition ROOM_MEDIA_MUTATION_WINDOW :: duration where "ROOM_MEDIA_MUTATION_WINDOW = from_secs 1"
definition MAX_ROOM_MEDIA_MUTATIONS_PER_WINDOW :: nat where "MAX_ROOM_MEDIA_MUTATIONS_PER_WINDOW = 20"
definition ROOM_MEDIA_CONTROL_IPC_WINDOW :: duration where "ROOM_MEDIA_CONTROL_IPC_WINDOW = from_secs 1"
definition MAX_ROOM_MEDIA_CONTROL_IPC_PER_WINDOW :: nat where "MAX_ROOM_MEDIA_CONTROL_IPC_PER_WINDOW = 2048"
definition ROOM_VOICE_REQUEST_WINDOW :: duration where "ROOM_VOICE_REQUEST_WINDOW = from_secs 10"
definition MAX_ROOM_VOICE_REQUESTS_PER_WINDOW :: nat where "MAX_ROOM_VOICE_REQUESTS_PER_WINDOW = 5"
definition ROOM_ADMIN_MUTATION_WINDOW :: duration where "ROOM_ADMIN_MUTATION_WINDOW = from_secs 1"
definition MAX_ROOM_ADMIN_MUTATIONS_PER_WINDOW :: nat where "MAX_ROOM_ADMIN_MUTATIONS_PER_WINDOW = 20"

definition new_with_observers ::
  "room_id \<Rightarrow> room_settings option \<Rightarrow> bool \<Rightarrow> string option \<Rightarrow> room" where
  "new_with_observers room_id settings persisted password_hash =
     \<lparr>rm_social = social_default, rm_id = room_id, rm_participants = [], rm_settings = settings,
      rm_broadcaster_ceiling = None, rm_persisted = persisted, rm_password_hash = password_hash,
      rm_last_password_hash_at = None,
      rm_chat_broadcasts = sliding_window_new ROOM_CHAT_WINDOW MAX_ROOM_CHAT_MESSAGES_PER_WINDOW,
      rm_media_mutations =
        sliding_window_new ROOM_MEDIA_MUTATION_WINDOW MAX_ROOM_MEDIA_MUTATIONS_PER_WINDOW,
      rm_media_control_ipc =
        sliding_window_new ROOM_MEDIA_CONTROL_IPC_WINDOW MAX_ROOM_MEDIA_CONTROL_IPC_PER_WINDOW,
      rm_voice_requests = sliding_window_new ROOM_VOICE_REQUEST_WINDOW MAX_ROOM_VOICE_REQUESTS_PER_WINDOW,
      rm_admin_mutations = sliding_window_new ROOM_ADMIN_MUTATION_WINDOW MAX_ROOM_ADMIN_MUTATIONS_PER_WINDOW,
      rm_producer_to_participant = [], rm_banned_participants = [], rm_banned_guest_ips = [],
      rm_banned_guest_participants = [], rm_policy_revision = 0, rm_pending_joins = 1,
      rm_sanctions = [], rm_deleting = False, rm_lobby = []\<rparr>"

section \<open>Participants\<close>

definition participant_social_new :: "uuid \<Rightarrow> u64 \<Rightarrow> participant_social" where
  "participant_social_new session joined_sequence =
     \<lparr>ps_connected = True, ps_chat_session_id = session, ps_chat_high_water = 0,
      ps_joined_sequence = joined_sequence, ps_allow_private_messages = True, ps_ignored = [],
      ps_guest_ignored = [], ps_last_typing = None\<rparr>"

datatype timestamp_format = Hover | Time | Time12 | Seconds | Datetime

text \<open>An ignored person's identifier is the participant it parses as, when it parses.\<close>

record ignored_person =
  ig_id :: "participant_id option"
  ig_name :: string

record chat_preferences =
  pf_allow_private_messages :: bool
  pf_sounds :: bool
  pf_large_text :: bool
  pf_timestamps :: timestamp_format
  pf_ignored :: "ignored_person list"

definition chat_preferences_default :: chat_preferences where
  "chat_preferences_default =
     \<lparr>pf_allow_private_messages = True, pf_sounds = False, pf_large_text = False,
      pf_timestamps = Time, pf_ignored = []\<rparr>"

definition apply_account_preferences :: "chat_preferences \<Rightarrow> participant_social \<Rightarrow> participant_social" where
  "apply_account_preferences pf s =
     s\<lparr>ps_allow_private_messages := pf_allow_private_messages pf,
       ps_ignored := fold set_insert (ps_guest_ignored s)
         (remdups (List.map_filter ig_id (pf_ignored pf)))\<rparr>"

definition accepts_inbox_from :: "participant_social \<Rightarrow> participant_id \<Rightarrow> bool" where
  "accepts_inbox_from s sender \<longleftrightarrow>
     ps_connected s \<and> ps_allow_private_messages s \<and> sender \<notin> set (ps_ignored s)"

definition participant_info_of :: "participant \<Rightarrow> participant_info" where
  "participant_info_of p =
     \<lparr>pi_id = pt_id p, pi_name = pt_name p,
      pi_producers = map (\<lambda>(i, r). \<lparr>pm_id = i, pm_kind = pr_kind r, pm_source = pr_source r\<rparr>) (pt_producers p),
      pi_role = pt_role p, pi_authenticated = pt_authenticated p, pi_chat_style = pt_chat_style p\<rparr>"

definition values_of :: "('k, 'v) table \<Rightarrow> 'v list" where
  "values_of t = map snd t"

section \<open>Broadcasts and the lobby's notices\<close>

definition broadcast_except :: "participant_id \<Rightarrow> server_message \<Rightarrow> room \<Rightarrow> effect list" where
  "broadcast_except sender_id message room =
     map (\<lambda>(_, p). Send (pt_sender p) message) (filter (\<lambda>(i, _). i \<noteq> sender_id) (rm_participants room))"

definition broadcast_to_role :: "role \<Rightarrow> server_message \<Rightarrow> room \<Rightarrow> effect list" where
  "broadcast_to_role min_role message room =
     map (\<lambda>p. Send (pt_sender p) message)
       (filter (\<lambda>p. pt_role p \<ge> min_role) (values_of (rm_participants room)))"

definition broadcast_all :: "server_message \<Rightarrow> room \<Rightarrow> effect list" where
  "broadcast_all message room =
     map (\<lambda>p. Send (pt_sender p) message) (values_of (rm_participants room))"

definition broadcast_departure :: "(chan \<Rightarrow> bool) \<Rightarrow> chan list \<Rightarrow> server_message \<Rightarrow> effect list" where
  "broadcast_departure closed senders message =
     map (\<lambda>c. Send c message) (filter (\<lambda>c. \<not> closed c) senders)"

definition broadcast_participant_left :: "(chan \<Rightarrow> bool) \<Rightarrow> participant_id \<Rightarrow> room \<Rightarrow> effect list" where
  "broadcast_participant_left closed participant_id room =
     broadcast_departure closed (map pt_sender (values_of (rm_participants room)))
       (MsgParticipantLeft participant_id)"

definition lobby_counts :: "(chan \<Rightarrow> bool) \<Rightarrow> room \<Rightarrow> u32 \<times> u32" where
  "lobby_counts closed room =
     fold (\<lambda>p (participants, moderators).
             (u32_saturating_add participants 1,
              if can_admit_lobby (pt_role p) then u32_saturating_add moderators 1 else moderators))
       (filter (\<lambda>p. ps_connected (pt_social p) \<and> \<not> closed (pt_sender p)) (values_of (rm_participants room)))
       (0, 0)"

definition notify_lobby_status :: "(chan \<Rightarrow> bool) \<Rightarrow> room \<Rightarrow> effect list" where
  "notify_lobby_status closed room =
     (if rm_lobby room = [] then []
      else (let (participant_count, moderator_count) = lobby_counts closed room in
            map (\<lambda>e. Send (le_sender e) (MsgLobbyStatus participant_count moderator_count))
              (filter (\<lambda>e. \<not> closed (le_sender e)) (values_of (rm_lobby room)))))"

definition mark_disconnected ::
  "(chan \<Rightarrow> bool) \<Rightarrow> participant_id \<Rightarrow> chan \<Rightarrow> room \<Rightarrow> room \<times> effect list" where
  "mark_disconnected closed participant_id expected_sender room =
     (case tget (rm_participants room) participant_id of
        None \<Rightarrow> (room, [])
      | Some p \<Rightarrow>
          if pt_sender p \<noteq> expected_sender \<or> \<not> ps_connected (pt_social p) then (room, [])
          else (let room' = room\<lparr>rm_participants :=
                      tput participant_id (p\<lparr>pt_social := (pt_social p)\<lparr>ps_connected := False\<rparr>\<rparr>)
                        (rm_participants room)\<rparr> in
                (room', notify_lobby_status closed room')))"

section \<open>Bans and authority\<close>

definition ensure_live :: "room \<Rightarrow> unit outcome" where
  "ensure_live room = (if rm_deleting room then Inl (Bail ''Room is being deleted'') else Inr ())"

definition unexpired :: "instant \<Rightarrow> instant option \<Rightarrow> bool" where
  "unexpired now expiry = (case expiry of None \<Rightarrow> True | Some e \<Rightarrow> e > now)"

definition prune_expired_bans :: "instant \<Rightarrow> room \<Rightarrow> room" where
  "prune_expired_bans now room =
     (let banned = retain (\<lambda>_. unexpired now) (rm_banned_participants room) in
      room\<lparr>rm_banned_participants := banned,
           rm_banned_guest_ips := retain (\<lambda>_. unexpired now) (rm_banned_guest_ips room),
           rm_banned_guest_participants := filter (contains_key banned) (rm_banned_guest_participants room)\<rparr>)"

definition identity_is_banned :: "room \<Rightarrow> participant_id \<Rightarrow> bool \<Rightarrow> ip_addr option \<Rightarrow> bool" where
  "identity_is_banned room participant_id authenticated ip \<longleftrightarrow>
     contains_key (rm_banned_participants room) participant_id
     \<or> (\<not> authenticated \<and> is_some_and (\<lambda>a. contains_key (rm_banned_guest_ips room) (cohort a)) ip)"

definition policy_snapshot_matches :: "room \<Rightarrow> u64 \<Rightarrow> bool" where
  "policy_snapshot_matches room revision \<longleftrightarrow> \<not> rm_deleting room \<and> rm_policy_revision room = revision"

definition participant_for_sender :: "room \<Rightarrow> participant_id \<Rightarrow> chan \<Rightarrow> participant outcome" where
  "participant_for_sender room participant_id expected_sender =
     (case ensure_live room of
        Inl e \<Rightarrow> Inl e
      | Inr _ \<Rightarrow>
          (case tget (rm_participants room) participant_id of
             None \<Rightarrow> Inl (Bail ''Participant is not an active member of this room'')
           | Some p \<Rightarrow>
               if pt_sender p \<noteq> expected_sender
               then Inl (Bail ''This connection no longer owns the participant session'')
               else Inr p))"

definition participant_session_is_current :: "room \<Rightarrow> participant_id \<Rightarrow> chan \<Rightarrow> uuid \<Rightarrow> bool" where
  "participant_session_is_current room participant_id expected_sender media_session_id \<longleftrightarrow>
     \<not> rm_deleting room \<and>
     is_some_and (\<lambda>p. pt_media_session_id p = media_session_id \<and> pt_sender p = expected_sender)
       (tget (rm_participants room) participant_id)"

definition is_bound_participant :: "room \<Rightarrow> participant_id \<Rightarrow> chan \<Rightarrow> bool" where
  "is_bound_participant room participant_id expected_sender \<longleftrightarrow>
     \<not> rm_deleting room \<and>
     (is_some_and (\<lambda>p. pt_sender p = expected_sender) (tget (rm_participants room) participant_id)
      \<or> is_some_and (\<lambda>e. le_sender e = expected_sender) (tget (rm_lobby room) participant_id))"

section \<open>Cohorts and sanctions\<close>

definition lobby_admission_state :: "room \<Rightarrow> lobby_entry \<Rightarrow> role \<times> punitive_state" where
  "lobby_admission_state room entry =
     (let key = sanction_key_for (le_participant_id entry) (le_authenticated entry) (le_ip entry) in
      (le_role entry, merge_punitive_state (le_punitive entry) (tget (rm_sanctions room) key)))"

definition guest_in_cohort :: "ip_addr \<Rightarrow> participant \<Rightarrow> bool" where
  "guest_in_cohort target_ip p \<longleftrightarrow> \<not> pt_authenticated p \<and> map_option cohort (pt_ip p) = Some target_ip"

definition lobby_guest_in_cohort :: "ip_addr \<Rightarrow> lobby_entry \<Rightarrow> bool" where
  "lobby_guest_in_cohort target_ip e \<longleftrightarrow> \<not> le_authenticated e \<and> map_option cohort (le_ip e) = Some target_ip"

definition cohort_ids :: "room \<Rightarrow> participant_id \<Rightarrow> participant \<Rightarrow> participant_id list" where
  "cohort_ids room target_participant_id target =
     (if \<not> pt_authenticated target then
        (case pt_ip target of
           Some ip \<Rightarrow> map fst (filter (\<lambda>(_, p). guest_in_cohort (cohort ip) p) (rm_participants room))
         | None \<Rightarrow> [target_participant_id])
      else [target_participant_id])"

definition moderation_cohort ::
  "room \<Rightarrow> participant_id \<Rightarrow> role \<Rightarrow> participant_id list outcome" where
  "moderation_cohort room target_participant_id moderator_role =
     (case tget (rm_participants room) target_participant_id of
        None \<Rightarrow> Inl (Bail ''Target participant not found'')
      | Some target \<Rightarrow>
          (let ids = cohort_ids room target_participant_id target in
           if list_ex (\<lambda>i. case tget (rm_participants room) i of
                             None \<Rightarrow> True | Some p \<Rightarrow> \<not> can_moderate moderator_role (pt_role p)) ids
           then Inl (Bail ''Insufficient permissions to moderate this participant'')
           else Inr (sort ids)))"

definition guest_ip_lobby_cohort ::
  "room \<Rightarrow> bool \<Rightarrow> ip_addr option \<Rightarrow> role \<Rightarrow> participant_id list outcome" where
  "guest_ip_lobby_cohort room target_authenticated target_ip moderator_role =
     (if target_authenticated then Inr []
      else
        (case target_ip of
           None \<Rightarrow> Inr []
         | Some ip \<Rightarrow>
             (let ids = map fst (filter (\<lambda>(_, e). lobby_guest_in_cohort (cohort ip) e) (rm_lobby room)) in
              if list_ex (\<lambda>i. case tget (rm_lobby room) i of
                                None \<Rightarrow> True | Some e \<Rightarrow> \<not> can_moderate moderator_role (le_role e)) ids
              then Inl (Bail ''Insufficient permissions to moderate this participant'')
              else Inr (sort ids))))"

fun punitive_notification :: "punitive_kind \<Rightarrow> bool \<Rightarrow> participant_id \<Rightarrow> server_message" where
  "punitive_notification CamBanned True i = MsgCamBanned i"
| "punitive_notification CamBanned False i = MsgCamUnbanned i"
| "punitive_notification Muted True i = MsgTextMuted i"
| "punitive_notification Muted False i = MsgTextUnmuted i"

definition punitive_cohort_matches ::
  "room \<Rightarrow> participant_id list \<Rightarrow> participant_id list \<Rightarrow> sanction_key \<Rightarrow> punitive_kind \<Rightarrow> bool \<Rightarrow> bool" where
  "punitive_cohort_matches room participant_ids lobby_ids key kind enabled \<longleftrightarrow>
     is_some_and (\<lambda>p. punitive_value p kind) (tget (rm_sanctions room) key) = enabled
     \<and> list_all (\<lambda>i. is_some_and (\<lambda>p. punitive_value (pt_punitive p) kind = enabled)
                       (tget (rm_participants room) i)) participant_ids
     \<and> list_all (\<lambda>i. is_some_and (\<lambda>e. punitive_value (le_punitive e) kind = enabled)
                       (tget (rm_lobby room) i)) lobby_ids"

definition cohort_punitive ::
  "room \<Rightarrow> participant_id list \<Rightarrow> participant_id list \<Rightarrow> sanction_key \<Rightarrow> punitive_state" where
  \<comment> \<open>the union of what the key and every member already carry\<close>
  "cohort_punitive room participant_ids lobby_ids key =
     (let stored = unwrap_or (tget (rm_sanctions room) key) punitive_default;
          with_members = fold (\<lambda>i acc. case tget (rm_participants room) i of
                                  Some p \<Rightarrow> merge_punitive_state acc (Some (pt_punitive p)) | None \<Rightarrow> acc)
                           participant_ids stored in
      fold (\<lambda>i acc. case tget (rm_lobby room) i of
              Some e \<Rightarrow> merge_punitive_state acc (Some (le_punitive e)) | None \<Rightarrow> acc)
        lobby_ids with_members)"

definition apply_punitive_to_cohort ::
  "participant_id list \<Rightarrow> participant_id list \<Rightarrow> sanction_key \<Rightarrow> punitive_kind \<Rightarrow> bool \<Rightarrow> room \<Rightarrow>
     punitive_state \<times> room" where
  "apply_punitive_to_cohort participant_ids lobby_ids key kind enabled room =
     (let punitive = set_punitive kind enabled (cohort_punitive room participant_ids lobby_ids key) in
      (punitive,
       room\<lparr>rm_participants :=
              fold (\<lambda>i. tmod i (\<lambda>p. p\<lparr>pt_punitive := punitive\<rparr>)) participant_ids (rm_participants room),
            rm_lobby := fold (\<lambda>i. tmod i (\<lambda>e. e\<lparr>le_punitive := punitive\<rparr>)) lobby_ids (rm_lobby room),
            rm_sanctions := (if punitive = punitive_default then tdel key (rm_sanctions room)
                             else tput key punitive (rm_sanctions room))\<rparr>))"

definition record_banned_cohort ::
  "participant_id list \<Rightarrow> bool \<Rightarrow> ip_addr option \<Rightarrow> instant option \<Rightarrow> room \<Rightarrow> room" where
  "record_banned_cohort participant_ids target_authenticated target_ip runtime_expiry room =
     (let room' = room\<lparr>rm_banned_participants :=
            fold (\<lambda>i. tput i runtime_expiry) participant_ids (rm_banned_participants room)\<rparr> in
      if \<not> target_authenticated then
        room'\<lparr>rm_banned_guest_participants :=
                fold set_insert participant_ids (rm_banned_guest_participants room'),
              rm_banned_guest_ips :=
                (case target_ip of
                   Some a \<Rightarrow> tput (cohort a) runtime_expiry (rm_banned_guest_ips room')
                 | None \<Rightarrow> rm_banned_guest_ips room')\<rparr>
      else room')"

text \<open>Taking a member out of the room, with the entries of its producers.\<close>

definition forget_member :: "participant_id \<Rightarrow> room \<Rightarrow> room" where
  "forget_member participant_id room =
     (case tget (rm_participants room) participant_id of
        None \<Rightarrow> room
      | Some person \<Rightarrow>
          room\<lparr>rm_participants := tdel participant_id (rm_participants room),
               rm_producer_to_participant :=
                 fold (\<lambda>(producer, _). tdel producer) (pt_producers person) (rm_producer_to_participant room)\<rparr>)"

section \<open>Capacity and join reservations\<close>

definition ensure_room_has_space :: "nat option \<Rightarrow> room \<Rightarrow> unit outcome" where
  \<comment> \<open>the deployment's ceiling is the first argument\<close>
  "ensure_room_has_space max_participants_per_room room =
     (let own = (case Option.bind (rm_settings room) rs_max_participants of
                   None \<Rightarrow> Inr ()
                 | Some maximum \<Rightarrow>
                     if maximum < 0 then Inl (Bail ''Room capacity is unavailable'')
                     else if maximum = 0 \<or> int (length (rm_participants room)) \<ge> maximum
                     then Inl (Bail ''Room is full'') else Inr ()) in
      case own of
        Inl e \<Rightarrow> Inl e
      | Inr _ \<Rightarrow>
          (case max_participants_per_room of
             Some ceiling \<Rightarrow>
               if length (rm_participants room) \<ge> ceiling then Inl (Bail ''Room is full'') else Inr ()
           | None \<Rightarrow> Inr ()))"

definition release_join_reservation :: "room \<Rightarrow> bool \<times> room" where
  "release_join_reservation room =
     (if rm_pending_joins room = 0 then (False, room)
      else (let room' = room\<lparr>rm_pending_joins := rm_pending_joins room - 1\<rparr> in
            (\<not> rm_deleting room' \<and> rm_pending_joins room' = 0 \<and> rm_participants room' = []
               \<and> rm_lobby room' = [], room')))"

definition complete_locked :: "room \<Rightarrow> room" where
  "complete_locked room =
     (if rm_pending_joins room = 0 then room
      else room\<lparr>rm_pending_joins := rm_pending_joins room - 1\<rparr>)"

definition usize_max :: nat where "usize_max = 2 ^ 64 - 1"

definition bump_policy :: "room \<Rightarrow> room" where
  \<comment> \<open>\<^verbatim>\<open>room.policy_revision = room.policy_revision.wrapping_add(1)\<close>\<close>
  "bump_policy room = room\<lparr>rm_policy_revision := rm_policy_revision room + 1\<rparr>"

end
