(* ===== verification/Media_Policy.thy ===== *)
theory Media_Policy
  imports Room_State "HOL-Library.Product_Lexorder"
begin

text \<open>
  Who may broadcast (the authorization half of \<^verbatim>\<open>src/room/manager/media_ops.rs\<close>): which sources
  a participant may publish, the room's limit on broadcasters, and the revocation of producers a
  policy change no longer permits.
\<close>

section \<open>Authorization\<close>

definition valid_media_source :: "media_kind \<Rightarrow> string \<Rightarrow> bool" where
  "valid_media_source kind source \<longleftrightarrow>
     (kind, source) \<in> {(Audio, ''microphone''), (Audio, ''screen-audio''),
                       (Video, ''camera''), (Video, ''screen'')}"

definition settings_forbid :: "room_settings \<Rightarrow> participant \<Rightarrow> media_kind \<Rightarrow> string \<Rightarrow> bool" where
  "settings_forbid settings p kind source \<longleftrightarrow>
     (pt_role p = Guest \<and> \<not> rs_guests_can_broadcast settings)
     \<or> (\<not> rs_allow_screen_sharing settings \<and> source \<in> {''screen'', ''screen-audio''})
     \<or> (\<not> rs_allow_video settings \<and> kind = Video \<and> source = ''camera'')"

definition producer_allowed_without_capacity :: "room \<Rightarrow> participant \<Rightarrow> media_kind \<Rightarrow> string \<Rightarrow> bool" where
  "producer_allowed_without_capacity room p kind source \<longleftrightarrow>
     valid_media_source kind source
     \<and> \<not> is_some_and (\<lambda>settings. settings_forbid settings p kind source) (rm_settings room)
     \<and> can_produce (pt_punitive p) (pt_role p) (is_some_and rs_moderated (rm_settings room)) kind"

definition broadcaster_limit :: "room \<Rightarrow> nat option" where
  "broadcaster_limit room =
     (let own = map_option nat (Option.bind (rm_settings room) rs_max_broadcasters) in
      case (own, rm_broadcaster_ceiling room) of
        (Some own, Some ceiling) \<Rightarrow> Some (min own ceiling)
      | (Some own, None) \<Rightarrow> Some own
      | (None, ceiling) \<Rightarrow> ceiling)"

definition broadcaster_count :: "room \<Rightarrow> nat" where
  "broadcaster_count room = length (filter (\<lambda>p. pt_producers p \<noteq> []) (values_of (rm_participants room)))"

definition participant_can_produce :: "room \<Rightarrow> participant \<Rightarrow> media_kind \<Rightarrow> string \<Rightarrow> bool" where
  "participant_can_produce room p kind source \<longleftrightarrow>
     producer_allowed_without_capacity room p kind source
     \<and> \<not> is_some_and (\<lambda>maximum. pt_producers p = [] \<and> broadcaster_count room \<ge> maximum) (broadcaster_limit room)"

definition can_participant_produce ::
  "room \<Rightarrow> participant_id \<Rightarrow> chan \<Rightarrow> media_kind \<Rightarrow> string \<Rightarrow> bool outcome" where
  "can_participant_produce room participant_id expected_sender kind source =
     (case participant_for_sender room participant_id expected_sender of
        Inl e \<Rightarrow> Inl e
      | Inr p \<Rightarrow> Inr (participant_can_produce room p kind source))"

section \<open>Revocation\<close>

record revoked_producer =
  rv_participant_id :: participant_id
  rv_media_session_id :: uuid
  rv_producer_id :: producer_id
  rv_kind :: media_kind

definition record_allowed :: "room \<Rightarrow> participant \<Rightarrow> producer_record \<Rightarrow> bool" where
  "record_allowed room p r =
     is_some_and (producer_allowed_without_capacity room p (pr_kind r)) (pr_source r)"

text \<open>More privileged roles first, then the participant's identifier.\<close>

definition broadcaster_rank :: "participant_id \<times> role \<Rightarrow> nat \<times> nat" where
  "broadcaster_rank c = (5 - discriminant (snd c), fst c)"

definition broadcaster_candidates :: "room \<Rightarrow> (participant_id \<times> role) list" where
  "broadcaster_candidates room =
     sort_key broadcaster_rank
       (map (\<lambda>p. (pt_id p, pt_role p))
         (filter (\<lambda>p. list_ex (record_allowed room p) (values_of (pt_producers p)))
           (values_of (rm_participants room))))"

definition over_capacity :: "room \<Rightarrow> participant_id list" where
  "over_capacity room =
     (case broadcaster_limit room of
        Some maximum \<Rightarrow> map fst (drop maximum (broadcaster_candidates room))
      | None \<Rightarrow> [])"

definition revoked_of :: "room \<Rightarrow> participant_id list \<Rightarrow> participant \<Rightarrow> revoked_producer list" where
  "revoked_of room over p =
     map (\<lambda>(i, r). \<lparr>rv_participant_id = pt_id p, rv_media_session_id = pt_media_session_id p,
                    rv_producer_id = i, rv_kind = pr_kind r\<rparr>)
       (filter (\<lambda>(_, r). \<not> record_allowed room p r \<or> pt_id p \<in> set over) (pt_producers p))"

definition revoked_producers :: "room \<Rightarrow> participant_id option \<Rightarrow> revoked_producer list" where
  "revoked_producers room participant_filter =
     concat (map (revoked_of room (over_capacity room))
       (filter (\<lambda>p. case participant_filter of None \<Rightarrow> True | Some i \<Rightarrow> pt_id p = i)
         (values_of (rm_participants room))))"

definition forget_producer :: "participant_id \<Rightarrow> producer_id \<Rightarrow> room \<Rightarrow> room" where
  "forget_producer participant_id producer_id room =
     room\<lparr>rm_participants :=
            tmod participant_id (\<lambda>p. p\<lparr>pt_producers := tdel producer_id (pt_producers p)\<rparr>) (rm_participants room),
          rm_producer_to_participant := tdel producer_id (rm_producer_to_participant room)\<rparr>"

definition revoke_producer :: "string \<Rightarrow> revoked_producer \<Rightarrow> room \<Rightarrow> room \<times> effect list" where
  "revoke_producer reason v room =
     (let room' = forget_producer (rv_participant_id v) (rv_producer_id v) room in
      (room', broadcast_all (MsgForceClosedProducer (rv_producer_id v) reason) room'
              @ broadcast_all (MsgProducerClosed (rv_producer_id v)) room'))"

definition revoke_unauthorized_producers ::
  "participant_id option \<Rightarrow> string \<Rightarrow> room \<Rightarrow> revoked_producer list \<times> room \<times> effect list" where
  "revoke_unauthorized_producers participant_filter reason room =
     (let revoked = revoked_producers room participant_filter in
      (revoked, for_each (revoke_producer reason) revoked room))"

text \<open>The two entries a new producer gets.\<close>

definition add_producer :: "participant_id \<Rightarrow> producer_id \<Rightarrow> producer_record \<Rightarrow> room \<Rightarrow> room" where
  "add_producer i k record room =
     room\<lparr>rm_participants := tmod i (\<lambda>p. p\<lparr>pt_producers := tput k record (pt_producers p)\<rparr>) (rm_participants room),
          rm_producer_to_participant := tput k i (rm_producer_to_participant room)\<rparr>"

end
