(* ===== verification/Room_Invariant.thy ===== *)
theory Room_Invariant
  imports Media_Policy
begin

text \<open>
  The invariant of a runtime room, and what the shared operations of \<^verbatim>\<open>src/room/mod.rs\<close> keep
  of it. Members and lobby entries are filed under their own identifiers and nobody is in both;
  \<^verbatim>\<open>producer_to_participant\<close> is exactly the inverse of the members' producer tables; the
  retained conversation stays within its bounds. On top of it: nobody present is banned, and
  every sanction somebody present carries is recorded under the identity it belongs to, so that
  leaving cannot clear it.
\<close>

section \<open>The invariant\<close>

definition members_wf :: "room \<Rightarrow> bool" where
  "members_wf r \<longleftrightarrow>
     table_wf (rm_participants r) \<and> table_wf (rm_lobby r)
     \<and> (\<forall>i p. tget (rm_participants r) i = Some p \<longrightarrow> pt_id p = i \<and> table_wf (pt_producers p))
     \<and> (\<forall>i e. tget (rm_lobby r) i = Some e \<longrightarrow> le_participant_id e = i)
     \<and> (\<forall>i. contains_key (rm_participants r) i \<longrightarrow> \<not> contains_key (rm_lobby r) i)"

definition producers_wf :: "room \<Rightarrow> bool" where
  "producers_wf r \<longleftrightarrow>
     table_wf (rm_producer_to_participant r)
     \<and> (\<forall>k i. tget (rm_producer_to_participant r) k = Some i \<longleftrightarrow>
               (\<exists>p. tget (rm_participants r) i = Some p \<and> contains_key (pt_producers p) k))"

definition bans_wf :: "room \<Rightarrow> bool" where
  "bans_wf r \<longleftrightarrow>
     table_wf (rm_banned_participants r) \<and> table_wf (rm_banned_guest_ips r)"

definition room_wf :: "room \<Rightarrow> bool" where
  "room_wf r \<longleftrightarrow>
     members_wf r \<and> producers_wf r \<and> bans_wf r \<and> table_wf (rm_sanctions r) \<and> social_wf (rm_social r)"

lemmas room_wf_defs = room_wf_def members_wf_def producers_wf_def bans_wf_def

lemma room_wfD:
  assumes "room_wf r"
  shows "table_wf (rm_participants r)" "table_wf (rm_lobby r)" "table_wf (rm_sanctions r)"
    "table_wf (rm_producer_to_participant r)" "social_wf (rm_social r)"
    "table_wf (rm_banned_participants r)" "table_wf (rm_banned_guest_ips r)"
  using assms by (simp_all add: room_wf_defs)

lemma room_wf_member:
  "room_wf r \<Longrightarrow> tget (rm_participants r) i = Some p \<Longrightarrow>
     pt_id p = i \<and> table_wf (pt_producers p) \<and> tget (rm_lobby r) i = None"
  by (auto simp: room_wf_defs contains_key_def)

lemma room_wf_waiting:
  "room_wf r \<Longrightarrow> tget (rm_lobby r) i = Some e \<Longrightarrow>
     le_participant_id e = i \<and> tget (rm_participants r) i = None"
  by (auto simp: room_wf_defs contains_key_def)

lemma in_values_of: "table_wf t \<Longrightarrow> v \<in> set (values_of t) \<longleftrightarrow> (\<exists>k. tget t k = Some v)"
  using map_of_in_set [of t] by (force simp: values_of_def)

lemma room_wf_new [wf_intros]: "room_wf (new_with_observers i st persisted h)"
  by (simp add: new_with_observers_def room_wf_defs social_wf_def social_default_def history_wf_def
      receipts_wf_def receipts_counted_def HISTORY_MESSAGES_def HISTORY_BYTES_def CHAT_RECEIPTS_def
      CHAT_RECEIPT_BYTES_def)

section \<open>Fields outside the invariant\<close>

lemma room_wf_frame [simp]:
  "room_wf (r\<lparr>rm_id := x1\<rparr>) = room_wf r"
  "room_wf (r\<lparr>rm_settings := x2\<rparr>) = room_wf r"
  "room_wf (r\<lparr>rm_broadcaster_ceiling := x3\<rparr>) = room_wf r"
  "room_wf (r\<lparr>rm_persisted := x4\<rparr>) = room_wf r"
  "room_wf (r\<lparr>rm_password_hash := x5\<rparr>) = room_wf r"
  "room_wf (r\<lparr>rm_last_password_hash_at := x6\<rparr>) = room_wf r"
  "room_wf (r\<lparr>rm_chat_broadcasts := x7\<rparr>) = room_wf r"
  "room_wf (r\<lparr>rm_media_mutations := x8\<rparr>) = room_wf r"
  "room_wf (r\<lparr>rm_media_control_ipc := x9\<rparr>) = room_wf r"
  "room_wf (r\<lparr>rm_voice_requests := x10\<rparr>) = room_wf r"
  "room_wf (r\<lparr>rm_admin_mutations := x11\<rparr>) = room_wf r"
  "room_wf (r\<lparr>rm_policy_revision := x12\<rparr>) = room_wf r"
  "room_wf (r\<lparr>rm_pending_joins := x13\<rparr>) = room_wf r"
  "room_wf (r\<lparr>rm_deleting := x14\<rparr>) = room_wf r"
  by (simp_all add: room_wf_defs)

lemma room_wf_social [wf_intros]: "room_wf r \<Longrightarrow> social_wf s \<Longrightarrow> room_wf (r\<lparr>rm_social := s\<rparr>)"
  by (simp add: room_wf_defs)

lemma room_wf_sanctions [wf_intros]: "room_wf r \<Longrightarrow> table_wf t \<Longrightarrow> room_wf (r\<lparr>rm_sanctions := t\<rparr>)"
  by (simp add: room_wf_defs)

lemma room_wf_bans [wf_intros]:
  "room_wf r \<Longrightarrow> table_wf t \<Longrightarrow> room_wf (r\<lparr>rm_banned_participants := t\<rparr>)"
  "room_wf r \<Longrightarrow> table_wf u \<Longrightarrow> room_wf (r\<lparr>rm_banned_guest_ips := u\<rparr>)"
  "room_wf (r\<lparr>rm_banned_guest_participants := xs\<rparr>) = room_wf r"
  by (simp_all add: room_wf_defs)

lemma room_wf_bump [simp]: "room_wf (bump_policy r) = room_wf r"
  by (simp add: bump_policy_def)

section \<open>Members and lobby entries\<close>

lemma room_wf_update_member [wf_intros]:
  assumes "room_wf r" and "\<And>p. pt_id (f p) = pt_id p" and "\<And>p. pt_producers (f p) = pt_producers p"
  shows "room_wf (r\<lparr>rm_participants := tmod i f (rm_participants r)\<rparr>)"
  using assms by (auto simp: room_wf_defs)

lemma room_wf_put_member:
  assumes "room_wf r" and "tget (rm_participants r) i = Some p"
    and "pt_id q = pt_id p" and "pt_producers q = pt_producers p"
  shows "room_wf (r\<lparr>rm_participants := tput i q (rm_participants r)\<rparr>)"
  using assms by (auto simp: room_wf_defs contains_key_def)

lemma room_wf_add_member [wf_intros]:
  assumes "room_wf r" and "tget (rm_participants r) i = None" and "tget (rm_lobby r) i = None"
    and "pt_id p = i" and "pt_producers p = []"
  shows "room_wf (r\<lparr>rm_participants := tput i p (rm_participants r)\<rparr>)"
  using assms by (auto simp: room_wf_defs contains_key_def)

lemma room_wf_update_waiting [wf_intros]:
  assumes "room_wf r" and "\<And>e. le_participant_id (f e) = le_participant_id e"
  shows "room_wf (r\<lparr>rm_lobby := tmod i f (rm_lobby r)\<rparr>)"
  using assms by (auto simp: room_wf_defs)

lemma room_wf_add_waiting [wf_intros]:
  assumes "room_wf r" and "tget (rm_participants r) i = None" and "le_participant_id e = i"
  shows "room_wf (r\<lparr>rm_lobby := tput i e (rm_lobby r)\<rparr>)"
  using assms by (auto simp: room_wf_defs contains_key_def)

lemma room_wf_remove_waiting [wf_intros]:
  "room_wf r \<Longrightarrow> room_wf (r\<lparr>rm_lobby := tdel i (rm_lobby r)\<rparr>)"
  by (auto simp: room_wf_defs)

lemma map_of_fold_tdel:
  "map_of (fold (\<lambda>(k, _). tdel k) ks t) k = (if k \<in> fst ` set ks then None else map_of t k)"
  by (induction ks arbitrary: t) (auto simp: image_iff split_beta)

lemma table_wf_fold_tdel [simp]: "table_wf t \<Longrightarrow> table_wf (fold (\<lambda>(k, _). tdel k) ks t)"
  by (induction ks arbitrary: t) (auto simp: split_beta)

lemma room_wf_forget_member [wf_intros]:
  assumes wf: "room_wf r"
  shows "room_wf (forget_member i r)"
proof (cases "tget (rm_participants r) i")
  case None
  then show ?thesis using wf by (simp add: forget_member_def)
next
  case (Some p)
  let ?t = "fold (\<lambda>(k, _). tdel k) (pt_producers p) (rm_producer_to_participant r)"
  have inverse: "tget ?t k = Some j \<longleftrightarrow>
      (\<exists>q. tget (tdel i (rm_participants r)) j = Some q \<and> contains_key (pt_producers q) k)" for k j
  proof -
    have inv: "tget (rm_producer_to_participant r) k = Some j \<longleftrightarrow>
        (\<exists>q. tget (rm_participants r) j = Some q \<and> contains_key (pt_producers q) k)" for k j
      using wf by (simp add: room_wf_defs)
    have "j \<noteq> i" if "tget ?t k = Some j"
      using that inv [of k j] Some by (auto simp: map_of_fold_tdel contains_key_dom split: if_splits)
    moreover have "k \<notin> fst ` set (pt_producers p)" if "tget (rm_producer_to_participant r) k = Some j" "j \<noteq> i"
      using that inv [of k i] Some by (auto simp: contains_key_dom)
    ultimately show ?thesis using inv [of k j] by (auto simp: map_of_fold_tdel)
  qed
  show ?thesis using wf inverse Some unfolding room_wf_defs forget_member_def by simp
qed

lemma producer_owner:
  "room_wf r \<Longrightarrow> tget (rm_producer_to_participant r) k = Some i \<longleftrightarrow>
     (\<exists>p. tget (rm_participants r) i = Some p \<and> contains_key (pt_producers p) k)"
  by (simp add: room_wf_defs)

lemma room_wf_forget_producer [wf_intros]:
  assumes wf: "room_wf r" and own: "\<And>j. tget (rm_producer_to_participant r) k = Some j \<Longrightarrow> j = i"
  shows "room_wf (forget_producer i k r)"
proof -
  note inv = producer_owner [OF wf]
  then have "j = i" if "tget (rm_participants r) j = Some q" "contains_key (pt_producers q) k" for j q
    using that own by blast
  then show ?thesis using wf inv unfolding room_wf_defs forget_producer_def by auto
qed

lemma room_wf_add_producer [wf_intros]:
  assumes wf: "room_wf r" and "tget (rm_participants r) i = Some p"
    and "tget (rm_producer_to_participant r) k = None"
  shows "room_wf (add_producer i k record r)"
proof -
  have inv: "tget (rm_producer_to_participant r) l = Some j \<longleftrightarrow>
      (\<exists>q. tget (rm_participants r) j = Some q \<and> contains_key (pt_producers q) l)" for l j
    using wf by (simp add: room_wf_defs)
  then have "\<not> contains_key (pt_producers q) k" if "tget (rm_participants r) j = Some q" for j q
    using that assms(3) by (metis option.discI)
  then show ?thesis using wf inv assms(2) unfolding room_wf_defs add_producer_def by auto
qed

section \<open>Loops\<close>

lemma for_each_keeps:
  assumes "P r" and "\<And>x r. x \<in> set xs \<Longrightarrow> P r \<Longrightarrow> P (fst (body x r))"
  shows "P (fst (for_each body xs r))"
  using assms
proof (induction xs arbitrary: r)
  case (Cons x xs)
  then have "P (fst (body x r))" by simp
  then have "P (fst (for_each body xs (fst (body x r))))" using Cons by simp
  then show ?case by (simp add: split_beta Let_def)
qed simp

section \<open>Who is present, banned and sanctioned\<close>

text \<open>Everybody in the room or its lobby, with the identity and the sanctions they carry.\<close>

definition present :: "room \<Rightarrow> participant_id \<Rightarrow> (bool \<times> ip_addr option \<times> punitive_state) option" where
  "present r i =
     (case tget (rm_participants r) i of
        Some p \<Rightarrow> Some (pt_authenticated p, pt_ip p, pt_punitive p)
      | None \<Rightarrow> map_option (\<lambda>e. (le_authenticated e, le_ip e, le_punitive e)) (tget (rm_lobby r) i))"

definition ban_safe :: "room \<Rightarrow> bool" where
  "ban_safe r \<longleftrightarrow>
     (\<forall>i authenticated ip s. present r i = Some (authenticated, ip, s) \<longrightarrow> \<not> identity_is_banned r i authenticated ip)"

definition stored_sanction :: "room \<Rightarrow> sanction_key \<Rightarrow> punitive_kind \<Rightarrow> bool" where
  "stored_sanction r key kind = is_some_and (\<lambda>s. punitive_value s kind) (tget (rm_sanctions r) key)"

definition sanctions_recorded :: "room \<Rightarrow> bool" where
  "sanctions_recorded r \<longleftrightarrow>
     (\<forall>i authenticated ip s kind. present r i = Some (authenticated, ip, s) \<longrightarrow> punitive_value s kind \<longrightarrow>
        stored_sanction r (sanction_key_for i authenticated ip) kind)"

definition room_safe :: "room \<Rightarrow> bool" where
  "room_safe r \<longleftrightarrow> room_wf r \<and> ban_safe r \<and> sanctions_recorded r"

lemma room_safe_wf: "room_safe r \<Longrightarrow> room_wf r"
  by (simp add: room_safe_def)

text \<open>Nobody new, no new ban and no sanction forgotten: nothing to check.\<close>

lemma room_safe_fewer:
  assumes "room_safe r" and "room_wf r'"
    and "\<And>i x. present r' i = Some x \<Longrightarrow> present r i = Some x"
    and "\<And>i. contains_key (rm_banned_participants r') i \<Longrightarrow> contains_key (rm_banned_participants r) i"
    and "\<And>a. contains_key (rm_banned_guest_ips r') a \<Longrightarrow> contains_key (rm_banned_guest_ips r) a"
    and "\<And>key kind. stored_sanction r key kind \<Longrightarrow> stored_sanction r' key kind"
  shows "room_safe r'"
proof -
  have "identity_is_banned r i a ip" if "identity_is_banned r' i a ip" for i a ip
    using that assms(4,5) by (auto simp: identity_is_banned_def is_some_and_def split: option.splits)
  then have "ban_safe r'" using assms(1,3) unfolding room_safe_def ban_safe_def by meson
  moreover have "sanctions_recorded r'"
    using assms(1,3,6) unfolding room_safe_def sanctions_recorded_def by meson
  ultimately show ?thesis using assms(2) by (simp add: room_safe_def)
qed

lemma room_safe_same:
  assumes "room_safe r" and "room_wf r'" and "present r' = present r"
    and "rm_banned_participants r' = rm_banned_participants r"
    and "rm_banned_guest_ips r' = rm_banned_guest_ips r" and "rm_sanctions r' = rm_sanctions r"
  shows "room_safe r'"
  by (rule room_safe_fewer [OF assms(1,2)]) (simp_all add: assms(3-6) stored_sanction_def)

lemma present_frame [simp]:
  "present (r\<lparr>rm_id := x1\<rparr>) = present r"
  "present (r\<lparr>rm_settings := x2\<rparr>) = present r"
  "present (r\<lparr>rm_broadcaster_ceiling := x3\<rparr>) = present r"
  "present (r\<lparr>rm_persisted := x4\<rparr>) = present r"
  "present (r\<lparr>rm_password_hash := x5\<rparr>) = present r"
  "present (r\<lparr>rm_last_password_hash_at := x6\<rparr>) = present r"
  "present (r\<lparr>rm_chat_broadcasts := x7\<rparr>) = present r"
  "present (r\<lparr>rm_media_mutations := x8\<rparr>) = present r"
  "present (r\<lparr>rm_media_control_ipc := x9\<rparr>) = present r"
  "present (r\<lparr>rm_voice_requests := x10\<rparr>) = present r"
  "present (r\<lparr>rm_admin_mutations := x11\<rparr>) = present r"
  "present (r\<lparr>rm_policy_revision := x12\<rparr>) = present r"
  "present (r\<lparr>rm_pending_joins := x13\<rparr>) = present r"
  "present (r\<lparr>rm_deleting := x14\<rparr>) = present r"
  "present (r\<lparr>rm_social := x15\<rparr>) = present r"
  "present (r\<lparr>rm_banned_participants := x16\<rparr>) = present r"
  "present (r\<lparr>rm_banned_guest_ips := x17\<rparr>) = present r"
  "present (r\<lparr>rm_banned_guest_participants := x18\<rparr>) = present r"
  "present (r\<lparr>rm_sanctions := x19\<rparr>) = present r"
  "present (r\<lparr>rm_producer_to_participant := x20\<rparr>) = present r"
  by (auto simp: present_def fun_eq_iff split: option.splits)

lemma room_safe_frame [simp]:
  "room_safe (r\<lparr>rm_id := x1\<rparr>) = room_safe r"
  "room_safe (r\<lparr>rm_settings := x2\<rparr>) = room_safe r"
  "room_safe (r\<lparr>rm_broadcaster_ceiling := x3\<rparr>) = room_safe r"
  "room_safe (r\<lparr>rm_persisted := x4\<rparr>) = room_safe r"
  "room_safe (r\<lparr>rm_password_hash := x5\<rparr>) = room_safe r"
  "room_safe (r\<lparr>rm_last_password_hash_at := x6\<rparr>) = room_safe r"
  "room_safe (r\<lparr>rm_chat_broadcasts := x7\<rparr>) = room_safe r"
  "room_safe (r\<lparr>rm_media_mutations := x8\<rparr>) = room_safe r"
  "room_safe (r\<lparr>rm_media_control_ipc := x9\<rparr>) = room_safe r"
  "room_safe (r\<lparr>rm_voice_requests := x10\<rparr>) = room_safe r"
  "room_safe (r\<lparr>rm_admin_mutations := x11\<rparr>) = room_safe r"
  "room_safe (r\<lparr>rm_policy_revision := x12\<rparr>) = room_safe r"
  "room_safe (r\<lparr>rm_pending_joins := x13\<rparr>) = room_safe r"
  "room_safe (r\<lparr>rm_deleting := x14\<rparr>) = room_safe r"
  by (simp_all add: room_safe_def ban_safe_def sanctions_recorded_def identity_is_banned_def stored_sanction_def)

lemma room_safe_bump [simp]: "room_safe (bump_policy r) = room_safe r"
  by (simp add: bump_policy_def)

lemma room_safe_social [wf_intros]: "room_safe r \<Longrightarrow> social_wf s \<Longrightarrow> room_safe (r\<lparr>rm_social := s\<rparr>)"
  by (rule room_safe_same) (auto simp: room_safe_def intro: room_wf_social)

lemma present_update_member:
  assumes "\<And>p. pt_authenticated (f p) = pt_authenticated p" and "\<And>p. pt_ip (f p) = pt_ip p"
    and "\<And>p. pt_punitive (f p) = pt_punitive p"
  shows "present (r\<lparr>rm_participants := tmod i f (rm_participants r)\<rparr>) = present r"
  using assms by (auto simp: present_def fun_eq_iff split: option.splits)

lemma present_update_waiting:
  assumes "\<And>e. le_authenticated (f e) = le_authenticated e" and "\<And>e. le_ip (f e) = le_ip e"
    and "\<And>e. le_punitive (f e) = le_punitive e"
  shows "present (r\<lparr>rm_lobby := tmod i f (rm_lobby r)\<rparr>) = present r"
  using assms by (auto simp: present_def fun_eq_iff option.map_comp comp_def split: option.splits)

lemma present_forget_member:
  "room_wf r \<Longrightarrow> present (forget_member i r) = (if contains_key (rm_participants r) i then (present r)(i := None) else present r)"
  by (auto simp: present_def forget_member_def fun_eq_iff contains_key_def split: option.splits
      dest: room_wf_member)

lemma present_remove_waiting:
  "room_wf r \<Longrightarrow> present (r\<lparr>rm_lobby := tdel i (rm_lobby r)\<rparr>)
     = (if contains_key (rm_lobby r) i then (present r)(i := None) else present r)"
  by (auto simp: present_def fun_eq_iff contains_key_def split: option.splits dest: room_wf_waiting)

section \<open>A room to evaluate\<close>

definition sample_member :: "participant_id \<Rightarrow> role \<Rightarrow> (producer_id, producer_record) table \<Rightarrow> participant" where
  "sample_member i r producers =
     \<lparr>pt_social = participant_social_new (100 + i) 0, pt_id = i, pt_name = ''member'', pt_sender = 10 * i,
      pt_media_session_id = 1000 + i, pt_producers = producers, pt_role = r, pt_punitive = punitive_default,
      pt_authenticated = True, pt_ip = None, pt_chat_style = chat_style_default\<rparr>"

definition camera :: producer_record where
  "camera = \<lparr>pr_kind = Video, pr_source = Some ''camera'', pr_paused = False\<rparr>"

text \<open>An owner and a user, each with a camera, where the deployment admits one broadcaster.\<close>

definition sample_room :: room where
  "sample_room =
     (new_with_observers ''r'' None False None)
       \<lparr>rm_participants := [(2, sample_member 2 User [(22, camera)]), (1, sample_member 1 Owner [(11, camera)])],
        rm_producer_to_participant := [(22, 2), (11, 1)], rm_broadcaster_ceiling := Some 1\<rparr>"

lemma sample_room_wf: "room_wf sample_room"
proof -
  have "room_wf (new_with_observers ''r'' None False None)" by (rule room_wf_new)
  then show ?thesis
    by (auto simp: room_wf_defs sample_room_def sample_member_def new_with_observers_def table_wf_def
        contains_key_def split: if_splits)
qed

end
