(* ===== verification/Media_Revocation.thy ===== *)
theory Media_Revocation
  imports Room_Invariant
begin

text \<open>
  What the revocation of producers does: a declarative description, independent of the order in
  which the tables are traversed, and the room's limit on broadcasters as a consequence.
\<close>

section \<open>The loop as one update\<close>

definition drop_producers :: "(participant_id \<times> producer_id) set \<Rightarrow> participant_id \<Rightarrow> participant \<Rightarrow> participant" where
  "drop_producers K i p = p\<lparr>pt_producers := filter (\<lambda>(k, _). (i, k) \<notin> K) (pt_producers p)\<rparr>"

definition revoked_keys :: "revoked_producer list \<Rightarrow> (participant_id \<times> producer_id) set" where
  "revoked_keys vs = (\<lambda>v. (rv_participant_id v, rv_producer_id v)) ` set vs"

lemma tmod_map: "table_wf t \<Longrightarrow> tmod i f t = map (\<lambda>(j, v). (j, if j = i then f v else v)) t"
  by (induction t) (auto simp: table_wf_def image_iff intro!: map_idI [symmetric])

lemma drop_producers_Nil: "drop_producers {} i p = p"
  by (simp add: drop_producers_def)

lemma revoke_loop:
  "table_wf (rm_participants r) \<Longrightarrow>
   fst (for_each (revoke_producer reason) vs r)
     = r\<lparr>rm_participants := map (\<lambda>(i, p). (i, drop_producers (revoked_keys vs) i p)) (rm_participants r),
         rm_producer_to_participant :=
           fold (\<lambda>v. tdel (rv_producer_id v)) vs (rm_producer_to_participant r)\<rparr>"
proof (induction vs arbitrary: r)
  case Nil
  then show ?case by (simp add: revoked_keys_def drop_producers_Nil split_beta)
next
  case (Cons v vs)
  let ?r = "forget_producer (rv_participant_id v) (rv_producer_id v) r"
  have wf: "table_wf (rm_participants ?r)" using Cons.prems by (simp add: forget_producer_def)
  have split: "filter (\<lambda>(k, _). (i, k) \<notin> revoked_keys vs) (if i = a then tdel b t else t)
      = filter (\<lambda>(k, _). (i, k) \<notin> insert (a, b) (revoked_keys vs)) t"
    for i a b and t :: "(producer_id, producer_record) table"
    by (auto simp: AList.delete_eq intro!: filter_cong)
  have one: "drop_producers (revoked_keys vs) i
      (if i = a then p\<lparr>pt_producers := tdel b (pt_producers p)\<rparr> else p)
      = drop_producers (insert (a, b) (revoked_keys vs)) i p" for i a b p
    using split [of i a b "pt_producers p"] by (cases "i = a") (simp_all add: drop_producers_def)
  have keys: "revoked_keys (v # vs) = insert (rv_participant_id v, rv_producer_id v) (revoked_keys vs)"
    by (simp add: revoked_keys_def)
  have parts: "map (\<lambda>(i, p). (i, drop_producers (revoked_keys vs) i p)) (rm_participants ?r)
      = map (\<lambda>(i, p). (i, drop_producers (revoked_keys (v # vs)) i p)) (rm_participants r)"
    by (simp add: forget_producer_def tmod_map [OF Cons.prems] keys one split_beta del: if_image_distrib)
  have "fst (for_each (revoke_producer reason) (v # vs) r) = fst (for_each (revoke_producer reason) vs ?r)"
    by (simp add: revoke_producer_def split_beta Let_def)
  also have "\<dots> = ?r\<lparr>rm_participants := map (\<lambda>(i, p). (i, drop_producers (revoked_keys vs) i p)) (rm_participants ?r),
         rm_producer_to_participant :=
           fold (\<lambda>v. tdel (rv_producer_id v)) vs (rm_producer_to_participant ?r)\<rparr>"
    by (rule Cons.IH [OF wf])
  finally show ?case unfolding parts by (simp add: forget_producer_def)
qed

section \<open>What is revoked\<close>

definition broadcasting :: "room \<Rightarrow> participant \<Rightarrow> bool" where
  "broadcasting room q \<longleftrightarrow> (\<exists>k rec. tget (pt_producers q) k = Some rec \<and> record_allowed room q rec)"

definition outranks :: "participant \<Rightarrow> participant \<Rightarrow> bool" where
  "outranks q p \<longleftrightarrow> pt_role p < pt_role q \<or> (pt_role q = pt_role p \<and> pt_id q < pt_id p)"

definition rivals :: "room \<Rightarrow> participant \<Rightarrow> participant_id set" where
  "rivals room p = {j. \<exists>q. tget (rm_participants room) j = Some q \<and> broadcasting room q \<and> outranks q p}"

text \<open>A member over the limit: that many authorized broadcasters or more come before it.\<close>

definition outranked :: "room \<Rightarrow> participant \<Rightarrow> bool" where
  "outranked room p \<longleftrightarrow> (\<exists>maximum. broadcaster_limit room = Some maximum \<and> maximum \<le> card (rivals room p))"

lemma broadcaster_rank_less: "broadcaster_rank (pt_id q, pt_role q) < broadcaster_rank (pt_id p, pt_role p) \<longleftrightarrow> outranks q p"
  by (cases "pt_role q"; cases "pt_role p") (auto simp: broadcaster_rank_def outranks_def role_order)

lemma sorted_rank_index:
  fixes f :: "'a \<Rightarrow> 'b::linorder"
  assumes "sorted (map f xs)" "distinct (map f xs)" "n < length xs"
  shows "card {x \<in> set xs. f x < f (xs ! n)} = n"
proof -
  have "f (xs ! m) < f (xs ! n) \<longleftrightarrow> m < n" if "m < length xs" for m
  proof
    assume "f (xs ! m) < f (xs ! n)"
    then show "m < n"
      using sorted_nth_mono [OF assms(1), of n m] that by (metis length_map not_less nth_map assms(3))
  next
    assume "m < n"
    moreover from this have "f (xs ! m) \<le> f (xs ! n)" using sorted_nth_mono [OF assms(1), of m n] assms(3) that by simp
    moreover have "f (xs ! m) \<noteq> f (xs ! n)"
      using nth_eq_iff_index_eq [OF assms(2), of m n] \<open>m < n\<close> assms(3) that by simp
    ultimately show "f (xs ! m) < f (xs ! n)" by simp
  qed
  then have "x \<in> set xs \<and> f x < f (xs ! n) \<longleftrightarrow> (\<exists>m < n. x = xs ! m)" for x
    unfolding in_set_conv_nth using assms(3) by (metis less_trans)
  then have "{x \<in> set xs. f x < f (xs ! n)} = (\<lambda>m. xs ! m) ` {..<n}" by (simp add: image_def lessThan_def)
  moreover have "inj_on (\<lambda>m. xs ! m) {..<n}"
    using assms(2,3) by (auto simp: inj_on_def distinct_map nth_eq_iff_index_eq)
  ultimately show ?thesis by (simp add: card_image)
qed

lemma broadcasting_list_ex:
  "table_wf (pt_producers q) \<Longrightarrow> list_ex (record_allowed room q) (values_of (pt_producers q)) \<longleftrightarrow> broadcasting room q"
  unfolding list_ex_iff broadcasting_def by (meson in_values_of)

lemma broadcaster_candidates_set:
  assumes "room_wf r"
  shows "(i, c) \<in> set (broadcaster_candidates r) \<longleftrightarrow>
     (\<exists>q. tget (rm_participants r) i = Some q \<and> broadcasting r q \<and> c = pt_role q)"
proof -
  have "(i, c) \<in> set (broadcaster_candidates r) \<longleftrightarrow>
      (\<exists>j q. tget (rm_participants r) j = Some q \<and> list_ex (record_allowed r q) (values_of (pt_producers q))
        \<and> i = pt_id q \<and> c = pt_role q)"
    by (auto simp: broadcaster_candidates_def in_values_of [OF room_wfD(1) [OF assms]] image_iff)
  also have "\<dots> \<longleftrightarrow> (\<exists>j q. tget (rm_participants r) j = Some q \<and> broadcasting r q \<and> i = j \<and> c = pt_role q)"
    by (intro ex_cong1 conj_cong refl) (use room_wf_member [OF assms] broadcasting_list_ex in auto)
  finally show ?thesis by simp
qed

lemma broadcaster_candidates_distinct:
  assumes "room_wf r"
  shows "distinct (map broadcaster_rank (broadcaster_candidates r))"
proof -
  have "pt_id p = i" if "(i, p) \<in> set (rm_participants r)" for i p
    using that room_wf_member [OF assms] map_of_in_set [OF room_wfD(1) [OF assms]] by simp
  then have "map pt_id (values_of (rm_participants r)) = map fst (rm_participants r)"
    by (auto simp: values_of_def)
  then have "distinct (map pt_id (values_of (rm_participants r)))"
    using room_wfD(1) [OF assms] by (simp add: table_wf_def)
  then have "distinct (map (\<lambda>p. broadcaster_rank (pt_id p, pt_role p)) (values_of (rm_participants r)))"
    by (auto simp: distinct_map inj_on_def broadcaster_rank_def)
  then have "distinct (map broadcaster_rank (map (\<lambda>p. (pt_id p, pt_role p))
      (filter (\<lambda>p. list_ex (record_allowed r p) (values_of (pt_producers p))) (values_of (rm_participants r)))))"
    by (simp add: comp_def distinct_map_filter)
  moreover have "distinct (map f (sort_key f xs)) = distinct (map f xs)"
    for f :: "participant_id \<times> role \<Rightarrow> nat \<times> nat" and xs
    by (simp add: distinct_map)
  ultimately show ?thesis unfolding broadcaster_candidates_def by metis
qed

lemma broadcaster_candidates_sorted: "sorted (map broadcaster_rank (broadcaster_candidates r))"
  by (simp add: broadcaster_candidates_def)

lemma rivals_candidates:
  assumes wf: "room_wf r" and p: "tget (rm_participants r) i = Some p"
  shows "rivals r p = fst ` {c \<in> set (broadcaster_candidates r). broadcaster_rank c < broadcaster_rank (i, pt_role p)}"
    (is "_ = fst ` ?S")
proof -
  have "j \<in> fst ` ?S \<longleftrightarrow> (\<exists>q. tget (rm_participants r) j = Some q \<and> broadcasting r q \<and> outranks q p)" for j
  proof -
    have "j \<in> fst ` ?S \<longleftrightarrow> (\<exists>c. (j, c) \<in> set (broadcaster_candidates r)
        \<and> broadcaster_rank (j, c) < broadcaster_rank (i, pt_role p))" by (force simp: image_iff)
    also have "\<dots> \<longleftrightarrow> (\<exists>q. tget (rm_participants r) j = Some q \<and> broadcasting r q
        \<and> broadcaster_rank (pt_id q, pt_role q) < broadcaster_rank (pt_id p, pt_role p))"
      unfolding broadcaster_candidates_set [OF wf] using room_wf_member [OF wf] p by auto
    finally show ?thesis unfolding broadcaster_rank_less .
  qed
  then show ?thesis unfolding rivals_def by blast
qed

lemma in_set_drop_conv_nth: "x \<in> set (drop m xs) \<longleftrightarrow> (\<exists>n. m \<le> n \<and> n < length xs \<and> xs ! n = x)"
proof
  assume "x \<in> set (drop m xs)"
  then obtain n where "n < length xs - m" "drop m xs ! n = x" by (auto simp: in_set_conv_nth)
  then show "\<exists>n. m \<le> n \<and> n < length xs \<and> xs ! n = x" by (intro exI [of _ "m + n"]) simp
next
  assume "\<exists>n. m \<le> n \<and> n < length xs \<and> xs ! n = x"
  then obtain n where "m \<le> n" "n < length xs" "xs ! n = x" by blast
  then show "x \<in> set (drop m xs)" by (auto simp: in_set_conv_nth intro!: exI [of _ "n - m"])
qed

lemma over_capacity_iff:
  assumes wf: "room_wf r" and p: "tget (rm_participants r) i = Some p"
  shows "i \<in> set (over_capacity r) \<longleftrightarrow> broadcasting r p \<and> outranked r p"
proof (cases "broadcaster_limit r")
  case None
  then show ?thesis by (simp add: over_capacity_def outranked_def)
next
  case (Some maximum)
  let ?cs = "broadcaster_candidates r"
  have fsts: "inj_on fst (set ?cs)"
    by (rule inj_onI) (metis broadcaster_candidates_set [OF wf] option.inject prod.collapse)
  have ranks: "distinct (map broadcaster_rank ?cs)" "sorted (map broadcaster_rank ?cs)"
    by (rule broadcaster_candidates_distinct [OF wf], rule broadcaster_candidates_sorted)
  have "i \<in> set (over_capacity r) \<longleftrightarrow> (\<exists>n. n < length ?cs \<and> maximum \<le> n \<and> ?cs ! n = (i, pt_role p))"
  proof -
    have "i \<in> set (over_capacity r) \<longleftrightarrow> (\<exists>n. n < length ?cs \<and> maximum \<le> n \<and> fst (?cs ! n) = i)"
      unfolding over_capacity_def Some option.case set_map image_iff Bex_def in_set_drop_conv_nth by metis
    moreover have "?cs ! n = (i, pt_role p)" if "n < length ?cs" "fst (?cs ! n) = i" for n
      using that p broadcaster_candidates_set [OF wf, of i "snd (?cs ! n)"] nth_mem [of n ?cs]
      by (metis option.inject prod.collapse)
    ultimately show ?thesis by (metis fst_conv)
  qed
  also have "\<dots> \<longleftrightarrow> broadcasting r p \<and> maximum \<le> card (rivals r p)"
  proof -
    have idx: "card (rivals r p) = n" if "n < length ?cs" "?cs ! n = (i, pt_role p)" for n
      using sorted_rank_index [OF ranks(2,1) that(1)] that(2) rivals_candidates [OF wf p]
      by (simp add: card_image inj_on_subset [OF fsts])
    moreover have "(\<exists>n. n < length ?cs \<and> ?cs ! n = (i, pt_role p)) \<longleftrightarrow> broadcasting r p"
      using broadcaster_candidates_set [OF wf, of i "pt_role p"] p by (auto simp: in_set_conv_nth)
    ultimately show ?thesis by metis
  qed
  finally show ?thesis by (simp add: outranked_def Some)
qed

definition in_filter :: "participant_id option \<Rightarrow> participant_id \<Rightarrow> bool" where
  "in_filter f i \<longleftrightarrow> (case f of None \<Rightarrow> True | Some j \<Rightarrow> i = j)"

definition loses :: "room \<Rightarrow> participant \<Rightarrow> producer_record \<Rightarrow> bool" where
  "loses room p rec \<longleftrightarrow> \<not> record_allowed room p rec \<or> outranked room p"

lemma revoked_keys_iff:
  assumes wf: "room_wf r"
  shows "(i, k) \<in> revoked_keys (revoked_producers r f) \<longleftrightarrow>
     in_filter f i \<and> (\<exists>p rec. tget (rm_participants r) i = Some p \<and> tget (pt_producers p) k = Some rec
       \<and> loses r p rec)"
proof -
  have one: "(i, k) \<in> revoked_keys (revoked_of r (over_capacity r) p) \<longleftrightarrow>
      i = j \<and> (\<exists>rec. tget (pt_producers p) k = Some rec \<and> loses r p rec)"
    if p: "tget (rm_participants r) j = Some p" for j p
  proof -
    have "pt_id p = j" "table_wf (pt_producers p)" using room_wf_member [OF wf p] by simp_all
    moreover have "record_allowed r p rec \<Longrightarrow> tget (pt_producers p) k = Some rec \<Longrightarrow> broadcasting r p" for rec
      by (auto simp: broadcasting_def)
    moreover have "revoked_keys (revoked_of r over p)
        = (\<lambda>(k, rec). (pt_id p, k)) ` {(k, rec) \<in> set (pt_producers p). \<not> record_allowed r p rec \<or> pt_id p \<in> set over}"
      for over
      by (auto simp: revoked_keys_def revoked_of_def image_image split_beta)
    ultimately show ?thesis using over_capacity_iff [OF wf p]
      by (auto simp: map_of_in_set loses_def image_iff)
  qed
  have "(i, k) \<in> revoked_keys (revoked_producers r f) \<longleftrightarrow>
      (\<exists>j p. tget (rm_participants r) j = Some p \<and> in_filter f (pt_id p)
        \<and> (i, k) \<in> revoked_keys (revoked_of r (over_capacity r) p))"
  proof -
    have "revoked_keys (revoked_producers r f)
        = (\<Union>p \<in> {p \<in> set (values_of (rm_participants r)). in_filter f (pt_id p)}.
             revoked_keys (revoked_of r (over_capacity r) p))"
      by (simp add: revoked_keys_def revoked_producers_def image_UN in_filter_def)
    then show ?thesis unfolding in_values_of [OF room_wfD(1) [OF wf]] by blast
  qed
  also have "\<dots> \<longleftrightarrow> (\<exists>j p. tget (rm_participants r) j = Some p \<and> in_filter f j
        \<and> i = j \<and> (\<exists>rec. tget (pt_producers p) k = Some rec \<and> loses r p rec))"
    by (intro ex_cong1 conj_cong refl) (use room_wf_member [OF wf] one in auto)
  finally show ?thesis by auto
qed

lemma tget_map_values: "tget (map (\<lambda>(i, p). (i, f i p)) t) j = map_option (f j) (tget t j)"
  by (induction t) auto

lemma tget_filter_keys: "tget (filter (\<lambda>(k, _). P k) t) k = (if P k then tget t k else None)"
  by (induction t) auto

lemma revoke_participants:
  assumes wf: "room_wf r" and "revoke_unauthorized_producers f reason r = (vs, r', sent)"
  shows "tget (rm_participants r') i = map_option (drop_producers (revoked_keys (revoked_producers r f)) i)
           (tget (rm_participants r) i)"
    and "rm_settings r' = rm_settings r" "rm_broadcaster_ceiling r' = rm_broadcaster_ceiling r"
proof -
  have "r' = fst (for_each (revoke_producer reason) (revoked_producers r f) r)"
    using assms(2) by (simp add: revoke_unauthorized_producers_def Let_def) (metis fst_conv)
  note r' = this [unfolded revoke_loop [OF room_wfD(1) [OF wf]]]
  show "tget (rm_participants r') i = map_option (drop_producers (revoked_keys (revoked_producers r f)) i)
           (tget (rm_participants r) i)" unfolding r' by (simp add: tget_map_values)
  show "rm_settings r' = rm_settings r" "rm_broadcaster_ceiling r' = rm_broadcaster_ceiling r"
    unfolding r' by simp_all
qed

lemma revoke_unauthorized_producers_wf [wf_intros]:
  assumes wf: "room_wf r" and "revoke_unauthorized_producers f reason r = (vs, r', sent)"
  shows "room_wf r'"
proof -
  define kept where "kept q \<longleftrightarrow> room_wf q \<and>
      (\<forall>k i. tget (rm_producer_to_participant q) k = Some i \<longrightarrow> tget (rm_producer_to_participant r) k = Some i)" for q
  have step: "kept (fst (revoke_producer reason v q))" if v: "v \<in> set (revoked_producers r f)" and q: "kept q" for v q
  proof -
    let ?i = "rv_participant_id v" and ?k = "rv_producer_id v"
    have "(?i, ?k) \<in> revoked_keys (revoked_producers r f)" using v by (auto simp: revoked_keys_def)
    then have owner: "tget (rm_producer_to_participant r) ?k = Some ?i"
      unfolding revoked_keys_iff [OF wf] producer_owner [OF wf] by (auto simp: contains_key_def)
    have "j = ?i" if "tget (rm_producer_to_participant q) ?k = Some j" for j
      using q that owner unfolding kept_def by (metis option.inject)
    then have "room_wf (forget_producer ?i ?k q)"
      using q unfolding kept_def by (intro room_wf_forget_producer) auto
    moreover have "fst (revoke_producer reason v q) = forget_producer ?i ?k q"
      by (simp add: revoke_producer_def Let_def)
    ultimately show ?thesis using q by (simp add: kept_def forget_producer_def)
  qed
  have "kept (fst (for_each (revoke_producer reason) (revoked_producers r f) r))"
    by (rule for_each_keeps [where P = kept]) (use wf in \<open>simp add: kept_def\<close>, erule (1) step)
  then show ?thesis using assms(2) unfolding revoke_unauthorized_producers_def Let_def kept_def
    by (metis fst_conv prod.inject)
qed

section \<open>The policy enforced\<close>

text \<open>
  C10: revoking producers after a policy change keeps exactly the producers the policy allows
  whose owner is within the broadcaster limit, more privileged roles and then lower identifiers
  first; every other field of every member is untouched. The description mentions lookups only,
  so the outcome does not depend on the order in which the tables are traversed.
\<close>

theorem revocation_is_exact:
  assumes "room_wf room" and "revoke_unauthorized_producers None reason room = (revoked, room', sent)"
  shows "case (tget (rm_participants room) i, tget (rm_participants room') i) of
     (None, None) \<Rightarrow> True
   | (Some p, Some p') \<Rightarrow>
       p' = p\<lparr>pt_producers := pt_producers p'\<rparr>
       \<and> (\<forall>k record. tget (pt_producers p') k = Some record \<longleftrightarrow>
             tget (pt_producers p) k = Some record \<and> record_allowed room p record
             \<and> (\<forall>maximum. broadcaster_limit room = Some maximum \<longrightarrow> card (rivals room p) < maximum))
   | _ \<Rightarrow> False"
proof (cases "tget (rm_participants room) i")
  case None
  then show ?thesis using revoke_participants(1) [OF assms, of i] by simp
next
  case (Some p)
  let ?p = "drop_producers (revoked_keys (revoked_producers room None)) i p"
  have p': "tget (rm_participants room') i = Some ?p"
    using revoke_participants(1) [OF assms, of i] Some by simp
  have "tget (pt_producers ?p) k = Some rec \<longleftrightarrow> tget (pt_producers p) k = Some rec \<and> \<not> loses room p rec" for k rec
    using Some by (auto simp: drop_producers_def tget_filter_keys revoked_keys_iff [OF assms(1)] in_filter_def)
  then show ?thesis unfolding p' Some by (auto simp: loses_def outranked_def not_le drop_producers_def)
qed

definition member_authorized :: "room \<Rightarrow> participant \<Rightarrow> bool" where
  "member_authorized room p \<longleftrightarrow> (\<forall>k record. tget (pt_producers p) k = Some record \<longrightarrow> record_allowed room p record)"

definition authorized_except :: "participant_id set \<Rightarrow> room \<Rightarrow> bool" where
  "authorized_except S room \<longleftrightarrow>
     (\<forall>i p. tget (rm_participants room) i = Some p \<longrightarrow> i \<notin> S \<longrightarrow> member_authorized room p)"

definition producers_authorized :: "room \<Rightarrow> bool" where
  "producers_authorized room \<longleftrightarrow>
     (\<forall>i p. tget (rm_participants room) i = Some p \<longrightarrow> member_authorized room p)"

lemma authorized_except_none: "authorized_except {} r = producers_authorized r"
  by (simp add: authorized_except_def producers_authorized_def)

definition within_broadcaster_limit :: "room \<Rightarrow> bool" where
  "within_broadcaster_limit room \<longleftrightarrow>
     (\<forall>maximum. broadcaster_limit room = Some maximum \<longrightarrow> broadcaster_count room \<le> maximum)"

lemma table_nonempty: "t \<noteq> [] \<longleftrightarrow> (\<exists>k v. tget t k = Some v)"
  by (cases t) (auto intro: exI [of _ "fst (hd t)"])

lemma broadcaster_count_card:
  assumes wf: "room_wf r"
  shows "broadcaster_count r = card {i. \<exists>p. tget (rm_participants r) i = Some p \<and> pt_producers p \<noteq> []}"
proof -
  let ?xs = "filter (\<lambda>(i, p). pt_producers p \<noteq> []) (rm_participants r)"
  have "broadcaster_count r = length ?xs"
    by (simp add: broadcaster_count_def values_of_def filter_map comp_def case_prod_beta')
  also have "\<dots> = card (fst ` set ?xs)"
  proof -
    have "distinct (map fst ?xs)" using table_wf_filter [OF room_wfD(1) [OF wf]] by (simp add: table_wf_def)
    from distinct_card [OF this] show ?thesis by simp
  qed
  also have "fst ` set ?xs = {i. \<exists>p. tget (rm_participants r) i = Some p \<and> pt_producers p \<noteq> []}"
    by (auto simp: map_of_in_set [OF room_wfD(1) [OF wf]] image_iff)
  finally show ?thesis .
qed

lemma record_allowed_cong:
  "rm_settings r = rm_settings r' \<Longrightarrow> pt_punitive p = pt_punitive q \<Longrightarrow> pt_role p = pt_role q \<Longrightarrow>
     record_allowed r p rec = record_allowed r' q rec"
  by (cases "pr_source rec"; cases "rm_settings r'")
    (simp_all add: record_allowed_def producer_allowed_without_capacity_def settings_forbid_def is_some_and_def)

lemma broadcaster_limit_cong:
  "rm_settings r = rm_settings r' \<Longrightarrow> rm_broadcaster_ceiling r = rm_broadcaster_ceiling r' \<Longrightarrow>
     broadcaster_limit r = broadcaster_limit r'"
  by (simp add: broadcaster_limit_def)

lemma few_survivors:
  assumes wf: "room_wf r" and limit: "broadcaster_limit r = Some maximum"
  shows "card {i. \<exists>p. tget (rm_participants r) i = Some p \<and> broadcasting r p \<and> \<not> outranked r p} \<le> maximum"
    (is "card ?S \<le> _")
proof -
  let ?cs = "broadcaster_candidates r"
  have "?S \<subseteq> fst ` set (take maximum ?cs)"
  proof
    fix i assume "i \<in> ?S"
    then obtain p where p: "tget (rm_participants r) i = Some p" "broadcasting r p" "\<not> outranked r p" by blast
    then have "i \<notin> fst ` set (drop maximum ?cs)"
      using over_capacity_iff [OF wf p(1)] by (simp add: over_capacity_def limit)
    moreover have "i \<in> fst ` set ?cs" using broadcaster_candidates_set [OF wf, of i "pt_role p"] p by force
    ultimately show "i \<in> fst ` set (take maximum ?cs)"
      by (metis UnE append_take_drop_id image_Un set_append)
  qed
  then have "card ?S \<le> card (set (map fst (take maximum ?cs)))" by (intro card_mono) auto
  also have "\<dots> \<le> maximum" by (rule order_trans [OF card_length]) simp
  finally show ?thesis .
qed

theorem revocation_is_exact_witness:
  "\<exists>revoked room' sent. revoke_unauthorized_producers None ''cap'' sample_room = (revoked, room', sent)
     \<and> (\<exists>p'. tget (rm_participants room') 2 = Some p' \<and> tget (pt_producers p') 22 = None)"
proof -
  obtain revoked room' sent where r: "revoke_unauthorized_producers None ''cap'' sample_room = (revoked, room', sent)"
    by (cases "revoke_unauthorized_producers None ''cap'' sample_room") auto
  have limit: "broadcaster_limit sample_room = Some 1"
    by (simp add: broadcaster_limit_def sample_room_def new_with_observers_def)
  have p: "tget (rm_participants sample_room) 2 = Some (sample_member 2 User [(22, camera)])"
    by (simp add: sample_room_def)
  have "record_allowed sample_room (sample_member 1 Owner [(11, camera)]) camera"
    by (simp add: record_allowed_def camera_def producer_allowed_without_capacity_def valid_media_source_def
        sample_room_def new_with_observers_def is_some_and_def can_produce_def sample_member_def punitive_default_def)
  then have "1 \<in> rivals sample_room (sample_member 2 User [(22, camera)])"
    by (auto simp: rivals_def broadcasting_def outranks_def role_order sample_room_def sample_member_def
        intro!: exI [of _ "11::nat"])
  moreover have "finite (rivals sample_room (sample_member 2 User [(22, camera)]))"
    by (rule finite_subset [OF _ finite_dom_map_of [of "rm_participants sample_room"]]) (auto simp: rivals_def)
  ultimately have "1 \<le> card (rivals sample_room (sample_member 2 User [(22, camera)]))"
    using card_gt_0_iff [of "rivals sample_room (sample_member 2 User [(22, camera)])"] by auto
  then have "\<not> (\<forall>maximum. broadcaster_limit sample_room = Some maximum
      \<longrightarrow> card (rivals sample_room (sample_member 2 User [(22, camera)])) < maximum)"
    by (simp add: limit)
  with revocation_is_exact [OF sample_room_wf r, of 2] p
  have "\<exists>p'. tget (rm_participants room') 2 = Some p' \<and> (\<forall>rec. tget (pt_producers p') 22 \<noteq> Some rec)"
    by (auto split: option.splits)
  then show ?thesis using r by auto
qed

lemma revoke_kept:
  assumes "room_wf r" and "revoke_unauthorized_producers f reason r = (vs, r', sent)"
    and "tget (rm_participants r') i = Some p'"
  obtains p where "tget (rm_participants r) i = Some p"
    and "p' = drop_producers (revoked_keys (revoked_producers r f)) i p"
    and "\<And>k rec. tget (pt_producers p') k = Some rec \<Longrightarrow>
           tget (pt_producers p) k = Some rec \<and> (in_filter f i \<longrightarrow> \<not> loses r p rec)"
proof -
  let ?K = "revoked_keys (revoked_producers r f)"
  obtain p where p: "tget (rm_participants r) i = Some p" "p' = drop_producers ?K i p"
    using assms(3) revoke_participants(1) [OF assms(1,2), of i] by auto
  have "in_filter f i \<longrightarrow> \<not> loses r p rec" if "tget (pt_producers p) k = Some rec" "(i, k) \<notin> ?K" for k rec
    using that p(1) by (auto simp: revoked_keys_iff [OF assms(1)])
  then show ?thesis using p by (intro that) (auto simp: drop_producers_def tget_filter_keys split: if_splits)
qed

lemma revoke_authorized:
  assumes wf: "room_wf r" and r': "revoke_unauthorized_producers f reason r = (vs, r', sent)"
    and rest: "authorized_except S r"
  shows "authorized_except {i \<in> S. \<not> in_filter f i} r'"
  unfolding authorized_except_def member_authorized_def
proof (intro allI impI)
  fix i p' k rec
  assume p': "tget (rm_participants r') i = Some p'" and i: "i \<notin> {i \<in> S. \<not> in_filter f i}"
    and rec: "tget (pt_producers p') k = Some rec"
  from revoke_kept [OF wf r' p'] obtain p where p: "tget (rm_participants r) i = Some p"
      "p' = drop_producers (revoked_keys (revoked_producers r f)) i p"
      "tget (pt_producers p) k = Some rec" "in_filter f i \<longrightarrow> \<not> loses r p rec"
    using rec by metis
  have "record_allowed r p rec"
    using p i rest by (cases "in_filter f i") (auto simp: loses_def authorized_except_def member_authorized_def)
  then show "record_allowed r' p' rec"
    using record_allowed_cong [of r' r p' p rec] revoke_participants(2) [OF wf r'] by (simp add: p(2) drop_producers_def)
qed

lemma revoke_all_within:
  assumes "room_wf r" and "revoke_unauthorized_producers None reason r = (vs, r', sent)"
  shows "within_broadcaster_limit r'"
  unfolding within_broadcaster_limit_def
proof (intro allI impI)
  fix maximum assume "broadcaster_limit r' = Some maximum"
  then have limit: "broadcaster_limit r = Some maximum"
    using broadcaster_limit_cong [OF revoke_participants(2,3) [OF assms]] by simp
  let ?S = "{i. \<exists>p. tget (rm_participants r) i = Some p \<and> broadcasting r p \<and> \<not> outranked r p}"
  have "i \<in> ?S" if p': "tget (rm_participants r') i = Some p'" "pt_producers p' \<noteq> []" for i p'
  proof -
    from p'(2) obtain k rec where "tget (pt_producers p') k = Some rec" by (auto simp: table_nonempty)
    with assms p'(1) obtain p where "tget (rm_participants r) i = Some p" "tget (pt_producers p) k = Some rec" "\<not> loses r p rec"
      by (auto simp: in_filter_def elim: revoke_kept)
    then show ?thesis by (auto simp: broadcasting_def loses_def)
  qed
  then have "{i. \<exists>p. tget (rm_participants r') i = Some p \<and> pt_producers p \<noteq> []} \<subseteq> ?S" by blast
  moreover have "finite ?S" by (rule finite_subset [OF _ finite_dom_map_of [of "rm_participants r"]]) auto
  ultimately show "broadcaster_count r' \<le> maximum"
    using few_survivors [OF assms(1) limit] card_mono
      broadcaster_count_card [OF revoke_unauthorized_producers_wf [OF assms]] by (metis (lifting) le_trans)
qed

text \<open>
  C11: after a room-wide revocation every remaining producer is allowed by the room's settings,
  its owner's role and sanctions, and no more members broadcast than the room's limit and the
  deployment's ceiling admit.
\<close>

theorem revocation_enforces_policy:
  assumes "room_wf room" and "revoke_unauthorized_producers None reason room = (revoked, room', sent)"
  shows "producers_authorized room' \<and> within_broadcaster_limit room'"
  using revoke_authorized [OF assms, of UNIV] revoke_all_within [OF assms]
  by (simp add: in_filter_def authorized_except_none) (simp add: authorized_except_def)

theorem revocation_enforces_policy_witness:
  "\<exists>revoked room' sent. revoke_unauthorized_producers None ''cap'' sample_room = (revoked, room', sent)
     \<and> broadcaster_count sample_room = 2 \<and> broadcaster_count room' \<le> 1"
proof -
  obtain revoked room' sent where r: "revoke_unauthorized_producers None ''cap'' sample_room = (revoked, room', sent)"
    by (cases "revoke_unauthorized_producers None ''cap'' sample_room") auto
  have "broadcaster_limit sample_room = Some 1"
    by (simp add: broadcaster_limit_def sample_room_def new_with_observers_def)
  then have "broadcaster_limit room' = Some 1"
    using revoke_participants(2,3) [OF sample_room_wf r] broadcaster_limit_cong by metis
  then have "broadcaster_count room' \<le> 1"
    using revocation_enforces_policy [OF sample_room_wf r] by (simp add: within_broadcaster_limit_def)
  moreover have "broadcaster_count sample_room = 2"
    by (simp add: broadcaster_count_def values_of_def sample_room_def sample_member_def)
  ultimately show ?thesis using r by blast
qed

end
