(* ===== verification/Publication.thy ===== *)
theory Publication
  imports Media_Revocation
begin

text \<open>
  What a moderation decision changes in a live room (\<^verbatim>\<open>src/room/publication.rs\<close>): sanctions,
  removals, role changes and lifted bans, with every notice they send. The parameter
  \<^verbatim>\<open>closed\<close> says which channels are closed; clock readings and a fresh ban identifier are
  arguments.
\<close>

section \<open>Sanctions\<close>

record sanction_publication =
  sp_target :: participant_id
  sp_participants :: "participant_id list"
  sp_lobby :: "participant_id list"
  sp_authenticated :: bool
  sp_ip :: "ip_addr option"
  sp_kind :: punitive_kind
  sp_enabled :: bool

fun revoke_each :: "string \<Rightarrow> participant_id list \<Rightarrow> room \<Rightarrow> revoked_producer list \<times> room \<times> effect list" where
  "revoke_each reason [] room = ([], room, [])"
| "revoke_each reason (i # ids) room =
     (let (revoked, room', sent) = revoke_unauthorized_producers (Some i) reason room;
          (more, room'', rest) = revoke_each reason ids room' in
      (revoked @ more, room'', sent @ rest))"

definition tell_lobby :: "participant_id list \<Rightarrow> (participant_id \<Rightarrow> server_message) \<Rightarrow> room \<Rightarrow> effect list" where
  "tell_lobby ids message room =
     concat (map (\<lambda>i. case tget (rm_lobby room) i of Some e \<Rightarrow> [Send (le_sender e) (message i)] | None \<Rightarrow> []) ids)"

definition publish_sanction ::
  "(chan \<Rightarrow> bool) \<Rightarrow> sanction_publication \<Rightarrow> room \<Rightarrow> revoked_producer list \<times> room \<times> effect list" where
  "publish_sanction closed pub room =
     (let key = sanction_key_for (sp_target pub) (sp_authenticated pub) (sp_ip pub);
          (_, room1) = apply_punitive_to_cohort (sp_participants pub) (sp_lobby pub) key (sp_kind pub) (sp_enabled pub) room;
          notice = punitive_notification (sp_kind pub) (sp_enabled pub);
          told = concat (map (\<lambda>i. broadcast_all (notice i) room1) (sp_participants pub));
          waiting = tell_lobby (sp_lobby pub) notice room1;
          (revoked, room2, closing) =
            (if sp_kind pub = CamBanned \<and> sp_enabled pub
             then revoke_each ''Camera access revoked by moderator'' (sp_participants pub) room1
             else ([], room1, []));
          room3 = bump_policy room2 in
      (revoked, room3, told @ waiting @ closing @ notify_lobby_status closed room3))"

section \<open>Kicks and bans\<close>

record removal_publication =
  rp_ban :: bool
  rp_participants :: "participant_id list"
  rp_lobby :: "participant_id list"
  rp_authenticated :: bool
  rp_ip :: "ip_addr option"
  rp_name :: string
  rp_reason :: "string option"
  rp_duration_seconds :: "nat option"

record removed_session =
  rd_participant_id :: participant_id
  rd_media_session_id :: uuid

definition remember_ban :: "uuid \<Rightarrow> instant \<Rightarrow> date_time \<Rightarrow> removal_publication \<Rightarrow> room \<Rightarrow> room" where
  "remember_ban ban_id now wall pub room =
     (let ids = rp_participants pub @ rp_lobby pub;
          runtime_expiry = Option.bind (rp_duration_seconds pub) (\<lambda>s. instant_checked_add now (from_secs s));
          room' = record_banned_cohort ids (rp_authenticated pub) (rp_ip pub) runtime_expiry room in
      room'\<lparr>rm_social := record_ban ban_id now wall (rp_name pub) (rp_authenticated pub) ids (rp_ip pub)
               (rp_reason pub) (rp_duration_seconds pub) (rm_social room')\<rparr>)"

definition removal_notice :: "removal_publication \<Rightarrow> participant_id \<Rightarrow> server_message" where
  "removal_notice pub i =
     (if rp_ban pub then MsgParticipantBanned i (rp_reason pub) else MsgParticipantKicked i (rp_reason pub))"

definition remove_one :: "(chan \<Rightarrow> bool) \<Rightarrow> removal_publication \<Rightarrow> participant_id \<Rightarrow> room \<Rightarrow> room \<times> effect list" where
  "remove_one closed pub i room =
     (let told = broadcast_all (removal_notice pub i) room in
      case tget (rm_participants room) i of
        Some _ \<Rightarrow> (let room' = forget_member i room in
                   (room', told @ broadcast_participant_left closed i room'))
      | None \<Rightarrow> (room, told))"

text \<open>The sessions removed are those of the listed members, each once.\<close>

fun removed_sessions :: "participant_id list \<Rightarrow> (participant_id, participant) table \<Rightarrow> removed_session list" where
  "removed_sessions [] members = []"
| "removed_sessions (i # ids) members =
     (case tget members i of
        Some p \<Rightarrow> \<lparr>rd_participant_id = i, rd_media_session_id = pt_media_session_id p\<rparr>
                    # removed_sessions ids (tdel i members)
      | None \<Rightarrow> removed_sessions ids members)"

definition deny_one :: "server_message \<Rightarrow> participant_id \<Rightarrow> room \<Rightarrow> room \<times> effect list" where
  "deny_one notice i room =
     (case tget (rm_lobby room) i of
        Some e \<Rightarrow> (room\<lparr>rm_lobby := tdel i (rm_lobby room)\<rparr>, [Send (le_sender e) notice])
      | None \<Rightarrow> (room, []))"

definition publish_removal ::
  "(chan \<Rightarrow> bool) \<Rightarrow> uuid \<Rightarrow> instant \<Rightarrow> date_time \<Rightarrow> removal_publication \<Rightarrow> room \<Rightarrow>
     removed_session list \<times> room \<times> effect list" where
  "publish_removal closed ban_id now wall pub room =
     (let room1 = (if rp_ban pub then remember_ban ban_id now wall pub room else room);
          sessions = removed_sessions (rp_participants pub) (rm_participants room1);
          (room2, told) = for_each (remove_one closed pub) (rp_participants pub) room1;
          (room3, denied) =
            (if rp_ban pub
             then for_each (deny_one (MsgLobbyDenied (Some (unwrap_or (rp_reason pub) ''Banned from room''))))
                    (rp_lobby pub) room2
             else (room2, []));
          room4 = bump_policy room3 in
      (sessions, room4, told @ denied @ notify_lobby_status closed room4))"

section \<open>Roles and lifted bans\<close>

definition set_member_role_in :: "participant_id \<Rightarrow> role \<Rightarrow> room \<Rightarrow> room" where
  "set_member_role_in target r room =
     room\<lparr>rm_participants := tmod target (\<lambda>p. p\<lparr>pt_role := r\<rparr>) (rm_participants room),
          rm_lobby := tmod target (\<lambda>e. e\<lparr>le_role := r\<rparr>) (rm_lobby room)\<rparr>"

definition publish_role ::
  "(chan \<Rightarrow> bool) \<Rightarrow> participant_id \<Rightarrow> role \<Rightarrow> participant_id \<Rightarrow> room \<Rightarrow>
     revoked_producer list \<times> room \<times> effect list" where
  "publish_role closed target r granted_by room =
     (let room1 = set_member_role_in target r room;
          told = notify_lobby_status closed room1;
          (revoked, room2, closing) =
            revoke_unauthorized_producers (Some target) ''Role no longer permits this producer'' (bump_policy room1) in
      (revoked, room2, told @ closing @ broadcast_all (MsgRoleChanged target r granted_by) room2))"

definition release_ban :: "participant_id \<Rightarrow> room \<Rightarrow> room" where
  "release_ban i room =
     room\<lparr>rm_banned_participants := tdel i (rm_banned_participants room),
          rm_banned_guest_participants := removeAll i (rm_banned_guest_participants room)\<rparr>"

definition publish_unban ::
  "participant_id option \<Rightarrow> ip_addr option \<Rightarrow> participant_id list \<Rightarrow> room \<Rightarrow> room" where
  "publish_unban user guest_ip released room =
     (let (forgotten, social) = forget_ban user guest_ip (rm_social room);
          room1 = room\<lparr>rm_social := social\<rparr>;
          room2 = (case user of Some u \<Rightarrow>
                     room1\<lparr>rm_banned_participants := tdel u (rm_banned_participants room1)\<rparr> | None \<Rightarrow> room1);
          room3 = (case guest_ip of Some ip \<Rightarrow>
                     room2\<lparr>rm_banned_guest_ips := tdel ip (rm_banned_guest_ips room2)\<rparr> | None \<Rightarrow> room2) in
      bump_policy (fold release_ban (released @ forgotten) room3))"

section \<open>Sanctions: what changes\<close>

lemma map_of_fold_tmod_idem:
  assumes "\<And>v. f (f v) = f v"
  shows "map_of (fold (\<lambda>i. tmod i f) ids t) j = (if j \<in> set ids then map_option f (map_of t j) else map_of t j)"
  by (induction ids arbitrary: t) (auto simp: option.map_comp comp_def assms)

lemma table_wf_fold_tmod [simp]: "table_wf t \<Longrightarrow> table_wf (fold (\<lambda>i. tmod i f) ids t)"
  by (induction ids arbitrary: t) auto

lemma apply_punitive_members:
  "tget (rm_participants (snd (apply_punitive_to_cohort ids lids key kind enabled r))) i
     = (if i \<in> set ids then map_option (\<lambda>p. p\<lparr>pt_punitive := fst (apply_punitive_to_cohort ids lids key kind enabled r)\<rparr>)
          (tget (rm_participants r) i) else tget (rm_participants r) i)"
  by (simp add: apply_punitive_to_cohort_def Let_def map_of_fold_tmod_idem)

lemma apply_punitive_waiting:
  "tget (rm_lobby (snd (apply_punitive_to_cohort ids lids key kind enabled r))) i
     = (if i \<in> set lids then map_option (\<lambda>e. e\<lparr>le_punitive := fst (apply_punitive_to_cohort ids lids key kind enabled r)\<rparr>)
          (tget (rm_lobby r) i) else tget (rm_lobby r) i)"
  by (simp add: apply_punitive_to_cohort_def Let_def map_of_fold_tmod_idem)

lemma room_wf_members_cong:
  assumes "room_wf r" and "table_wf (rm_participants r')" and "table_wf (rm_lobby r')"
    and "\<And>i. map_option (\<lambda>p. (pt_id p, pt_producers p)) (tget (rm_participants r') i)
           = map_option (\<lambda>p. (pt_id p, pt_producers p)) (tget (rm_participants r) i)"
    and "\<And>i. map_option le_participant_id (tget (rm_lobby r') i) = map_option le_participant_id (tget (rm_lobby r) i)"
    and "rm_producer_to_participant r' = rm_producer_to_participant r"
    and "bans_wf r'" and "table_wf (rm_sanctions r')" and "social_wf (rm_social r')"
  shows "room_wf r'"
proof -
  have m: "\<exists>q. tget (rm_participants r) i = Some q \<and> pt_id p = pt_id q \<and> pt_producers p = pt_producers q"
    if "tget (rm_participants r') i = Some p" for i p
    using assms(4) [of i] that by (cases "tget (rm_participants r) i") auto
  have m': "\<exists>q. tget (rm_participants r') i = Some q \<and> pt_id p = pt_id q \<and> pt_producers p = pt_producers q"
    if "tget (rm_participants r) i = Some p" for i p
    using assms(4) [of i] that by (cases "tget (rm_participants r') i") auto
  have l: "\<exists>f. tget (rm_lobby r) i = Some f \<and> le_participant_id e = le_participant_id f"
    if "tget (rm_lobby r') i = Some e" for i e
    using assms(5) [of i] that by (cases "tget (rm_lobby r) i") auto
  have "members_wf r'"
    unfolding members_wf_def
  proof (intro conjI allI impI)
    fix i p assume "tget (rm_participants r') i = Some p"
    then show "pt_id p = i" "table_wf (pt_producers p)"
      using m room_wf_member [OF assms(1)] by metis+
  next
    fix i e assume "tget (rm_lobby r') i = Some e"
    then show "le_participant_id e = i" using l room_wf_waiting [OF assms(1)] by metis
  next
    fix i assume "contains_key (rm_participants r') i"
    then show "\<not> contains_key (rm_lobby r') i"
      using m l room_wf_member [OF assms(1)] unfolding contains_key_def by (metis not_None_eq)
  qed (rule assms(2,3))+
  moreover have "producers_wf r'"
    unfolding producers_wf_def assms(6) producer_owner [OF assms(1)]
    using m m' room_wfD(4) [OF assms(1)] by metis
  ultimately show ?thesis using assms(7-9) by (simp add: room_wf_def)
qed

lemma apply_punitive_wf [wf_intros]:
  assumes "room_wf r"
  shows "room_wf (snd (apply_punitive_to_cohort ids lids key kind enabled r))"
proof (rule room_wf_members_cong [OF assms])
  let ?r = "snd (apply_punitive_to_cohort ids lids key kind enabled r)"
  show "table_wf (rm_participants ?r)" "table_wf (rm_lobby ?r)" "table_wf (rm_sanctions ?r)"
    using room_wfD [OF assms] by (simp_all add: apply_punitive_to_cohort_def Let_def)
  show "rm_producer_to_participant ?r = rm_producer_to_participant r" "bans_wf ?r" "social_wf (rm_social ?r)"
    using assms by (simp_all add: apply_punitive_to_cohort_def Let_def room_wf_defs)
qed (auto simp: apply_punitive_members apply_punitive_waiting option.map_comp comp_def)

lemma revoke_keeps:
  assumes wf: "room_wf r" and "revoke_unauthorized_producers f reason r = (vs, r', sent)"
  shows "present r' = present r" "rm_banned_participants r' = rm_banned_participants r"
    "rm_banned_guest_ips r' = rm_banned_guest_ips r" "rm_sanctions r' = rm_sanctions r"
    "rm_lobby r' = rm_lobby r" "rm_settings r' = rm_settings r"
    "rm_broadcaster_ceiling r' = rm_broadcaster_ceiling r"
proof -
  have "r' = fst (for_each (revoke_producer reason) (revoked_producers r f) r)"
    using assms(2) by (simp add: revoke_unauthorized_producers_def Let_def) (metis fst_conv)
  note r' = this [unfolded revoke_loop [OF room_wfD(1) [OF wf]]]
  show "rm_banned_participants r' = rm_banned_participants r" "rm_banned_guest_ips r' = rm_banned_guest_ips r"
    "rm_sanctions r' = rm_sanctions r" "rm_lobby r' = rm_lobby r" "rm_settings r' = rm_settings r"
    "rm_broadcaster_ceiling r' = rm_broadcaster_ceiling r"
    by (simp_all add: r')
  then show "present r' = present r"
    using revoke_participants(1) [OF assms]
    by (auto simp: present_def fun_eq_iff drop_producers_def split: option.splits)
qed

lemma revoke_keeps_safe [wf_intros]:
  assumes "room_safe r" and "revoke_unauthorized_producers f reason r = (vs, r', sent)"
  shows "room_safe r'"
  using assms revoke_keeps [OF room_safe_wf [OF assms(1)] assms(2)]
    revoke_unauthorized_producers_wf [OF room_safe_wf [OF assms(1)] assms(2)]
  by (intro room_safe_same [OF assms(1)]) simp_all

lemma revoke_each_safe [wf_intros]:
  "room_safe r \<Longrightarrow> revoke_each reason ids r = (vs, r', sent) \<Longrightarrow> room_safe r'"
proof (induction ids arbitrary: r vs r' sent)
  case (Cons i ids)
  obtain v1 r1 s1 where r1: "revoke_unauthorized_producers (Some i) reason r = (v1, r1, s1)"
    by (cases "revoke_unauthorized_producers (Some i) reason r") auto
  obtain v2 r2 s2 where r2: "revoke_each reason ids r1 = (v2, r2, s2)"
    by (cases "revoke_each reason ids r1") auto
  have "room_safe r1" by (rule revoke_keeps_safe [OF Cons.prems(1) r1])
  then have "room_safe r2" using Cons.IH r2 by blast
  then show ?case using Cons.prems(2) by (simp add: r1 r2)
qed simp

text \<open>The lists of a publication name exactly those present under the sanctioned identity.\<close>

definition sanction_covers :: "sanction_publication \<Rightarrow> room \<Rightarrow> bool" where
  "sanction_covers pub r \<longleftrightarrow>
     (let key = sanction_key_for (sp_target pub) (sp_authenticated pub) (sp_ip pub) in
      (\<forall>i p. tget (rm_participants r) i = Some p \<longrightarrow>
         (sanction_key_for i (pt_authenticated p) (pt_ip p) = key \<longleftrightarrow> i \<in> set (sp_participants pub)))
      \<and> (\<forall>i e. tget (rm_lobby r) i = Some e \<longrightarrow>
         (sanction_key_for i (le_authenticated e) (le_ip e) = key \<longleftrightarrow> i \<in> set (sp_lobby pub))))"

lemma apply_punitive_present:
  fixes kind :: punitive_kind and enabled :: bool
  assumes covers: "sanction_covers pub r" and key: "key = sanction_key_for (sp_target pub) (sp_authenticated pub) (sp_ip pub)"
  defines "a \<equiv> apply_punitive_to_cohort (sp_participants pub) (sp_lobby pub) key kind enabled r"
  shows "present (snd a) i = map_option (\<lambda>(b, ip, s).
      (b, ip, if sanction_key_for i b ip = key then fst a else s)) (present r i)"
proof (cases "tget (rm_participants r) i")
  case None
  then show ?thesis using covers
    by (cases "tget (rm_lobby r) i")
      (auto simp: a_def present_def apply_punitive_members apply_punitive_waiting sanction_covers_def Let_def key)
next
  case (Some p)
  then show ?thesis using covers
    by (auto simp: a_def present_def apply_punitive_members sanction_covers_def Let_def key)
qed

lemma apply_punitive_stored:
  "stored_sanction (snd (apply_punitive_to_cohort ids lids key kind enabled r)) key' k
     = (if key' = key then punitive_value (fst (apply_punitive_to_cohort ids lids key kind enabled r)) k
        else stored_sanction r key' k)"
  by (cases k) (auto simp: stored_sanction_def apply_punitive_to_cohort_def Let_def is_some_and_def punitive_default_def)

lemma apply_punitive_safe:
  assumes safe: "room_safe r" and covers: "sanction_covers pub r"
    and key: "key = sanction_key_for (sp_target pub) (sp_authenticated pub) (sp_ip pub)"
  shows "room_safe (snd (apply_punitive_to_cohort (sp_participants pub) (sp_lobby pub) key kind enabled r))"
proof -
  let ?a = "apply_punitive_to_cohort (sp_participants pub) (sp_lobby pub) key kind enabled r"
  note pres = apply_punitive_present [OF covers key]
  have bans: "rm_banned_participants (snd ?a) = rm_banned_participants r"
      "rm_banned_guest_ips (snd ?a) = rm_banned_guest_ips r"
    by (simp_all add: apply_punitive_to_cohort_def Let_def)
  have "ban_safe (snd ?a)"
    using safe pres unfolding room_safe_def ban_safe_def identity_is_banned_def bans by fastforce
  moreover have "sanctions_recorded (snd ?a)"
    using safe pres apply_punitive_stored [of "sp_participants pub" "sp_lobby pub" key kind enabled r]
    unfolding room_safe_def sanctions_recorded_def by fastforce
  ultimately show ?thesis using apply_punitive_wf [OF room_safe_wf [OF safe]] by (simp add: room_safe_def)
qed

lemma publish_sanction_safe [wf_intros]:
  assumes "room_safe r" and "sanction_covers pub r" and "publish_sanction closed pub r = (vs, r', sent)"
  shows "room_safe r'"
proof -
  let ?key = "sanction_key_for (sp_target pub) (sp_authenticated pub) (sp_ip pub)"
  let ?r1 = "snd (apply_punitive_to_cohort (sp_participants pub) (sp_lobby pub) ?key (sp_kind pub) (sp_enabled pub) r)"
  have safe: "room_safe ?r1" by (rule apply_punitive_safe [OF assms(1,2) refl])
  obtain v2 r2 s2 where r2: "(if sp_kind pub = CamBanned \<and> sp_enabled pub
             then revoke_each ''Camera access revoked by moderator'' (sp_participants pub) ?r1
             else ([], ?r1, [])) = (v2, r2, s2)" by (cases rule: prod_cases3)
  then have "room_safe r2" using safe revoke_each_safe by (auto split: if_splits)
  moreover have "r' = bump_policy r2"
    using assms(3) r2 by (simp add: publish_sanction_def Let_def split_beta)
  ultimately show ?thesis by simp
qed

section \<open>Removals, roles and lifted bans: what changes\<close>

lemma remove_one_room: "fst (remove_one closed pub i r) = forget_member i r"
  by (auto simp: remove_one_def forget_member_def Let_def split: option.splits)

definition members_gone :: "participant_id set \<Rightarrow> room \<Rightarrow> room \<Rightarrow> bool" where
  "members_gone I r r' \<longleftrightarrow>
     room_wf r' \<and> (\<forall>i. tget (rm_participants r') i = (if i \<in> I then None else tget (rm_participants r) i))
     \<and> rm_lobby r' = rm_lobby r \<and> rm_banned_participants r' = rm_banned_participants r
     \<and> rm_banned_guest_ips r' = rm_banned_guest_ips r \<and> rm_sanctions r' = rm_sanctions r
     \<and> rm_settings r' = rm_settings r \<and> rm_broadcaster_ceiling r' = rm_broadcaster_ceiling r"

lemma forget_member_gone:
  "members_gone I r q \<Longrightarrow> members_gone (insert i I) r (forget_member i q)"
  unfolding members_gone_def using room_wf_forget_member [of q i]
  by (cases "tget (rm_participants q) i") (auto simp: forget_member_def)

lemma remove_loop_gone:
  "members_gone I r q \<Longrightarrow> members_gone (set ids \<union> I) r (fst (for_each (remove_one closed pub) ids q))"
proof (induction ids arbitrary: I q)
  case (Cons i ids)
  have "members_gone (set ids \<union> insert i I) r (fst (for_each (remove_one closed pub) ids (forget_member i q)))"
    by (rule Cons.IH [OF forget_member_gone [OF Cons.prems]])
  then show ?case by (simp add: split_beta Let_def remove_one_room insert_commute)
qed simp

lemma deny_loop:
  assumes "room_wf q"
  shows "let q' = fst (for_each (deny_one notice) ids q) in
     room_wf q' \<and> rm_participants q' = rm_participants q
     \<and> (\<forall>i. tget (rm_lobby q') i = (if i \<in> set ids then None else tget (rm_lobby q) i))
     \<and> rm_banned_participants q' = rm_banned_participants q \<and> rm_banned_guest_ips q' = rm_banned_guest_ips q
     \<and> rm_sanctions q' = rm_sanctions q \<and> rm_settings q' = rm_settings q
     \<and> rm_broadcaster_ceiling q' = rm_broadcaster_ceiling q"
  using assms
proof (induction ids arbitrary: q)
  case (Cons i ids)
  let ?q = "fst (deny_one notice i q)"
  have "room_wf ?q" using Cons.prems room_wf_remove_waiting by (auto simp: deny_one_def split: option.splits)
  moreover have "rm_participants ?q = rm_participants q \<and> tget (rm_lobby ?q) j = (if j = i then None else tget (rm_lobby q) j)
      \<and> rm_banned_participants ?q = rm_banned_participants q \<and> rm_banned_guest_ips ?q = rm_banned_guest_ips q
      \<and> rm_sanctions ?q = rm_sanctions q \<and> rm_settings ?q = rm_settings q
      \<and> rm_broadcaster_ceiling ?q = rm_broadcaster_ceiling q" for j
    by (auto simp: deny_one_def split: option.splits)
  ultimately show ?case using Cons.IH [of ?q] by (simp add: split_beta Let_def)
qed (simp add: Let_def)

lemma tget_fold_tput: "tget (fold (\<lambda>i. tput i v) ids t) i = (if i \<in> set ids then Some v else tget t i)"
  by (induction ids arbitrary: t) auto

lemma table_wf_fold_tput [simp]: "table_wf t \<Longrightarrow> table_wf (fold (\<lambda>i. tput i v) ids t)"
  by (induction ids arbitrary: t) auto

lemma record_banned_cohort_wf [wf_intros]:
  "room_wf r \<Longrightarrow> room_wf (record_banned_cohort ids a ip expiry r)"
  by (auto simp: record_banned_cohort_def Let_def room_wf_defs split: option.splits)

lemma remember_ban_wf [wf_intros]: "room_wf r \<Longrightarrow> room_wf (remember_ban b now wall pub r)"
  unfolding remember_ban_def Let_def
  by (rule room_wf_social) (simp_all add: record_banned_cohort_wf room_wfD(5))

lemma remember_ban_keys:
  "contains_key (rm_banned_participants (remember_ban b now wall pub r)) i \<longleftrightarrow>
     i \<in> set (rp_participants pub) \<union> set (rp_lobby pub) \<or> contains_key (rm_banned_participants r) i"
  "contains_key (rm_banned_guest_ips (remember_ban b now wall pub r)) a \<longleftrightarrow>
     (\<not> rp_authenticated pub \<and> map_option cohort (rp_ip pub) = Some a) \<or> contains_key (rm_banned_guest_ips r) a"
  by (auto simp: remember_ban_def record_banned_cohort_def Let_def contains_key_def tget_fold_tput split: option.splits)

lemma remember_ban_keeps:
  "rm_participants (remember_ban b now wall pub r) = rm_participants r"
  "rm_lobby (remember_ban b now wall pub r) = rm_lobby r"
  "rm_sanctions (remember_ban b now wall pub r) = rm_sanctions r"
  "rm_settings (remember_ban b now wall pub r) = rm_settings r"
  "rm_broadcaster_ceiling (remember_ban b now wall pub r) = rm_broadcaster_ceiling r"
  by (auto simp: remember_ban_def record_banned_cohort_def Let_def split: option.splits)

text \<open>A ban's lists name everybody present whom it keeps out.\<close>

definition removal_covers :: "removal_publication \<Rightarrow> room \<Rightarrow> bool" where
  "removal_covers pub r \<longleftrightarrow>
     (\<forall>i \<in> set (rp_participants pub). tget (rm_lobby r) i = None)
     \<and> (\<forall>i \<in> set (rp_lobby pub). tget (rm_participants r) i = None)
     \<and> (\<forall>ip. \<not> rp_authenticated pub \<longrightarrow> rp_ip pub = Some ip \<longrightarrow>
          (\<forall>i p. tget (rm_participants r) i = Some p \<longrightarrow> guest_in_cohort (cohort ip) p \<longrightarrow> i \<in> set (rp_participants pub))
          \<and> (\<forall>i e. tget (rm_lobby r) i = Some e \<longrightarrow> lobby_guest_in_cohort (cohort ip) e \<longrightarrow> i \<in> set (rp_lobby pub)))"

lemma publish_removal_room:
  assumes wf: "room_wf r" and "publish_removal closed b now wall pub r = (ss, r', sent)"
  shows "room_wf r'"
    and "tget (rm_participants r') i = (if i \<in> set (rp_participants pub) then None else tget (rm_participants r) i)"
    and "tget (rm_lobby r') i = (if rp_ban pub \<and> i \<in> set (rp_lobby pub) then None else tget (rm_lobby r) i)"
    and "rm_banned_participants r' = rm_banned_participants (if rp_ban pub then remember_ban b now wall pub r else r)"
    and "rm_banned_guest_ips r' = rm_banned_guest_ips (if rp_ban pub then remember_ban b now wall pub r else r)"
    and "rm_sanctions r' = rm_sanctions r" and "rm_settings r' = rm_settings r"
    and "rm_broadcaster_ceiling r' = rm_broadcaster_ceiling r"
proof -
  define r1 where "r1 = (if rp_ban pub then remember_ban b now wall pub r else r)"
  define r2 where "r2 = fst (for_each (remove_one closed pub) (rp_participants pub) r1)"
  define notice where "notice = MsgLobbyDenied (Some (unwrap_or (rp_reason pub) ''Banned from room''))"
  define r3 where "r3 = (if rp_ban pub then fst (for_each (deny_one notice) (rp_lobby pub) r2) else r2)"
  have r': "r' = bump_policy r3"
    using assms(2) unfolding publish_removal_def Let_def r3_def r2_def r1_def notice_def
    by (cases "rp_ban pub") (simp_all add: split_beta)
  have r1: "room_wf r1" "rm_participants r1 = rm_participants r" "rm_lobby r1 = rm_lobby r"
      "rm_sanctions r1 = rm_sanctions r" "rm_settings r1 = rm_settings r"
      "rm_broadcaster_ceiling r1 = rm_broadcaster_ceiling r"
    using wf remember_ban_wf by (simp_all add: r1_def remember_ban_keeps)
  have "members_gone {} r1 r1" using r1(1) by (simp add: members_gone_def)
  from remove_loop_gone [OF this, of "rp_participants pub" closed pub]
  have r2: "members_gone (set (rp_participants pub)) r1 r2" by (simp add: r2_def)
  then have "room_wf r2" by (simp add: members_gone_def)
  note r3 = deny_loop [OF this, of notice "rp_lobby pub", unfolded Let_def]
  show "room_wf r'" using r2 r3 by (auto simp: r' r3_def members_gone_def)
  show "tget (rm_participants r') i = (if i \<in> set (rp_participants pub) then None else tget (rm_participants r) i)"
    using r1 r2 r3 by (simp add: r' r3_def members_gone_def bump_policy_def)
  show "tget (rm_lobby r') i = (if rp_ban pub \<and> i \<in> set (rp_lobby pub) then None else tget (rm_lobby r) i)"
    using r1 r2 r3 by (simp add: r' r3_def members_gone_def bump_policy_def)
  show "rm_banned_participants r' = rm_banned_participants (if rp_ban pub then remember_ban b now wall pub r else r)"
    "rm_banned_guest_ips r' = rm_banned_guest_ips (if rp_ban pub then remember_ban b now wall pub r else r)"
    "rm_sanctions r' = rm_sanctions r" "rm_settings r' = rm_settings r"
    "rm_broadcaster_ceiling r' = rm_broadcaster_ceiling r"
    using r1 r2 r3 by (simp_all add: r' r3_def members_gone_def bump_policy_def r1_def [symmetric])
qed

lemma publish_removal_present:
  assumes wf: "room_wf r" and "publish_removal closed b now wall pub r = (ss, r', sent)" and "present r' i = Some x"
  shows "present r i = Some x"
    and "tget (rm_participants r) i \<noteq> None \<Longrightarrow> i \<notin> set (rp_participants pub)"
    and "rp_ban pub \<Longrightarrow> tget (rm_lobby r) i \<noteq> None \<Longrightarrow> i \<notin> set (rp_lobby pub)"
proof -
  note st = publish_removal_room(2,3) [OF assms(1,2), of i]
  show "tget (rm_participants r) i \<noteq> None \<Longrightarrow> i \<notin> set (rp_participants pub)"
    using assms(3) st room_wf_member [OF wf, of i] by (auto simp: present_def split: if_splits)
  show "rp_ban pub \<Longrightarrow> tget (rm_lobby r) i \<noteq> None \<Longrightarrow> i \<notin> set (rp_lobby pub)"
    using assms(3) st room_wf_waiting [OF wf, of i] by (auto simp: present_def split: if_splits)
  show "present r i = Some x"
    using assms(3) st room_wf_member [OF wf, of i] by (auto simp: present_def split: if_splits option.splits)
qed

lemma present_member_or_waiting:
  assumes "present r i = Some (a, ip, s)"
  obtains p where "tget (rm_participants r) i = Some p" "a = pt_authenticated p" "ip = pt_ip p"
  | e where "tget (rm_participants r) i = None" "tget (rm_lobby r) i = Some e" "a = le_authenticated e" "ip = le_ip e"
  using assms by (cases "tget (rm_participants r) i") (auto simp: present_def)

lemma publish_removal_ban_safe:
  assumes safe: "room_safe r" and covers: "rp_ban pub \<Longrightarrow> removal_covers pub r"
    and r': "publish_removal closed b now wall pub r = (ss, r', sent)"
    and here: "present r' i = Some (a, ip, s)"
  shows "\<not> identity_is_banned r' i a ip"
proof
  assume banned: "identity_is_banned r' i a ip"
  note wf = room_safe_wf [OF safe]
  note st = publish_removal_room [OF wf r'] and pr = publish_removal_present [OF wf r' here]
  have free: "\<not> identity_is_banned r i a ip"
    using safe pr(1) unfolding room_safe_def ban_safe_def by blast
  show False
  proof (cases "rp_ban pub")
    case False
    then show False using banned free st(4,5) by (simp add: identity_is_banned_def)
  next
    case True
    have listed: "i \<notin> set (rp_participants pub) \<union> set (rp_lobby pub)"
      using pr covers [OF True] True by (cases rule: present_member_or_waiting [OF pr(1)]) (auto simp: removal_covers_def)
    then have "\<not> contains_key (rm_banned_participants r') i"
      using free True by (simp add: st(4) remember_ban_keys identity_is_banned_def)
    with banned obtain x where x: "\<not> a" "ip = Some x" "contains_key (rm_banned_guest_ips r') (cohort x)"
      by (auto simp: identity_is_banned_def is_some_and_def split: option.splits)
    have "\<not> contains_key (rm_banned_guest_ips r) (cohort x)"
      using free x(1,2) by (simp add: identity_is_banned_def is_some_and_def)
    with x(3) True obtain y where "\<not> rp_authenticated pub" "rp_ip pub = Some y" "cohort y = cohort x"
      by (auto simp: st(5) remember_ban_keys)
    with covers [OF True] x(1,2) have "i \<in> set (rp_participants pub) \<union> set (rp_lobby pub)"
      by (cases rule: present_member_or_waiting [OF pr(1)])
        (auto simp: removal_covers_def guest_in_cohort_def lobby_guest_in_cohort_def)
    with listed show False by simp
  qed
qed

lemma publish_removal_safe [wf_intros]:
  assumes "room_safe r" and "rp_ban pub \<Longrightarrow> removal_covers pub r"
    and "publish_removal closed b now wall pub r = (ss, r', sent)"
  shows "room_safe r'"
proof -
  note wf = room_safe_wf [OF assms(1)]
  have "ban_safe r'" unfolding ban_safe_def using publish_removal_ban_safe [OF assms] by blast
  moreover have "stored_sanction r' = stored_sanction r"
    by (simp add: stored_sanction_def fun_eq_iff publish_removal_room(6) [OF wf assms(3)])
  then have "sanctions_recorded r'"
    using assms(1) publish_removal_present(1) [OF wf assms(3)]
    unfolding room_safe_def sanctions_recorded_def by auto
  ultimately show ?thesis using publish_removal_room(1) [OF wf assms(3)] by (simp add: room_safe_def)
qed

lemma set_member_role_safe: "room_safe r \<Longrightarrow> room_safe (set_member_role_in target c r)"
proof -
  assume safe: "room_safe r"
  let ?r = "r\<lparr>rm_participants := tmod target (\<lambda>p. p\<lparr>pt_role := c\<rparr>) (rm_participants r)\<rparr>"
  have r1: "set_member_role_in target c r = ?r\<lparr>rm_lobby := tmod target (\<lambda>e. e\<lparr>le_role := c\<rparr>) (rm_lobby ?r)\<rparr>"
    by (simp add: set_member_role_in_def)
  have "room_wf ?r" by (rule room_wf_update_member [OF room_safe_wf [OF safe]]) simp_all
  then have "room_wf (set_member_role_in target c r)" unfolding r1 by (rule room_wf_update_waiting) simp
  moreover have "present (set_member_role_in target c r) = present r"
    unfolding r1 by (subst present_update_waiting) (simp_all add: present_update_member)
  ultimately show ?thesis by (intro room_safe_same [OF safe]) (simp_all add: set_member_role_in_def)
qed

lemma publish_role_safe [wf_intros]:
  assumes "room_safe r" and "publish_role closed target c by_id r = (vs, r', sent)"
  shows "room_safe r'"
proof -
  obtain v2 r2 s2 where r2: "revoke_unauthorized_producers (Some target) ''Role no longer permits this producer''
      (bump_policy (set_member_role_in target c r)) = (v2, r2, s2)" by (cases rule: prod_cases3)
  have "room_safe (bump_policy (set_member_role_in target c r))" using set_member_role_safe [OF assms(1)] by simp
  from revoke_keeps_safe [OF this r2] have "room_safe r2" .
  then show ?thesis using assms(2) r2 by (simp add: publish_role_def Let_def)
qed

lemma release_bans:
  "present (fold release_ban ids r) = present r \<and> rm_sanctions (fold release_ban ids r) = rm_sanctions r
   \<and> (contains_key (rm_banned_participants (fold release_ban ids r)) i \<longrightarrow> contains_key (rm_banned_participants r) i)
   \<and> rm_banned_guest_ips (fold release_ban ids r) = rm_banned_guest_ips r
   \<and> (room_wf r \<longrightarrow> room_wf (fold release_ban ids r))"
proof (induction ids arbitrary: r)
  case (Cons j ids)
  have "room_wf r \<longrightarrow> room_wf (release_ban j r)" by (simp add: release_ban_def room_wf_defs)
  then show ?case using Cons.IH [of "release_ban j r"] by (auto simp: release_ban_def)
qed simp

lemma publish_unban_safe [wf_intros]:
  assumes safe: "room_safe r"
  shows "room_safe (publish_unban user guest_ip released r)"
proof -
  obtain gone s where gone: "forget_ban user guest_ip (rm_social r) = (gone, s)" by fastforce
  have s: "social_wf s" using room_wfD(5) [OF room_safe_wf [OF safe]] social_wf_records(5) gone by (metis snd_conv)
  define r1 where "r1 = r\<lparr>rm_social := s\<rparr>"
  define r2 where "r2 = (case user of Some u \<Rightarrow> r1\<lparr>rm_banned_participants := tdel u (rm_banned_participants r1)\<rparr> | None \<Rightarrow> r1)"
  define r3 where "r3 = (case guest_ip of Some ip \<Rightarrow> r2\<lparr>rm_banned_guest_ips := tdel ip (rm_banned_guest_ips r2)\<rparr> | None \<Rightarrow> r2)"
  have "room_safe r1" unfolding r1_def by (rule room_safe_social [OF safe s])
  then have safe2: "room_safe r2" unfolding r2_def
    by (cases user) (auto intro!: room_safe_fewer [of r1] room_wf_bans simp: room_safe_wf stored_sanction_def
        room_wfD [OF room_safe_wf])
  then have safe3: "room_safe r3" unfolding r3_def
    by (cases guest_ip) (auto intro!: room_safe_fewer [of r2] room_wf_bans simp: room_safe_wf stored_sanction_def
        room_wfD [OF room_safe_wf])
  note kept = release_bans [of "released @ gone" r3]
  have "room_safe (fold release_ban (released @ gone) r3)"
    by (rule room_safe_fewer [OF safe3])
      (use kept room_safe_wf [OF safe3] in \<open>simp_all add: stored_sanction_def\<close>)
  moreover have "publish_unban user guest_ip released r = bump_policy (fold release_ban (released @ gone) r3)"
    unfolding publish_unban_def gone Let_def prod.case r3_def r2_def r1_def ..
  ultimately show ?thesis by simp
qed

end
