(* ===== verification/Room_Control.thy ===== *)
theory Room_Control
  imports Publication
begin

text \<open>
  Ordered room control (\<^verbatim>\<open>src/room/control.rs\<close>): which persistence failures leave the stored
  state uncertain, the quarantine of a room after one, and the admission of a control operation.
  The awaited database write is an argument: \<^const>\<open>None\<close> when it did not finish before the
  deadline, otherwise its result.
\<close>

section \<open>Uncertain writes\<close>

definition starts_with :: "string \<Rightarrow> string \<Rightarrow> bool" where
  "starts_with s prefix \<longleftrightarrow> take (length prefix) s = prefix"

definition postgres_rejection_is_definite :: "string option \<Rightarrow> bool" where
  "postgres_rejection_is_definite code =
     (case code of
        None \<Rightarrow> False
      | Some c \<Rightarrow>
          length c = 5 \<and>
          (starts_with c ''22'' \<or> starts_with c ''23'' \<or> starts_with c ''42''
           \<or> c \<in> {''40000'', ''40001'', ''40002'', ''40P01'', ''55P03'', ''57014''}))"

fun persistence_is_indeterminate :: "room_error \<Rightarrow> bool" where
  "persistence_is_indeterminate (Refused _) = False"
| "persistence_is_indeterminate (Database (DatabaseReported code)) = (\<not> postgres_rejection_is_definite code)"
| "persistence_is_indeterminate (Database PoolTimedOut) = False"
| "persistence_is_indeterminate (Database PoolClosed) = False"
| "persistence_is_indeterminate (Database InvalidArgument) = False"
| "persistence_is_indeterminate (Database _) = True"

definition tell_everyone :: "server_message \<Rightarrow> room \<Rightarrow> effect list" where
  "tell_everyone notice room =
     broadcast_all notice room @ map (\<lambda>e. Send (le_sender e) notice) (values_of (rm_lobby room))"

definition membership_sessions :: "room \<Rightarrow> removed_session list" where
  "membership_sessions room =
     map (\<lambda>p. \<lparr>rd_participant_id = pt_id p, rd_media_session_id = pt_media_session_id p\<rparr>)
       (values_of (rm_participants room))"

definition clear_membership :: "room \<Rightarrow> room" where
  "clear_membership room = room\<lparr>rm_participants := [], rm_lobby := [], rm_producer_to_participant := []\<rparr>"

text \<open>\<^verbatim>\<open>mapped\<close> says whether the manager's map still holds this very room.\<close>

definition quarantine_room :: "bool \<Rightarrow> room \<Rightarrow> removed_session list \<times> room \<times> effect list" where
  "quarantine_room mapped room =
     (if \<not> mapped \<or> rm_deleting room then ([], room, [])
      else (let room1 = bump_policy (room\<lparr>rm_deleting := True\<rparr>);
                notice = MsgRoomClosed ''Room unavailable while its saved state is uncertain'' in
            (membership_sessions room1, clear_membership room1, tell_everyone notice room1)))"

definition persist_room ::
  "bool \<Rightarrow> (room_error + 'a) option \<Rightarrow> room \<Rightarrow> (room_error + 'a) \<times> room \<times> effect list" where
  "persist_room mapped persistence room =
     (let result = (case persistence of
                      Some r \<Rightarrow> r
                    | None \<Rightarrow> Inl (Database (Protocol
                        ''Room persistence deadline exceeded; commit status is unknown''))) in
      case result of
        Inl error \<Rightarrow>
          if persistence_is_indeterminate error
          then (let (_, room', sent) = quarantine_room mapped room in (result, room', sent))
          else (result, room, [])
      | Inr _ \<Rightarrow> (result, room, []))"

section \<open>Admission\<close>

definition run_room_control_admission :: "bool \<Rightarrow> bool \<Rightarrow> bool \<Rightarrow> room \<Rightarrow> unit outcome" where
  \<comment> \<open>whether control was obtained in time, the process drains, the map still holds the room\<close>
  "run_room_control_admission obtained draining mapped room =
     (if \<not> obtained then Inl (Bail ''Room control is busy; try again'')
      else (case ensure_live room of
              Inl e \<Rightarrow> Inl e
            | Inr _ \<Rightarrow>
                if draining then Inl (Bail ''Server shutting down'')
                else if \<not> mapped then Inl (Bail ''Room is no longer active'')
                else Inr ()))"

type_synonym 'a reply = "'a outcome \<times> room \<times> effect list"

text \<open>How a control operation was admitted, and the operation it then runs.\<close>

record control_gate =
  cg_obtained :: bool
  cg_draining :: bool
  cg_mapped :: bool

definition run_room_control :: "control_gate \<Rightarrow> (room \<Rightarrow> 'a reply) \<Rightarrow> room \<Rightarrow> 'a reply" where
  "run_room_control gate operation room =
     (case run_room_control_admission (cg_obtained gate) (cg_draining gate) (cg_mapped gate) room of
        Inl e \<Rightarrow> (Inl e, room, [])
      | Inr _ \<Rightarrow> operation room)"

section \<open>What they keep\<close>

lemma clear_membership_wf [wf_intros]: "room_wf r \<Longrightarrow> room_wf (clear_membership r)"
  by (simp add: room_wf_defs clear_membership_def)

lemma present_clear_membership [simp]: "present (clear_membership r) = (\<lambda>_. None)"
  by (simp add: present_def clear_membership_def fun_eq_iff)

lemma clear_membership_safe [wf_intros]: "room_safe r \<Longrightarrow> room_safe (clear_membership r)"
  by (rule room_safe_fewer [of r]) (simp_all add: room_safe_wf clear_membership_wf,
      simp_all add: clear_membership_def stored_sanction_def)

lemma quarantine_room_safe [wf_intros]:
  "room_safe r \<Longrightarrow> quarantine_room mapped r = (ss, r', sent) \<Longrightarrow> room_safe r'"
  by (auto simp: quarantine_room_def Let_def intro: clear_membership_safe split: if_splits)

lemma persist_room_safe [wf_intros]:
  assumes "room_safe r" and "persist_room mapped w r = (res, r', sent)"
  shows "room_safe r'"
proof -
  obtain ss q se where q: "quarantine_room mapped r = (ss, q, se)" by (cases rule: prod_cases3)
  from quarantine_room_safe [OF assms(1) q] have "room_safe q" .
  then show ?thesis using assms by (auto simp: persist_room_def Let_def q split: option.splits sum.splits if_splits)
qed

text \<open>A write that is known not to have happened, or to have succeeded, changes nothing here.\<close>

lemma persist_room_keeps:
  "persist_room mapped w r = (Inr v, r', sent) \<Longrightarrow> r' = r \<and> sent = [] \<and> w = Some (Inr v)"
  by (auto simp: persist_room_def Let_def split_beta split: option.splits sum.splits if_splits)

end
