(* ===== verification/Room_Names.thy ===== *)
theory Room_Names
  imports Room_State
begin

text \<open>
  Names in a room (\<^verbatim>\<open>name_in_use\<close> and \<^verbatim>\<open>unique_participant_name\<close> in \<^verbatim>\<open>src/room/mod.rs\<close>). The
  search for a free number has no bound of its own; it ends because two numbers never give
  names that compare equal, which follows from how the Unicode tables treat plain ASCII.
\<close>

section \<open>Names\<close>

definition name_in_use :: "icu \<Rightarrow> room \<Rightarrow> string \<Rightarrow> participant_id option \<Rightarrow> bool" where
  "name_in_use u room name except =
     list_ex (\<lambda>taken. comparison_key u taken = comparison_key u name)
       (map pt_name (filter (\<lambda>p. Some (pt_id p) \<noteq> except) (values_of (rm_participants room)))
        @ map le_name (values_of (rm_lobby room)))"

definition MAX_PARTICIPANT_NAME_LEN :: nat where "MAX_PARTICIPANT_NAME_LEN = 64"

definition occupied_keys :: "icu \<Rightarrow> room \<Rightarrow> string list" where
  "occupied_keys u room =
     map (comparison_key u)
       (map pt_name (values_of (rm_participants room)) @ map le_name (values_of (rm_lobby room)))"

definition numbered_name :: "string \<Rightarrow> nat \<Rightarrow> string" where
  "numbered_name base suffix = trim_end base @ '' ('' @ nat_to_string suffix @ '')''"

partial_function (option) free_suffix :: "icu \<Rightarrow> string list \<Rightarrow> string \<Rightarrow> nat \<Rightarrow> string option" where
  "free_suffix u occupied base suffix =
     (if comparison_key u (numbered_name base suffix) \<notin> set occupied
      then Some (numbered_name base suffix)
      else free_suffix u occupied base (suffix + 1))"

text \<open>The loop has no bound of its own; not returning is \<^const>\<open>None\<close>.\<close>

definition unique_participant_name :: "icu \<Rightarrow> room \<Rightarrow> string \<Rightarrow> string option" where
  "unique_participant_name u room name =
     (if comparison_key u name \<notin> set (occupied_keys u room) then Some name
      else free_suffix u (occupied_keys u room)
             (take_chars (MAX_PARTICIPANT_NAME_LEN - 6) (trim name)) 2)"

section \<open>Numbers as text\<close>

definition ascii :: "string \<Rightarrow> bool" where
  "ascii s \<longleftrightarrow> (\<forall>c \<in> set s. (of_char c :: nat) < 128)"

definition number_tail :: "nat \<Rightarrow> string" where
  "number_tail n = ''('' @ nat_to_string n @ '')''"

declare nat_to_string.simps [simp del]

lemma digit_code: "d < 10 \<Longrightarrow> (of_char (char_of (48 + d) :: char) :: nat) = 48 + d"
  by simp

lemma nat_to_string_digits: "c \<in> set (nat_to_string n) \<Longrightarrow> 48 \<le> (of_char c :: nat) \<and> (of_char c :: nat) < 58"
proof (induction n rule: nat_to_string.induct)
  case (1 n)
  show ?case
  proof (cases "n < 10")
    case True
    then show ?thesis using "1.prems" by (subst (asm) nat_to_string.simps) simp
  next
    case False
    then have "c \<in> set (nat_to_string (n div 10)) \<or> c = char_of (48 + n mod 10)"
      using "1.prems" by (subst (asm) nat_to_string.simps) auto
    then show ?thesis
    proof
      assume "c = char_of (48 + n mod 10)"
      then show ?thesis using digit_code [of "n mod 10"] by simp
    qed (use "1.IH" False in blast)
  qed
qed

fun string_to_nat :: "string \<Rightarrow> nat" where
  "string_to_nat s = foldl (\<lambda>a c. a * 10 + (of_char c - 48)) 0 s"

lemma string_to_nat_inverse: "string_to_nat (nat_to_string n) = n"
proof (induction n rule: nat_to_string.induct)
  case (1 n)
  show ?case
  proof (cases "n < 10")
    case True
    then show ?thesis by (subst nat_to_string.simps) (simp add: digit_code)
  next
    case False
    then have "string_to_nat (nat_to_string n) = (n div 10) * 10 + n mod 10"
      using "1.IH" by (subst nat_to_string.simps) (simp add: digit_code)
    then show ?thesis by simp
  qed
qed

lemma number_tail_inj: "number_tail a = number_tail b \<Longrightarrow> a = b"
  by (metis append_same_eq number_tail_def same_append_eq string_to_nat_inverse)

section \<open>Plain text after a name\<close>

lemma ascii_chars: "ascii s \<Longrightarrow> chars s = map (\<lambda>c. [c]) s"
proof (induction s)
  case (Cons b s)
  then have s: "chars s = map (\<lambda>c. [c]) s" by (simp add: ascii_def)
  have "takeWhile continuation s = []" "dropWhile continuation s = s"
    using Cons.prems by (cases s; auto simp: ascii_def continuation_def)+
  then show ?case by (simp add: s)
qed simp

lemma ascii_starts_char: "ascii s \<Longrightarrow> starts_char s"
  by (cases s) (auto simp: starts_char_def ascii_def continuation_def)

lemma ascii_number_tail: "ascii (number_tail n)"
  using nat_to_string_digits by (fastforce simp: ascii_def number_tail_def)

lemma dropWhile_append_stop: "t \<noteq> [] \<Longrightarrow> \<not> P (hd t) \<Longrightarrow> dropWhile P (s @ t) = dropWhile P s @ t"
  by (induction s) (auto simp: neq_Nil_conv)

lemma chars_number_tail: "chars (s @ number_tail n) = chars s @ map (\<lambda>c. [c]) (number_tail n)"
  by (simp add: chars_append ascii_starts_char ascii_number_tail ascii_chars)

lemma parens_not_whitespace: "\<not> is_whitespace [CHR ''('']" "\<not> is_whitespace [CHR '')'']"
  by (simp_all add: is_whitespace_def)

lemma trim_start_tail: "trim_start (s @ number_tail n) = trim_start s @ number_tail n"
proof -
  have "dropWhile is_whitespace (chars s @ map (\<lambda>c. [c]) (number_tail n))
      = dropWhile is_whitespace (chars s) @ map (\<lambda>c. [c]) (number_tail n)"
    by (rule dropWhile_append_stop) (simp_all add: number_tail_def parens_not_whitespace)
  then show ?thesis
    by (simp add: trim_start_def chars_number_tail concat_map_singleton [of "\<lambda>c. c", simplified])
qed

lemma trim_end_tail: "trim_end (s @ number_tail n) = s @ number_tail n"
proof -
  have "dropWhile is_whitespace (rev (chars (s @ number_tail n))) = rev (chars (s @ number_tail n))"
    by (simp add: chars_number_tail) (simp add: number_tail_def parens_not_whitespace)
  then show ?thesis by (simp add: trim_end_def)
qed

lemma trim_tail: "trim (s @ number_tail n) = trim_start s @ number_tail n"
  by (simp add: trim_def trim_start_tail trim_end_tail)

section \<open>The search ends\<close>

text \<open>
  What Unicode fixes about ASCII text: normalisation and case folding leave a parenthesised
  number at the end of a string alone, and none of its characters is default-ignorable.
\<close>

definition plain_numbers :: "icu \<Rightarrow> bool" where
  "plain_numbers u \<longleftrightarrow>
     (\<forall>s n. nfkc u (s @ number_tail n) = nfkc u s @ number_tail n)
     \<and> (\<forall>s n. fold_string u (s @ number_tail n) = fold_string u s @ number_tail n)
     \<and> (\<forall>k < 128. \<not> default_ignorable u k)"

lemma visible_number_tail:
  assumes "plain_numbers u"
  shows "filter (\<lambda>c. \<not> default_ignorable u (code_point c)) (map (\<lambda>c. [c]) (number_tail n))
       = map (\<lambda>c. [c]) (number_tail n)"
  using assms ascii_number_tail [of n] by (auto simp: plain_numbers_def ascii_def filter_id_conv)

lemma comparison_key_number_tail:
  assumes "plain_numbers u"
  shows "comparison_key u (s @ number_tail n)
       = trim_start (nfkc u (fold_string u (nfkc u (trim_start
           (concat (filter (\<lambda>c. \<not> default_ignorable u (code_point c)) (chars s))))))) @ number_tail n"
proof -
  have c: "concat (map (\<lambda>c. [c]) t) = t" for t :: string by (induction t) simp_all
  from assms have u: "nfkc u (a @ number_tail n) = nfkc u a @ number_tail n"
      "fold_string u (a @ number_tail n) = fold_string u a @ number_tail n" for a
    by (simp_all add: plain_numbers_def)
  show ?thesis
    by (simp add: comparison_key_def Let_def chars_number_tail visible_number_tail [OF assms] c trim_tail u)
qed

lemma numbered_name_tail: "numbered_name base n = (trim_end base @ '' '') @ number_tail n"
  by (simp add: numbered_name_def number_tail_def)

lemma numbered_name_keys_differ:
  assumes "plain_numbers u" and "comparison_key u (numbered_name base a) = comparison_key u (numbered_name base b)"
  shows "a = b"
  using assms(2) unfolding numbered_name_tail comparison_key_number_tail [OF assms(1)]
  by (simp add: number_tail_inj)

lemma free_suffix_at:
  assumes "\<forall>j \<in> {k..<k + d}. comparison_key u (numbered_name base j) \<in> set occupied"
    and "comparison_key u (numbered_name base (k + d)) \<notin> set occupied"
  shows "free_suffix u occupied base k = Some (numbered_name base (k + d))"
  using assms
proof (induction d arbitrary: k)
  case 0
  then show ?case by (subst free_suffix.simps) simp
next
  case (Suc d)
  then have "free_suffix u occupied base (k + 1) = Some (numbered_name base (k + 1 + d))" by simp
  moreover have "comparison_key u (numbered_name base k) \<in> set occupied" using Suc.prems by simp
  ultimately show ?case by (subst free_suffix.simps) simp
qed

lemma some_suffix_free:
  assumes "plain_numbers u"
  shows "\<exists>d \<le> length occupied. comparison_key u (numbered_name base (k + d)) \<notin> set occupied"
proof (rule ccontr)
  let ?f = "\<lambda>d. comparison_key u (numbered_name base (k + d))"
  assume "\<not> ?thesis"
  then have "?f ` {..length occupied} \<subseteq> set occupied" by auto
  then have "card (?f ` {..length occupied}) \<le> length occupied"
    by (meson card_length card_mono finite_set le_trans)
  moreover have "inj_on ?f {..length occupied}"
    by (rule inj_onI) (metis add_left_cancel assms numbered_name_keys_differ)
  ultimately show False by (simp add: card_image)
qed

lemma free_suffix_least:
  assumes "plain_numbers u"
  shows "\<exists>d \<le> length occupied. free_suffix u occupied base k = Some (numbered_name base (k + d))
     \<and> comparison_key u (numbered_name base (k + d)) \<notin> set occupied
     \<and> (\<forall>j \<in> {k..<k + d}. comparison_key u (numbered_name base j) \<in> set occupied)"
proof -
  let ?free = "\<lambda>d. comparison_key u (numbered_name base (k + d)) \<notin> set occupied"
  obtain d where d: "?free d" "d \<le> length occupied" using some_suffix_free [OF assms] by blast
  define e where "e = (LEAST d. ?free d)"
  have e: "?free e" "e \<le> d" using d(1) LeastI [of ?free] Least_le [of ?free] by (auto simp: e_def)
  have "comparison_key u (numbered_name base j) \<in> set occupied" if "j \<in> {k..<k + e}" for j
    using not_less_Least [of "j - k" ?free] that by (auto simp: e_def)
  then have "\<forall>j \<in> {k..<k + e}. comparison_key u (numbered_name base j) \<in> set occupied" by blast
  then show ?thesis using free_suffix_at [of k e u base occupied, OF _ e(1)] e d(2) by (intro exI [of _ e]) simp
qed

text \<open>
  C34: choosing a participant's name always returns, the name it returns compares equal to no
  name of the room or its lobby, and it is the requested one unless that is taken, in which case
  it is the requested name's first 58 characters with the smallest free number from 2, which is
  at most two more than the number of taken names.
\<close>

theorem unique_participant_name_is_free:
  assumes "plain_numbers u"
  shows "\<exists>chosen. unique_participant_name u room name = Some chosen
     \<and> \<not> name_in_use u room chosen None
     \<and> (if name_in_use u room name None
        then \<exists>n \<in> {2..length (rm_participants room) + length (rm_lobby room) + 2}.
               chosen = numbered_name (take_chars 58 (trim name)) n
               \<and> (\<forall>j \<in> {2..<n}. name_in_use u room (numbered_name (take_chars 58 (trim name)) j) None)
        else chosen = name)"
proof -
  have used: "name_in_use u room x None \<longleftrightarrow> comparison_key u x \<in> set (occupied_keys u room)" for x
    unfolding name_in_use_def occupied_keys_def list_ex_iff by (auto intro: rev_image_eqI)
  have len: "length (occupied_keys u room) = length (rm_participants room) + length (rm_lobby room)"
    by (simp add: occupied_keys_def values_of_def)
  let ?base = "take_chars 58 (trim name)"
  obtain d where d: "d \<le> length (occupied_keys u room)"
      "free_suffix u (occupied_keys u room) ?base 2 = Some (numbered_name ?base (2 + d))"
      "\<not> name_in_use u room (numbered_name ?base (2 + d)) None"
      "\<forall>j \<in> {2..<2 + d}. name_in_use u room (numbered_name ?base j) None"
    using free_suffix_least [OF assms, of "occupied_keys u room" ?base 2] by (auto simp: used)
  show ?thesis
  proof (cases "name_in_use u room name None")
    case True
    then have "unique_participant_name u room name = Some (numbered_name ?base (2 + d))"
      using d(2) by (simp add: unique_participant_name_def used MAX_PARTICIPANT_NAME_LEN_def)
    then show ?thesis using True d(1,3,4) len by (intro exI conjI) (auto intro!: bexI [of _ "2 + d"])
  next
    case False
    then show ?thesis by (simp add: unique_participant_name_def used)
  qed
qed

definition ascii_icu :: icu where
  \<comment> \<open>tables that leave every string alone, as the real ones do on lower-case ASCII\<close>
  "ascii_icu = \<lparr>default_ignorable = \<lambda>_. False, nfkc = \<lambda>s. s, fold_string = \<lambda>s. s\<rparr>"

definition sample_entry :: lobby_entry where
  "sample_entry =
     \<lparr>le_participant_id = 7, le_name = ''ann'', le_sender = 70, le_chat_style = chat_style_default,
      le_media_session_id = 700, le_authenticated = False, le_reconnect_token = ''t'',
      le_in_lobby_flag = 7, le_ip = None, le_role = Guest, le_punitive = punitive_default\<rparr>"

theorem unique_participant_name_is_free_witness:
  "\<exists>n. 2 \<le> n \<and> n \<le> 3 \<and> unique_participant_name ascii_icu
     ((new_with_observers ''r'' None False None)\<lparr>rm_lobby := [(7, sample_entry)]\<rparr>) ''ann''
       = Some (numbered_name ''ann'' n)"
proof -
  let ?room = "(new_with_observers ''r'' None False None)\<lparr>rm_lobby := [(7, sample_entry)]\<rparr>"
  have u: "plain_numbers ascii_icu" by (simp add: plain_numbers_def ascii_icu_def)
  have taken: "name_in_use ascii_icu ?room ''ann'' None"
    by (simp add: name_in_use_def sample_entry_def values_of_def)
  have "chars ''ann'' = [''a'', ''n'', ''n'']" by (simp add: continuation_def)
  then have "take_chars 58 (trim ''ann'') = ''ann''"
    by (simp add: take_chars_def trim_def trim_start_def trim_end_def is_whitespace_def)
  then show ?thesis using unique_participant_name_is_free [OF u, of ?room "''ann''"] taken
    by (auto simp: new_with_observers_def)
qed

end
