(* ===== verification/Membership.thy ===== *)
theory Membership
  imports Room_Control Room_Names
begin

text \<open>
  Joining and leaving a room (\<^verbatim>\<open>src/room/manager/membership.rs\<close>). A join reads the room's policy,
  does its slow work (database lookups, the password) with no lock held, and commits under the
  room's control lock if the policy revision is still the one it read. What the database, the
  password hash and the clock answer are arguments, gathered in \<^verbatim>\<open>join_env\<close>.
\<close>

section \<open>The request and what it meets\<close>

record join_request =
  jq_participant_id :: participant_id
  jq_name :: string
  jq_sender :: chan
  jq_authenticated :: bool
  jq_in_lobby_flag :: nat
  jq_password :: "string option"
  jq_reconnect_token :: string
  jq_client_ip :: "ip_addr option"
  jq_chat_style :: "chat_style option"

text \<open>The password lane: whether a permit came in time, the lane is open and the task ended, and the hash check.\<close>

record password_lane =
  pl_permit_in_time :: bool
  pl_open :: bool
  pl_task_ended :: bool
  pl_verify :: "string \<Rightarrow> string \<Rightarrow> bool option"

definition verify_room_password :: "password_lane \<Rightarrow> string \<Rightarrow> string \<Rightarrow> unit outcome" where
  "verify_room_password lane supplied hash =
     (if \<not> pl_permit_in_time lane then Inl (Bail ''Password verification is busy; try again'')
      else if \<not> pl_open lane then Inl (Bail ''Password verification is unavailable'')
      else if \<not> pl_task_ended lane then Inl (Bail ''Password verification failed'')
      else if unwrap_or (pl_verify lane supplied hash) False then Inr ()
      else Inl (Bail ''Incorrect room password''))"

record join_env =
  je_icu :: icu
  je_closed :: "chan \<Rightarrow> bool"
  je_now :: instant
  je_pool :: bool
  je_banned :: "room_error + bool"
  je_role_row :: "room_error + role option"
  je_style :: "(room_error + chat_style option) option"
  je_punitive :: "room_error + punitive_state"
  je_preferences :: "(room_error + chat_preferences) option"
  je_lane :: password_lane
  je_snapshot_in_time :: bool
  je_commit_in_time :: bool
  je_draining :: bool
  je_media_session :: uuid
  je_chat_session :: uuid
  je_max_participants :: "nat option"

definition no_access :: "'a outcome" where
  "no_access = Inl (Bail ''Room access could not be verified'')"

section \<open>The policy a join reads\<close>

record join_snapshot =
  js_lobby_enabled :: bool
  js_invite_only :: bool
  js_owner :: "uuid option"
  js_password_protected :: bool
  js_password_hash :: "string option"
  js_persisted :: bool
  js_policy_revision :: u64

definition setting :: "room \<Rightarrow> (room_settings \<Rightarrow> bool) \<Rightarrow> bool" where
  "setting room f = is_some_and f (rm_settings room)"

definition join_snapshot_of :: "room \<Rightarrow> join_snapshot" where
  "join_snapshot_of room =
     \<lparr>js_lobby_enabled = setting room rs_lobby_enabled, js_invite_only = setting room rs_invite_only,
      js_owner = map_option rs_owner_id (rm_settings room),
      js_password_protected = setting room rs_password_protected, js_password_hash = rm_password_hash room,
      js_persisted = rm_persisted room, js_policy_revision = rm_policy_revision room\<rparr>"

section \<open>Authorization\<close>

definition CHAT_COLORS :: "string list" where
  "CHAT_COLORS = [''rose'', ''red'', ''orange'', ''amber'', ''lime'', ''green'', ''emerald'', ''teal'', ''cyan'',
     ''sky'', ''blue'', ''indigo'', ''violet'', ''purple'', ''fuchsia'', ''pink'']"

definition chat_style_validated :: "chat_style \<Rightarrow> chat_style option" where
  "chat_style_validated st =
     (if is_some_and (\<lambda>c. c \<notin> set CHAT_COLORS) (cs_color st) then None else Some st)"

definition join_chat_style :: "join_env \<Rightarrow> join_request \<Rightarrow> chat_style" where
  "join_chat_style env req =
     (let requested = unwrap_or (Option.bind (jq_chat_style req) chat_style_validated) chat_style_default in
      if jq_authenticated req \<and> je_pool env
      then (case je_style env of
              Some (Inr saved) \<Rightarrow> unwrap_or saved chat_style_default
            | Some (Inl _) \<Rightarrow> requested
            | None \<Rightarrow> requested)
      else requested)"

definition user_uuid :: "join_request \<Rightarrow> uuid option" where
  "user_uuid req = (if jq_authenticated req then Some (jq_participant_id req) else None)"

definition join_ban_check :: "join_env \<Rightarrow> join_snapshot \<Rightarrow> unit outcome" where
  "join_ban_check env snap =
     (if \<not> js_persisted snap then Inr ()
      else if \<not> je_pool env then no_access
      else (case je_banned env of
              Inr True \<Rightarrow> Inl (Bail ''You are banned from this room'')
            | Inr False \<Rightarrow> Inr ()
            | Inl _ \<Rightarrow> no_access))"

definition join_role :: "join_env \<Rightarrow> join_request \<Rightarrow> join_snapshot \<Rightarrow> role option outcome" where
  "join_role env req snap =
     (if \<not> js_persisted snap then Inr None
      else if \<not> je_pool env then no_access
      else (case js_owner snap of
              None \<Rightarrow> no_access
            | Some owner_id \<Rightarrow>
                (case resolve_role (je_role_row env) (user_uuid req) owner_id (jq_authenticated req) of
                   Inl _ \<Rightarrow> no_access
                 | Inr r \<Rightarrow> Inr (Some r))))"

definition join_punitive :: "join_env \<Rightarrow> join_snapshot \<Rightarrow> punitive_state outcome" where
  "join_punitive env snap =
     (if \<not> js_persisted snap then Inr punitive_default
      else if \<not> je_pool env then no_access
      else (case je_punitive env of Inl _ \<Rightarrow> no_access | Inr p \<Rightarrow> Inr p))"

definition password_gate ::
  "password_lane \<Rightarrow> join_request \<Rightarrow> string option \<Rightarrow> bool \<Rightarrow> string option \<Rightarrow> role option \<Rightarrow> unit outcome" where
  "password_gate lane req prechecked_hash password_protected password_hash resolved_role =
     (if password_protected \<and> \<not> is_some_and (\<lambda>r. r \<ge> Admin) resolved_role
      then (case password_hash of
              None \<Rightarrow> Inl (Bail ''Room password is unavailable'')
            | Some hash \<Rightarrow>
                if prechecked_hash = Some hash then Inr ()
                else (case jq_password req of
                        None \<Rightarrow> Inl RoomPasswordRequired
                      | Some supplied \<Rightarrow> verify_room_password lane supplied hash))
      else Inr ())"

record join_grant =
  jg_role :: "role option"
  jg_chat_style :: chat_style
  jg_punitive :: punitive_state

definition join_authorize ::
  "join_env \<Rightarrow> join_request \<Rightarrow> string option \<Rightarrow> join_snapshot \<Rightarrow> join_grant outcome" where
  "join_authorize env req prechecked_hash snap =
     (case join_ban_check env snap of Inl e \<Rightarrow> Inl e | Inr _ \<Rightarrow>
     (case join_role env req snap of Inl e \<Rightarrow> Inl e | Inr role \<Rightarrow>
     (case join_punitive env snap of Inl e \<Rightarrow> Inl e | Inr punitive \<Rightarrow>
     (case password_gate (je_lane env) req prechecked_hash (js_password_protected snap) (js_password_hash snap) role of
        Inl e \<Rightarrow> Inl e
      | Inr _ \<Rightarrow> Inr \<lparr>jg_role = role, jg_chat_style = join_chat_style env req, jg_punitive = punitive\<rparr>))))"

definition membership_chat_preferences ::
  "bool \<Rightarrow> (room_error + chat_preferences) option \<Rightarrow> bool \<Rightarrow> chat_preferences option outcome" where
  "membership_chat_preferences pool loaded authenticated =
     (let unverified = Inl (Bail ''Account privacy could not be verified'') in
      if \<not> authenticated then Inr None
      else if \<not> pool then unverified
      else (case loaded of Some (Inr preferences) \<Rightarrow> Inr (Some preferences) | _ \<Rightarrow> unverified))"

section \<open>The commit\<close>

datatype join_result =
  Lobbied
  | Joined "participant_info list" role "room_settings option" chat_style string

definition room_display_name :: "room \<Rightarrow> string" where
  "room_display_name room = (case rm_settings room of Some s \<Rightarrow> rs_display_name s | None \<Rightarrow> rm_id room)"

definition join_refusal :: "join_env \<Rightarrow> join_request \<Rightarrow> room \<Rightarrow> unit outcome" where
  \<comment> \<open>the checks of the commit after expired bans are pruned\<close>
  "join_refusal env req room =
     (let i = jq_participant_id req; guest = \<not> jq_authenticated req in
      if identity_is_banned room i (jq_authenticated req) (jq_client_ip req)
      then Inl (Bail ''You are banned from this room'')
      else if contains_key (rm_participants room) i \<or> contains_key (rm_lobby room) i
      then Inl (Bail ''This participant already has an active room session'')
      else if setting room rs_require_registration \<and> guest then Inl (Bail ''This room requires registration'')
      else if setting room (\<lambda>s. \<not> rs_guests_allowed s) \<and> guest
      then Inl (Bail ''Guests are not allowed in this room'')
      else (case ensure_room_has_space (je_max_participants env) room of
              Inl e \<Rightarrow> Inl e
            | Inr _ \<Rightarrow> if length (rm_lobby room) \<ge> 1000 then Inl (Bail ''Room lobby is full'') else Inr ()))"

definition enter_lobby :: "join_env \<Rightarrow> join_request \<Rightarrow> join_grant \<Rightarrow> string \<Rightarrow> role \<Rightarrow> punitive_state \<Rightarrow> room \<Rightarrow> join_result reply" where
  "enter_lobby env req grant name role punitive room =
     (let (participant_count, moderator_count) = lobby_counts (je_closed env) room;
          topic = Option.bind (rm_settings room) rs_topic;
          waiting = Send (jq_sender req) (MsgLobbyWaiting (room_display_name room) topic participant_count moderator_count);
          told = broadcast_to_role Moderator
                   (MsgLobbyJoin (jq_participant_id req) name (jq_authenticated req)) room;
          entry = \<lparr>le_participant_id = jq_participant_id req, le_name = name, le_sender = jq_sender req,
                   le_chat_style = jg_chat_style grant, le_media_session_id = je_media_session env,
                   le_authenticated = jq_authenticated req, le_reconnect_token = jq_reconnect_token req,
                   le_in_lobby_flag = jq_in_lobby_flag req, le_ip = jq_client_ip req, le_role = role,
                   le_punitive = punitive\<rparr>;
          room1 = room\<lparr>rm_lobby := tput (jq_participant_id req) entry (rm_lobby room)\<rparr> in
      (Inr Lobbied, complete_locked room1, waiting # told))"

definition new_member_social :: "uuid \<Rightarrow> chat_preferences option \<Rightarrow> room \<Rightarrow> participant_social" where
  "new_member_social session preferences room =
     (let social = participant_social_new session (so_next_sequence (rm_social room)) in
      case preferences of Some pf \<Rightarrow> apply_account_preferences pf social | None \<Rightarrow> social)"

definition enter_room ::
  "join_env \<Rightarrow> join_request \<Rightarrow> chat_preferences option \<Rightarrow> join_grant \<Rightarrow> string \<Rightarrow> role \<Rightarrow> punitive_state \<Rightarrow> room \<Rightarrow>
     join_result reply" where
  "enter_room env req preferences grant name role punitive room =
     (let i = jq_participant_id req;
          member = \<lparr>pt_social = new_member_social (je_chat_session env) preferences room, pt_id = i, pt_name = name,
                    pt_sender = jq_sender req, pt_media_session_id = je_media_session env, pt_producers = [],
                    pt_role = role, pt_punitive = punitive, pt_authenticated = jq_authenticated req,
                    pt_ip = jq_client_ip req, pt_chat_style = jg_chat_style grant\<rparr>;
          room1 = room\<lparr>rm_participants := tput i member (rm_participants room)\<rparr>;
          status = notify_lobby_status (je_closed env) room1;
          room2 = complete_locked room1;
          told = broadcast_except i
                   (MsgParticipantJoined i name role (jq_authenticated req) (jg_chat_style grant)) room2;
          others = map participant_info_of (filter (\<lambda>p. pt_id p \<noteq> i) (values_of (rm_participants room2))) in
      (Inr (Joined others role (rm_settings room2) (jg_chat_style grant) name), room2, status @ told))"

text \<open>
  \<^const>\<open>None\<close> is a search for a free name that never ends; with plain ASCII numbers in the Unicode
  tables it does not happen.
\<close>

definition join_commit ::
  "join_env \<Rightarrow> join_request \<Rightarrow> join_snapshot \<Rightarrow> join_grant \<Rightarrow> chat_preferences option \<Rightarrow> room \<Rightarrow> join_result reply option" where
  "join_commit env req snap grant preferences room =
     (if je_draining env then Some (Inl (Bail ''Server shutting down''), room, [])
      else if \<not> policy_snapshot_matches room (js_policy_revision snap)
      then Some (Inl (Bail ''Room policy changed while joining; retry''), room, [])
      else (let room1 = prune_expired_bans (je_now env) room in
        case join_refusal env req room1 of
          Inl e \<Rightarrow> Some (Inl e, room1, [])
        | Inr _ \<Rightarrow>
            (case unique_participant_name (je_icu env) room1 (jq_name req) of
               None \<Rightarrow> None
             | Some name \<Rightarrow>
                 (let is_first = rm_participants room1 = [] \<and> rm_lobby room1 = [] in
                  case select_join_role (js_persisted snap) is_first (jg_role grant) (jq_authenticated req) of
                    None \<Rightarrow> Some (no_access, room1, [])
                  | Some role \<Rightarrow>
                      (let key = sanction_key_for (jq_participant_id req) (jq_authenticated req) (jq_client_ip req);
                           punitive = merge_punitive_state (jg_punitive grant) (tget (rm_sanctions room1) key);
                           room2 = (if punitive \<noteq> punitive_default
                                    then room1\<lparr>rm_sanctions := tput key punitive (rm_sanctions room1)\<rparr> else room1) in
                       if (js_invite_only snap \<and> role < Member) \<or> (js_lobby_enabled snap \<and> \<not> is_first \<and> role < Moderator)
                       then Some (enter_lobby env req grant name role punitive room2)
                       else Some (enter_room env req preferences grant name role punitive room2))))))"

section \<open>Leaving\<close>

record departure =
  dp_removed_any :: bool
  dp_room_empty :: bool
  dp_media_session :: "uuid option"
  dp_audio_producers :: "producer_id list"

definition no_departure :: departure where
  "no_departure = \<lparr>dp_removed_any = False, dp_room_empty = False, dp_media_session = None, dp_audio_producers = []\<rparr>"

definition room_is_empty :: "room \<Rightarrow> bool" where
  "room_is_empty room \<longleftrightarrow> rm_participants room = [] \<and> rm_lobby room = []"

text \<open>
  The part of \<^verbatim>\<open>remove_participant_inner\<close> under the room's locks; the media sessions it closes
  afterwards are in its result.
\<close>

definition remove_participant_inner ::
  "(chan \<Rightarrow> bool) \<Rightarrow> participant_id \<Rightarrow> chan option \<Rightarrow> room \<Rightarrow> departure \<times> room \<times> effect list" where
  "remove_participant_inner closed i expected_sender room =
     (let sender_matches = (case expected_sender of
            None \<Rightarrow> True
          | Some c \<Rightarrow> is_some_and (\<lambda>p. pt_sender p = c) (tget (rm_participants room) i)
                      \<or> is_some_and (\<lambda>e. le_sender e = c) (tget (rm_lobby room) i)) in
      if \<not> sender_matches then (no_departure, room, [])
      else (let waiting = contains_key (rm_lobby room) i;
                room1 = room\<lparr>rm_lobby := tdel i (rm_lobby room)\<rparr>;
                gone = no_departure\<lparr>dp_removed_any := waiting, dp_room_empty := waiting \<and> room_is_empty room1\<rparr> in
            case tget (rm_participants room1) i of
              None \<Rightarrow> (gone, room1, [])
            | Some person \<Rightarrow>
                (let room2 = forget_member i room1 in
                 (\<lparr>dp_removed_any = True, dp_room_empty = room_is_empty room2,
                   dp_media_session = Some (pt_media_session_id person),
                   dp_audio_producers = map fst (filter (\<lambda>(_, r). pr_kind r = Audio) (pt_producers person))\<rparr>,
                  room2, broadcast_participant_left closed i room2 @ notify_lobby_status closed room2))))"

definition remove_participant_for_sender ::
  "(chan \<Rightarrow> bool) \<Rightarrow> participant_id \<Rightarrow> chan \<Rightarrow> room \<Rightarrow> departure \<times> room \<times> effect list" where
  "remove_participant_for_sender closed i expected_sender = remove_participant_inner closed i (Some expected_sender)"

text \<open>
  The last check before an empty room leaves the manager's map: \<^verbatim>\<open>mapped\<close> says whether the map
  still holds this very room.
\<close>

definition evict_empty_room :: "bool \<Rightarrow> room \<Rightarrow> bool \<times> room" where
  "evict_empty_room mapped room =
     (if mapped \<and> \<not> rm_deleting room \<and> rm_pending_joins room = 0 \<and> room_is_empty room
      then (True, bump_policy (room\<lparr>rm_deleting := True\<rparr>))
      else (False, room))"

definition release_failed_join :: "bool \<Rightarrow> room \<Rightarrow> bool \<times> room" where
  "release_failed_join mapped room =
     (let (last_one, room1) = release_join_reservation room in
      if last_one \<and> mapped then (True, bump_policy (room1\<lparr>rm_deleting := True\<rparr>)) else (False, room1))"

definition mark_participant_disconnected ::
  "(chan \<Rightarrow> bool) \<Rightarrow> bool \<Rightarrow> bool \<Rightarrow> participant_id \<Rightarrow> chan \<Rightarrow> room \<Rightarrow> room \<times> effect list" where
  \<comment> \<open>skipped while draining, and when the room's lock did not come in time\<close>
  "mark_participant_disconnected closed draining in_time i expected_sender room =
     (if draining \<or> \<not> in_time then (room, []) else mark_disconnected closed i expected_sender room)"

text \<open>
  The subject of a reconnecting socket's credential: absent for a guest, else the account whose
  identifier it spells, if it spells one.
\<close>

definition rebind_participant_sender ::
  "(chan \<Rightarrow> bool) \<Rightarrow> bool \<Rightarrow> participant_id \<Rightarrow> participant_id option option \<Rightarrow> chan \<Rightarrow> chan \<Rightarrow> room \<Rightarrow> bool reply" where
  "rebind_participant_sender closed draining i subject expected_sender new_sender room =
     (if draining then (Inl (Bail ''Server shutting down''), room, [])
      else (case ensure_live room of
              Inl e \<Rightarrow> (Inl e, room, [])
            | Inr _ \<Rightarrow>
                (case tget (rm_participants room) i of
                   None \<Rightarrow> (Inr False, room, [])
                 | Some p \<Rightarrow>
                     if pt_sender p \<noteq> expected_sender then (Inr False, room, [])
                     else if \<not> (case (pt_authenticated p, subject) of
                                  (True, Some s) \<Rightarrow> s = Some i | (False, None) \<Rightarrow> True | _ \<Rightarrow> False)
                     then (Inr False, room, [])
                     else (let p' = p\<lparr>pt_sender := new_sender, pt_social := (pt_social p)\<lparr>ps_connected := True\<rparr>\<rparr>;
                               room' = room\<lparr>rm_participants := tput i p' (rm_participants room)\<rparr> in
                           (Inr True, room', notify_lobby_status closed room')))))"

section \<open>A join, once its reservation is held\<close>

definition replace_stale_member ::
  "(chan \<Rightarrow> bool) \<Rightarrow> participant_id \<Rightarrow> room \<Rightarrow> room \<times> effect list" where
  "replace_stale_member closed i room =
     (case tget (rm_participants room) i of
        Some p \<Rightarrow> if closed (pt_sender p)
                  then snd (remove_participant_for_sender closed i (pt_sender p) room) else (room, [])
      | None \<Rightarrow> (room, []))"

text \<open>
  \<^verbatim>\<open>others\<close> is what happens to the room between the reading of its policy and the commit.
\<close>

definition join_room ::
  "join_env \<Rightarrow> join_request \<Rightarrow> string option \<Rightarrow> (room \<Rightarrow> room) \<Rightarrow> room \<Rightarrow> join_result reply option" where
  "join_room env req prechecked_hash others room =
     (let (room1, sent) = replace_stale_member (je_closed env) (jq_participant_id req) room;
          busy = Inl (Bail ''Room control is busy; try again'');
          snap = join_snapshot_of room1 in
      if \<not> je_snapshot_in_time env then Some (busy, room1, sent)
      else (case join_authorize env req prechecked_hash snap of
              Inl e \<Rightarrow> Some (Inl e, others room1, sent)
            | Inr grant \<Rightarrow>
                if \<not> je_commit_in_time env then Some (busy, others room1, sent)
                else (case membership_chat_preferences (je_pool env) (je_preferences env) (jq_authenticated req) of
                        Inl e \<Rightarrow> Some (Inl e, others room1, sent)
                      | Inr preferences \<Rightarrow>
                          map_option (\<lambda>(result, room2, sent'). (result, room2, sent @ sent'))
                            (join_commit env req snap grant preferences (others room1)))))"

end
