(* ===== verification/Moderation_Ops.thy ===== *)
theory Moderation_Ops
  imports Room_Control
begin

text \<open>
  Sanctions, kicks, bans and roles by a moderator in the room
  (\<^verbatim>\<open>src/room/manager/moderation_ops.rs\<close>). An operation that awaits the database holds the room's
  control lock but not its state: it is split where the state lock is released, into a step that
  authorizes and plans and a step that publishes. The whole handler composes them around what
  the rest of the server does to the room in between. Clock readings, fresh identifiers and the
  answer of the database are arguments.
\<close>

definition attempt :: "'a outcome \<Rightarrow> room \<Rightarrow> ('a \<Rightarrow> 'b reply) \<Rightarrow> 'b reply" where
  \<comment> \<open>the \<^verbatim>\<open>?\<close> operator: an error returns, leaving the room as it is\<close>
  "attempt result room k = (case result of Inl e \<Rightarrow> (Inl e, room, []) | Inr v \<Rightarrow> k v)"

definition reserve_admin :: "instant \<Rightarrow> room \<Rightarrow> bool \<times> room" where
  "reserve_admin now room =
     (let (ok, w) = reserve now (rm_admin_mutations room) in (ok, room\<lparr>rm_admin_mutations := w\<rparr>))"

text \<open>
  What an operation meets: which channels are closed, its clock readings (\<^verbatim>\<open>Instant::now\<close> when it
  plans and when it publishes, and the wall clock), fresh identifiers for the history entry and a
  ban, whether a database is configured and the manager's map still holds the room, the outcome
  of the awaited write, and what happens to the room meanwhile.
\<close>

record 'w control_env =
  ce_closed :: "chan \<Rightarrow> bool"
  ce_now :: instant
  ce_later :: instant
  ce_wall :: date_time
  ce_event_id :: uuid
  ce_ban_id :: uuid
  ce_pool :: bool
  ce_mapped :: bool
  ce_write :: "(room_error + 'w) option"
  ce_others :: "room \<Rightarrow> room"

section \<open>Camera bans and mutes\<close>

record sanction_plan =
  sq_publication :: sanction_publication
  sq_event :: moderation_event
  sq_persisted :: bool
  sq_moderator_authenticated :: bool

definition plan_sanction ::
  "'w control_env \<Rightarrow> participant_id \<Rightarrow> chan \<Rightarrow> participant_id \<Rightarrow> punitive_kind \<Rightarrow> bool \<Rightarrow>
     string option \<Rightarrow> room \<Rightarrow> sanction_plan option reply" where
  "plan_sanction env moderator_id expected_sender target_id kind enabled reason room =
     (if is_some_and (\<lambda>r. \<not> valid_reason r) reason
      then (Inl (Bail ''Moderation reason must be at most 256 characters without control characters''), room, [])
      else attempt (participant_for_sender room moderator_id expected_sender) room (\<lambda>moderator.
        (case tget (rm_participants room) target_id of
           None \<Rightarrow> (Inl (Bail ''Target participant not found''), room, [])
         | Some target \<Rightarrow>
             attempt (moderation_cohort room target_id (pt_role moderator)) room (\<lambda>ids.
             attempt (guest_ip_lobby_cohort room (pt_authenticated target) (pt_ip target) (pt_role moderator)) room (\<lambda>lobby_ids.
               let key = sanction_key_for target_id (pt_authenticated target) (pt_ip target) in
               if punitive_cohort_matches room ids lobby_ids key kind enabled then (Inr None, room, [])
               else (let (ok, room') = reserve_admin (ce_now env) room in
                     if \<not> ok then (Inl (Bail ''Room administration changes are rate limited''), room', [])
                     else (Inr (Some
                       \<lparr>sq_publication =
                          \<lparr>sp_target = target_id, sp_participants = ids, sp_lobby = lobby_ids,
                           sp_authenticated = pt_authenticated target, sp_ip = pt_ip target,
                           sp_kind = kind, sp_enabled = enabled\<rparr>,
                        sq_event = moderation_event_new (ce_event_id env) (ce_wall env) (action_for_punitive kind enabled)
                          (moderator_id, pt_name moderator)
                          \<lparr>mt_id = TargetParticipant target_id, mt_name = pt_name target,
                           mt_authenticated = pt_authenticated target, mt_ip = pt_ip target\<rparr>
                          reason None None,
                        sq_persisted = rm_persisted room',
                        sq_moderator_authenticated = pt_authenticated moderator\<rparr>), room', [])))))))"

text \<open>An error as text; the database library's own wording is not modelled.\<close>

fun error_text :: "room_error \<Rightarrow> string" where
  "error_text (Refused r) = refusal_message r"
| "error_text (Database _) = ''database error''"

text \<open>
  The persisted branch sanctions and bans share: what is answered without a database, whether the
  moderator is registered, the identity the row is written for, and how a failed write is
  reported.
\<close>

definition save_for_identity ::
  "unit control_env \<Rightarrow> string \<Rightarrow> bool \<Rightarrow> participant_id \<Rightarrow> bool \<Rightarrow> ip_addr option \<Rightarrow> (room_error \<Rightarrow> failure) \<Rightarrow>
     room \<Rightarrow> unit reply" where
  "save_for_identity env no_pool moderator_authenticated target_id authenticated ip report room =
     (if \<not> ce_pool env then (Inl (Bail no_pool), room, [])
      else if \<not> moderator_authenticated then (Inl (Bail ''A registered moderator is required''), room, [])
      else (case sanction_identity_of target_id authenticated ip of
              Inl e \<Rightarrow> (Inl (Bail (error_text e)), room, [])
            | Inr _ \<Rightarrow>
                (case persist_room (ce_mapped env) (ce_write env) room of
                   (Inl e, room', sent) \<Rightarrow> (Inl (report e), room', sent)
                 | (Inr _, room', sent) \<Rightarrow> (Inr (), room', sent))))"

definition save_sanction :: "unit control_env \<Rightarrow> sanction_plan \<Rightarrow> room \<Rightarrow> unit reply" where
  "save_sanction env plan room =
     (if sq_persisted plan
      then save_for_identity env ''Moderation service is temporarily unavailable''
             (sq_moderator_authenticated plan) (sp_target (sq_publication plan))
             (sp_authenticated (sq_publication plan)) (sp_ip (sq_publication plan))
             (\<lambda>_. Bail ''Moderation state could not be saved'') room
      else (Inr (), room, []))"

definition publish_planned_sanction ::
  "'w control_env \<Rightarrow> sanction_plan \<Rightarrow> room \<Rightarrow> revoked_producer list reply" where
  "publish_planned_sanction env plan room =
     attempt (ensure_live room) room (\<lambda>_.
       let room1 = (if sq_persisted plan then room
                    else room\<lparr>rm_social := record_moderation_event (sq_event plan) (rm_social room)\<rparr>);
           (revoked, room2, sent) = publish_sanction (ce_closed env) (sq_publication plan) room1 in
       (Inr revoked, room2, sent))"

text \<open>
  The whole operation. The last step closes the revoked producers in the media layer; its list is
  part of the result.
\<close>

definition finish_sanction :: "unit control_env \<Rightarrow> sanction_plan \<Rightarrow> room \<Rightarrow> (bool \<times> revoked_producer list) reply" where
  "finish_sanction env plan room =
     (case save_sanction env plan room of
        (Inl e, room1, sent) \<Rightarrow> (Inl e, room1, sent)
      | (Inr _, room1, sent) \<Rightarrow>
          (case publish_planned_sanction env plan room1 of
             (Inl e, room2, sent') \<Rightarrow> (Inl e, room2, sent @ sent')
           | (Inr revoked, room2, sent') \<Rightarrow> (Inr (True, revoked), room2, sent @ sent')))"

definition update_punitive_state_controlled ::
  "unit control_env \<Rightarrow> participant_id \<Rightarrow> chan \<Rightarrow> participant_id \<Rightarrow> punitive_kind \<Rightarrow> bool \<Rightarrow> string option \<Rightarrow>
     room \<Rightarrow> (bool \<times> revoked_producer list) reply" where
  "update_punitive_state_controlled env moderator_id expected_sender target_id kind enabled reason room =
     (case plan_sanction env moderator_id expected_sender target_id kind enabled reason room of
        (Inl e, room1, sent) \<Rightarrow> (Inl e, room1, sent)
      | (Inr None, room1, sent) \<Rightarrow> (Inr (False, []), room1, sent)
      | (Inr (Some plan), room1, _) \<Rightarrow> finish_sanction env plan (ce_others env room1))"

section \<open>Closing a camera\<close>

definition close_cam_plan ::
  "'w control_env \<Rightarrow> participant_id \<Rightarrow> chan \<Rightarrow> participant_id \<Rightarrow> room \<Rightarrow> (producer_id list \<times> uuid) reply" where
  "close_cam_plan env moderator_id expected_sender target_id room =
     attempt (participant_for_sender room moderator_id expected_sender) room (\<lambda>moderator.
       (case tget (rm_participants room) target_id of
          None \<Rightarrow> (Inl (Bail ''Target participant not found''), room, [])
        | Some target \<Rightarrow>
            if \<not> can_moderate (pt_role moderator) (pt_role target)
            then (Inl (Bail ''Insufficient permissions to moderate this participant''), room, [])
            else (let producers = map fst (filter (\<lambda>(_, r). pr_kind r = Video) (pt_producers target)) in
                  if producers = [] then (Inr ([], pt_media_session_id target), room, [])
                  else (let (ok, room') = reserve_admin (ce_now env) room in
                        if \<not> ok then (Inl (Bail ''Room administration changes are rate limited''), room', [])
                        else (Inr (producers, pt_media_session_id target), room', [])))))"

definition close_cam_commit :: "participant_id \<Rightarrow> uuid \<Rightarrow> producer_id list \<Rightarrow> room \<Rightarrow> unit reply" where
  "close_cam_commit target_id media_session producers room =
     attempt (ensure_live room) room (\<lambda>_.
       (case tget (rm_participants room) target_id of
          Some target \<Rightarrow>
            if pt_media_session_id target \<noteq> media_session then (Inr (), room, [])
            else (let room1 = room\<lparr>rm_participants := tput target_id
                        (target\<lparr>pt_producers := fold tdel producers (pt_producers target)\<rparr>) (rm_participants room)\<rparr>;
                      (room2, sent) = for_each (\<lambda>pid r.
                         let r' = r\<lparr>rm_producer_to_participant := tdel pid (rm_producer_to_participant r)\<rparr> in
                         (r', broadcast_all (MsgForceClosedProducer pid ''Closed by moderator'') r'
                              @ broadcast_all (MsgProducerClosed pid) r')) producers room1 in
                  (Inr (), room2, sent))
        | None \<Rightarrow> (Inr (), room, [])))"

definition close_cam ::
  "'w control_env \<Rightarrow> participant_id \<Rightarrow> chan \<Rightarrow> participant_id \<Rightarrow> room \<Rightarrow> unit reply" where
  "close_cam env moderator_id expected_sender target_id room =
     (case close_cam_plan env moderator_id expected_sender target_id room of
        (Inl e, room1, sent) \<Rightarrow> (Inl e, room1, sent)
      | (Inr (producers, media_session), room1, sent) \<Rightarrow>
          if producers = [] then (Inr (), room1, sent)
          else close_cam_commit target_id media_session producers (ce_others env room1))"

section \<open>Camera and text sanctions\<close>

text \<open>The four commands discard whether anything changed.\<close>

definition discard :: "'a reply \<Rightarrow> unit reply" where
  "discard reply = (case reply of (result, room, sent) \<Rightarrow> (map_sum id (\<lambda>_. ()) result, room, sent))"

definition update_punitive_state ::
  "control_gate \<Rightarrow> unit control_env \<Rightarrow> participant_id \<Rightarrow> chan \<Rightarrow> participant_id \<Rightarrow> punitive_kind \<Rightarrow> bool \<Rightarrow>
     string option \<Rightarrow> room \<Rightarrow> (bool \<times> revoked_producer list) reply" where
  "update_punitive_state gate env moderator_id expected_sender target_id kind enabled reason =
     run_room_control gate
       (update_punitive_state_controlled env moderator_id expected_sender target_id kind enabled reason)"

definition cam_ban ::
  "control_gate \<Rightarrow> unit control_env \<Rightarrow> participant_id \<Rightarrow> chan \<Rightarrow> participant_id \<Rightarrow> string option \<Rightarrow> room \<Rightarrow> unit reply" where
  "cam_ban gate env moderator_id expected_sender target_id reason room =
     discard (update_punitive_state gate env moderator_id expected_sender target_id CamBanned True reason room)"

definition cam_unban ::
  "control_gate \<Rightarrow> unit control_env \<Rightarrow> participant_id \<Rightarrow> chan \<Rightarrow> participant_id \<Rightarrow> room \<Rightarrow> unit reply" where
  "cam_unban gate env moderator_id expected_sender target_id room =
     discard (update_punitive_state gate env moderator_id expected_sender target_id CamBanned False None room)"

definition text_mute ::
  "control_gate \<Rightarrow> unit control_env \<Rightarrow> participant_id \<Rightarrow> chan \<Rightarrow> participant_id \<Rightarrow> room \<Rightarrow> unit reply" where
  "text_mute gate env moderator_id expected_sender target_id room =
     discard (update_punitive_state gate env moderator_id expected_sender target_id Muted True None room)"

definition text_unmute ::
  "control_gate \<Rightarrow> unit control_env \<Rightarrow> participant_id \<Rightarrow> chan \<Rightarrow> participant_id \<Rightarrow> room \<Rightarrow> unit reply" where
  "text_unmute gate env moderator_id expected_sender target_id room =
     discard (update_punitive_state gate env moderator_id expected_sender target_id Muted False None room)"

section \<open>Kicks\<close>

record removal_plan =
  rq_publication :: removal_publication
  rq_event :: moderation_event
  rq_report :: "uuid option"
  rq_persisted :: bool
  rq_moderator_authenticated :: bool
  rq_target :: participant_id

fun moderation_history_error :: "room_error \<Rightarrow> failure" where
  "moderation_history_error (Refused r) = refused r"
| "moderation_history_error (Database RowNotFound) = Bail ''Report not found''"
| "moderation_history_error (Database _) = Bail ''Moderation history could not be saved''"

definition plan_kick ::
  "'w control_env \<Rightarrow> participant_id \<Rightarrow> chan \<Rightarrow> participant_id \<Rightarrow> string option \<Rightarrow> uuid option \<Rightarrow>
     room \<Rightarrow> removal_plan reply" where
  "plan_kick env moderator_id expected_sender target_id reason report_id room =
     attempt (participant_for_sender room moderator_id expected_sender) room (\<lambda>moderator.
       (case tget (rm_participants room) target_id of
          None \<Rightarrow> (Inl (Bail ''Target participant not found''), room, [])
        | Some target \<Rightarrow>
            if \<not> can_moderate (pt_role moderator) (pt_role target)
            then (Inl (Bail ''Insufficient permissions to kick this participant''), room, [])
            else (let (ok, room') = reserve_admin (ce_now env) room in
                  if \<not> ok then (Inl (Bail ''Room administration changes are rate limited''), room', [])
                  else (Inr
                    \<lparr>rq_publication =
                       \<lparr>rp_ban = False, rp_participants = [target_id], rp_lobby = [],
                        rp_authenticated = pt_authenticated target, rp_ip = pt_ip target, rp_name = pt_name target,
                        rp_reason = reason, rp_duration_seconds = None\<rparr>,
                     rq_event = moderation_event_new (ce_event_id env) (ce_wall env) Kick (moderator_id, pt_name moderator)
                       \<lparr>mt_id = TargetParticipant target_id, mt_name = pt_name target,
                        mt_authenticated = pt_authenticated target, mt_ip = pt_ip target\<rparr>
                       reason None report_id,
                     rq_report = report_id, rq_persisted = rm_persisted room',
                     rq_moderator_authenticated = pt_authenticated moderator, rq_target = target_id\<rparr>, room', []))))"

text \<open>A room without a database keeps the decision, and the report it answers, in memory.\<close>

definition keep_decision :: "date_time \<Rightarrow> removal_plan \<Rightarrow> room \<Rightarrow> unit reply" where
  "keep_decision wall plan room =
     (case (case rq_report plan of
              Some report_id \<Rightarrow> link_report report_id wall (rm_social room)
            | None \<Rightarrow> (Inr (), rm_social room)) of
        (Inl e, social) \<Rightarrow> (Inl e, room\<lparr>rm_social := social\<rparr>, [])
      | (Inr _, social) \<Rightarrow> (Inr (), room\<lparr>rm_social := record_moderation_event (rq_event plan) social\<rparr>, []))"

definition record_kick :: "unit control_env \<Rightarrow> removal_plan \<Rightarrow> room \<Rightarrow> unit reply" where
  "record_kick env plan room =
     (if rq_persisted plan
      then (if \<not> ce_pool env then (Inl (Bail ''Moderation service is temporarily unavailable''), room, [])
            else (case persist_room (ce_mapped env) (ce_write env) room of
                    (Inl e, room', sent) \<Rightarrow> (Inl (moderation_history_error e), room', sent)
                  | (Inr _, room', sent) \<Rightarrow>
                      attempt (ensure_live room') room' (\<lambda>_.
                        if \<not> contains_key (rm_participants room') (rq_target plan)
                        then (Inl (Bail ''Target participant not found''), room', sent)
                        else (Inr (), room', sent))))
      else keep_decision (ce_wall env) plan room)"

text \<open>A kick records no ban, so \<^const>\<open>publish_removal\<close> uses neither the identifier nor the clocks.\<close>

definition finish_kick :: "unit control_env \<Rightarrow> removal_plan \<Rightarrow> room \<Rightarrow> removed_session reply" where
  "finish_kick env plan room =
     (case record_kick env plan room of
        (Inl e, room1, sent) \<Rightarrow> (Inl e, room1, sent)
      | (Inr _, room1, sent) \<Rightarrow>
          (case publish_removal (ce_closed env) (ce_ban_id env) (ce_later env) (ce_wall env) (rq_publication plan) room1 of
             ([], room2, sent') \<Rightarrow> (Inl (Bail ''Target participant not found''), room2, sent @ sent')
           | (session # _, room2, sent') \<Rightarrow> (Inr session, room2, sent @ sent')))"

definition kick_participant ::
  "unit control_env \<Rightarrow> participant_id \<Rightarrow> chan \<Rightarrow> participant_id \<Rightarrow> string option \<Rightarrow> uuid option \<Rightarrow> room \<Rightarrow>
     removed_session reply" where
  \<comment> \<open>the room's state is unlocked only while a write is awaited\<close>
  "kick_participant env moderator_id expected_sender target_id reason report_id room =
     (case plan_kick env moderator_id expected_sender target_id reason report_id room of
        (Inl e, room1, sent) \<Rightarrow> (Inl e, room1, sent)
      | (Inr plan, room1, _) \<Rightarrow>
          finish_kick env plan (if rq_persisted plan \<and> ce_pool env then ce_others env room1 else room1))"

section \<open>Bans\<close>

definition MAX_BAN_DURATION_SECS :: nat where "MAX_BAN_DURATION_SECS = 10 * 365 * 24 * 60 * 60"

definition plan_ban ::
  "'w control_env \<Rightarrow> participant_id \<Rightarrow> chan \<Rightarrow> participant_id \<Rightarrow> string option \<Rightarrow> nat option \<Rightarrow> uuid option \<Rightarrow>
     room \<Rightarrow> removal_plan reply" where
  "plan_ban env moderator_id expected_sender target_id reason duration report_id room =
     (if is_some_and (\<lambda>seconds. seconds = 0 \<or> seconds > MAX_BAN_DURATION_SECS) duration
      then (Inl (Bail ''Ban duration must be between 1 second and 10 years''), room, [])
      else if is_some_and (\<lambda>r. \<not> valid_reason r) reason
      then (Inl (Bail ''Ban reason must be at most 256 characters without control characters''), room, [])
      else attempt (participant_for_sender room moderator_id expected_sender) room (\<lambda>moderator.
        (case tget (rm_participants room) target_id of
           None \<Rightarrow> (Inl (Bail ''Target participant not found''), room, [])
         | Some target \<Rightarrow>
             attempt (moderation_cohort room target_id (pt_role moderator)) room (\<lambda>ids.
             attempt (guest_ip_lobby_cohort room (pt_authenticated target) (pt_ip target) (pt_role moderator)) room (\<lambda>lobby_ids.
               let (space, social) = reserve_ban (ce_now env) (rm_social room); room1 = room\<lparr>rm_social := social\<rparr> in
               attempt space room1 (\<lambda>_.
               let (ok, room2) = reserve_admin (ce_now env) room1 in
               if \<not> ok then (Inl (Bail ''Room administration changes are rate limited''), room2, [])
               else (Inr
                 \<lparr>rq_publication =
                    \<lparr>rp_ban = True, rp_participants = ids, rp_lobby = lobby_ids,
                     rp_authenticated = pt_authenticated target, rp_ip = pt_ip target, rp_name = pt_name target,
                     rp_reason = reason, rp_duration_seconds = duration\<rparr>,
                  rq_event = moderation_event_new (ce_event_id env) (ce_wall env) Ban (moderator_id, pt_name moderator)
                    \<lparr>mt_id = TargetParticipant target_id, mt_name = pt_name target,
                     mt_authenticated = pt_authenticated target, mt_ip = pt_ip target\<rparr>
                    reason (map_option (\<lambda>secs. ce_wall env + int secs * 1000000000) duration) report_id,
                  rq_report = report_id, rq_persisted = rm_persisted room2,
                  rq_moderator_authenticated = pt_authenticated moderator, rq_target = target_id\<rparr>, room2, [])))))))"

fun ban_error :: "room_error \<Rightarrow> failure" where
  "ban_error (Refused r) = refused r"
| "ban_error (Database RowNotFound) = Bail ''Report not found''"
| "ban_error (Database _) = Bail ''Ban could not be saved''"

definition save_ban :: "unit control_env \<Rightarrow> removal_plan \<Rightarrow> room \<Rightarrow> unit reply" where
  "save_ban env plan room =
     (if rq_persisted plan
      then save_for_identity env ''Ban service is temporarily unavailable'' (rq_moderator_authenticated plan)
             (rq_target plan) (rp_authenticated (rq_publication plan)) (rp_ip (rq_publication plan)) ban_error room
      else (Inr (), room, []))"

definition publish_planned_ban :: "'w control_env \<Rightarrow> removal_plan \<Rightarrow> room \<Rightarrow> removed_session list reply" where
  "publish_planned_ban env plan room =
     attempt (ensure_live room) room (\<lambda>_.
       (case (if rq_persisted plan then (Inr (), room, []) else keep_decision (ce_wall env) plan room) of
          (Inl e, room1, sent) \<Rightarrow> (Inl e, room1, sent)
        | (Inr _, room1, _) \<Rightarrow>
            (let (sessions, room2, sent) = publish_removal (ce_closed env) (ce_ban_id env) (ce_later env) (ce_wall env)
                   (rq_publication plan) room1 in
             (Inr sessions, room2, sent))))"

definition finish_ban :: "unit control_env \<Rightarrow> removal_plan \<Rightarrow> room \<Rightarrow> removed_session list reply" where
  "finish_ban env plan room =
     (case save_ban env plan room of
        (Inl e, room1, sent) \<Rightarrow> (Inl e, room1, sent)
      | (Inr _, room1, sent) \<Rightarrow>
          (case publish_planned_ban env plan room1 of (result, room2, sent') \<Rightarrow> (result, room2, sent @ sent')))"

definition ban_participant_controlled ::
  "unit control_env \<Rightarrow> participant_id \<Rightarrow> chan \<Rightarrow> participant_id \<Rightarrow> string option \<Rightarrow> nat option \<Rightarrow> uuid option \<Rightarrow>
     room \<Rightarrow> removed_session list reply" where
  "ban_participant_controlled env moderator_id expected_sender target_id reason duration report_id room =
     (case plan_ban env moderator_id expected_sender target_id reason duration report_id room of
        (Inl e, room1, sent) \<Rightarrow> (Inl e, room1, sent)
      | (Inr plan, room1, _) \<Rightarrow> finish_ban env plan (ce_others env room1))"

definition ban_participant ::
  "control_gate \<Rightarrow> unit control_env \<Rightarrow> participant_id \<Rightarrow> chan \<Rightarrow> participant_id \<Rightarrow> string option \<Rightarrow> nat option \<Rightarrow>
     uuid option \<Rightarrow> room \<Rightarrow> removed_session list reply" where
  "ban_participant gate env moderator_id expected_sender target_id reason duration report_id =
     run_room_control gate
       (ban_participant_controlled env moderator_id expected_sender target_id reason duration report_id)"

section \<open>Lifting a ban\<close>

definition plan_unban ::
  "'w control_env \<Rightarrow> participant_id \<Rightarrow> chan \<Rightarrow> participant_id \<Rightarrow> room \<Rightarrow> (string \<times> bool) reply" where
  \<comment> \<open>the moderator's name, and whether the saved bans are asked too\<close>
  "plan_unban env moderator_id expected_sender target_id room =
     attempt (ensure_live room) room (\<lambda>_.
     attempt (participant_for_sender room moderator_id expected_sender) room (\<lambda>moderator.
       if pt_role moderator < Admin
       then (Inl (Bail ''Insufficient permissions to unban (requires Admin+)''), room, [])
       else (let room1 = prune_expired_bans (ce_now env) room in
             if target_id \<in> set (rm_banned_guest_participants room1)
             then (Inl (Bail ''Guest bans are identity/IP-scoped and cannot be removed by participant ID''), room1, [])
             else if \<not> contains_key (rm_banned_participants room1) target_id \<and> \<not> rm_persisted room1
             then (Inl (Bail ''Participant is not banned''), room1, [])
             else (let (ok, room2) = reserve_admin (ce_now env) room1 in
                   if \<not> ok then (Inl (Bail ''Room administration changes are rate limited''), room2, [])
                   else (Inr (pt_name moderator, rm_persisted room1), room2, [])))))"

definition save_unban :: "bool control_env \<Rightarrow> bool \<Rightarrow> room \<Rightarrow> bool reply" where
  "save_unban env persisted room =
     (if \<not> persisted then (Inr False, room, [])
      else if \<not> ce_pool env then (Inl (Bail ''Ban service is temporarily unavailable''), room, [])
      else (case persist_room (ce_mapped env) (ce_write env) room of
              (Inl e, room', sent) \<Rightarrow> (Inl (Bail ''Ban state could not be updated''), room', sent)
            | (Inr removed, room', sent) \<Rightarrow> (Inr removed, room', sent)))"

definition publish_planned_unban ::
  "'w control_env \<Rightarrow> participant_id \<Rightarrow> string \<Rightarrow> participant_id \<Rightarrow> bool \<Rightarrow> room \<Rightarrow> unit reply" where
  "publish_planned_unban env moderator_id moderator_name target_id persisted_removed room =
     attempt (ensure_live room) room (\<lambda>_.
       let in_memory = contains_key (rm_banned_participants room) target_id;
           room1 = room\<lparr>rm_banned_participants := tdel target_id (rm_banned_participants room)\<rparr> in
       if \<not> in_memory \<and> \<not> persisted_removed then (Inl (Bail ''Participant is not banned''), room1, [])
       else (let (banned_name, social) = forget_user_ban target_id (rm_social room1) in
             if rm_persisted room1 then (Inr (), room1\<lparr>rm_social := social\<rparr>, [])
             else (Inr (), room1\<lparr>rm_social := record_moderation_event
                     (moderation_event_new (ce_event_id env) (ce_wall env) Unban (moderator_id, moderator_name)
                       \<lparr>mt_id = TargetParticipant target_id, mt_name = unwrap_or banned_name ''Removed account'',
                        mt_authenticated = True, mt_ip = None\<rparr> None None None) social\<rparr>, [])))"

definition finish_unban ::
  "bool control_env \<Rightarrow> participant_id \<Rightarrow> participant_id \<Rightarrow> string \<times> bool \<Rightarrow> room \<Rightarrow> unit reply" where
  "finish_unban env moderator_id target_id plan room =
     (case save_unban env (snd plan) room of
        (Inl e, room1, sent) \<Rightarrow> (Inl e, room1, sent)
      | (Inr removed, room1, _) \<Rightarrow> publish_planned_unban env moderator_id (fst plan) target_id removed room1)"

definition unban_participant_controlled ::
  "bool control_env \<Rightarrow> participant_id \<Rightarrow> chan \<Rightarrow> participant_id \<Rightarrow> room \<Rightarrow> unit reply" where
  "unban_participant_controlled env moderator_id expected_sender target_id room =
     (case plan_unban env moderator_id expected_sender target_id room of
        (Inl e, room1, sent) \<Rightarrow> (Inl e, room1, sent)
      | (Inr plan, room1, _) \<Rightarrow> finish_unban env moderator_id target_id plan (ce_others env room1))"

definition unban_participant ::
  "control_gate \<Rightarrow> bool control_env \<Rightarrow> participant_id \<Rightarrow> chan \<Rightarrow> participant_id \<Rightarrow> room \<Rightarrow> unit reply" where
  "unban_participant gate env moderator_id expected_sender target_id =
     run_room_control gate (unban_participant_controlled env moderator_id expected_sender target_id)"

section \<open>Roles and voice requests\<close>

record role_plan =
  rl_persisted :: bool
  rl_setter_authenticated :: bool
  rl_target_authenticated :: bool

definition plan_role ::
  "'w control_env \<Rightarrow> participant_id \<Rightarrow> chan \<Rightarrow> participant_id \<Rightarrow> role \<Rightarrow> room \<Rightarrow> role_plan option reply" where
  "plan_role env setter_id expected_sender target_id new_role room =
     attempt (participant_for_sender room setter_id expected_sender) room (\<lambda>setter.
       (case tget (rm_participants room) target_id of
          None \<Rightarrow> (Inl (Bail ''Target participant not found''), room, [])
        | Some target \<Rightarrow>
            if \<not> can_set_role (pt_role setter) (pt_role target) new_role
            then (Inl (Bail ''Insufficient permissions to set this role''), room, [])
            else if pt_authenticated target \<and> new_role = Guest
            then (Inl (Bail ''Registered participants must be assigned at least the user role''), room, [])
            else if pt_role target = new_role then (Inr None, room, [])
            else (let (ok, room1) = reserve_admin (ce_now env) room in
                  if \<not> ok then (Inl (Bail ''Room administration changes are rate limited''), room1, [])
                  else (Inr (Some \<lparr>rl_persisted = rm_persisted room1,
                                   rl_setter_authenticated = pt_authenticated setter,
                                   rl_target_authenticated = pt_authenticated target\<rparr>), room1, []))))"

definition save_role :: "unit control_env \<Rightarrow> role_plan \<Rightarrow> room \<Rightarrow> unit reply" where
  "save_role env plan room =
     (if \<not> rl_persisted plan then (Inr (), room, [])
      else if \<not> rl_setter_authenticated plan \<or> \<not> rl_target_authenticated plan
      then (Inl (Bail ''Persistent roles require registered participants''), room, [])
      else if \<not> ce_pool env then (Inl (Bail ''Role service is temporarily unavailable''), room, [])
      else (case persist_room (ce_mapped env) (ce_write env) room of
              (Inl e, room', sent) \<Rightarrow> (Inl (Bail ''Role could not be saved''), room', sent)
            | (Inr _, room', sent) \<Rightarrow> (Inr (), room', sent)))"

definition publish_planned_role ::
  "'w control_env \<Rightarrow> participant_id \<Rightarrow> participant_id \<Rightarrow> role \<Rightarrow> room \<Rightarrow> revoked_producer list reply" where
  "publish_planned_role env setter_id target_id new_role room =
     attempt (ensure_live room) room (\<lambda>_.
       let (revoked, room', sent) = publish_role (ce_closed env) target_id new_role setter_id room in
       (Inr revoked, room', sent))"

definition finish_role ::
  "unit control_env \<Rightarrow> participant_id \<Rightarrow> participant_id \<Rightarrow> role \<Rightarrow> role_plan \<Rightarrow> room \<Rightarrow> revoked_producer list reply" where
  "finish_role env setter_id target_id new_role plan room =
     (case save_role env plan room of
        (Inl e, room1, sent) \<Rightarrow> (Inl e, room1, sent)
      | (Inr _, room1, _) \<Rightarrow> publish_planned_role env setter_id target_id new_role room1)"

definition set_participant_role_controlled ::
  "unit control_env \<Rightarrow> participant_id \<Rightarrow> chan \<Rightarrow> participant_id \<Rightarrow> role \<Rightarrow> room \<Rightarrow> revoked_producer list reply" where
  "set_participant_role_controlled env setter_id expected_sender target_id new_role room =
     (case plan_role env setter_id expected_sender target_id new_role room of
        (Inl e, room1, sent) \<Rightarrow> (Inl e, room1, sent)
      | (Inr None, room1, sent) \<Rightarrow> (Inr [], room1, sent)
      | (Inr (Some plan), room1, _) \<Rightarrow> finish_role env setter_id target_id new_role plan (ce_others env room1))"

definition set_participant_role ::
  "control_gate \<Rightarrow> unit control_env \<Rightarrow> participant_id \<Rightarrow> chan \<Rightarrow> participant_id \<Rightarrow> role \<Rightarrow> room \<Rightarrow>
     revoked_producer list reply" where
  "set_participant_role gate env setter_id expected_sender target_id new_role =
     run_room_control gate (set_participant_role_controlled env setter_id expected_sender target_id new_role)"

definition request_voice :: "'w control_env \<Rightarrow> participant_id \<Rightarrow> chan \<Rightarrow> room \<Rightarrow> unit reply" where
  "request_voice env participant_id expected_sender room =
     attempt (participant_for_sender room participant_id expected_sender) room (\<lambda>p.
       let (ok, w) = reserve (ce_now env) (rm_voice_requests room); room1 = room\<lparr>rm_voice_requests := w\<rparr> in
       if \<not> ok then (Inl (Bail ''Room voice-request rate limit exceeded''), room1, [])
       else (Inr (), room1, broadcast_to_role Moderator (MsgVoiceRequested participant_id (pt_name p)) room1))"

end
