(* ===== verification/Moderation_Safety.thy ===== *)
theory Moderation_Safety
  imports Moderation_Ops
begin

text \<open>
  What the operations of \<^verbatim>\<open>src/room/manager/moderation_ops.rs\<close> keep and achieve. A planned sanction
  or ban lists everybody present under the identity it is about, and goes on doing so while
  nobody joins; published, it leaves the room safe.
\<close>

section \<open>Nobody joins\<close>

text \<open>
  Everybody in the later room was there before, in the same place and with the same identity:
  what the rest of the server keeps while one operation holds the room's control lock.
\<close>

definition no_newcomers :: "room \<Rightarrow> room \<Rightarrow> bool" where
  "no_newcomers r r' \<longleftrightarrow>
     (\<forall>i p'. tget (rm_participants r') i = Some p' \<longrightarrow>
        (\<exists>p. tget (rm_participants r) i = Some p \<and> pt_authenticated p' = pt_authenticated p \<and> pt_ip p' = pt_ip p))
     \<and> (\<forall>i e'. tget (rm_lobby r') i = Some e' \<longrightarrow>
        (\<exists>e. tget (rm_lobby r) i = Some e \<and> le_authenticated e' = le_authenticated e \<and> le_ip e' = le_ip e))"

lemma no_newcomers_refl [simp]: "no_newcomers r r"
  by (simp add: no_newcomers_def)

lemma no_newcomersD:
  assumes "no_newcomers r r'"
  shows "tget (rm_participants r') i = Some p' \<Longrightarrow>
      \<exists>p. tget (rm_participants r) i = Some p \<and> pt_authenticated p' = pt_authenticated p \<and> pt_ip p' = pt_ip p"
    and "tget (rm_lobby r') i = Some e' \<Longrightarrow>
      \<exists>e. tget (rm_lobby r) i = Some e \<and> le_authenticated e' = le_authenticated e \<and> le_ip e' = le_ip e"
  using assms by (simp_all add: no_newcomers_def)

lemma no_newcomers_trans:
  assumes "no_newcomers a b" and "no_newcomers b c"
  shows "no_newcomers a c"
  unfolding no_newcomers_def
proof (intro conjI allI impI)
  fix i p' assume "tget (rm_participants c) i = Some p'"
  from no_newcomersD(1) [OF assms(2) this] no_newcomersD(1) [OF assms(1)]
  show "\<exists>p. tget (rm_participants a) i = Some p \<and> pt_authenticated p' = pt_authenticated p \<and> pt_ip p' = pt_ip p"
    by fastforce
next
  fix i e' assume "tget (rm_lobby c) i = Some e'"
  from no_newcomersD(2) [OF assms(2) this] no_newcomersD(2) [OF assms(1)]
  show "\<exists>e. tget (rm_lobby a) i = Some e \<and> le_authenticated e' = le_authenticated e \<and> le_ip e' = le_ip e"
    by fastforce
qed

lemma no_newcomers_same: "rm_participants r' = rm_participants r \<Longrightarrow> rm_lobby r' = rm_lobby r \<Longrightarrow> no_newcomers r r'"
  by (simp add: no_newcomers_def)

lemma sanction_covers_keeps:
  assumes "sanction_covers pub r" and "no_newcomers r r'"
  shows "sanction_covers pub r'"
  unfolding sanction_covers_def Let_def
proof (intro conjI allI impI)
  fix i p' assume "tget (rm_participants r') i = Some p'"
  from no_newcomersD(1) [OF assms(2) this] obtain p where
    "tget (rm_participants r) i = Some p" "pt_authenticated p' = pt_authenticated p" "pt_ip p' = pt_ip p" by blast
  then show "(sanction_key_for i (pt_authenticated p') (pt_ip p')
      = sanction_key_for (sp_target pub) (sp_authenticated pub) (sp_ip pub)) = (i \<in> set (sp_participants pub))"
    using assms(1) by (simp add: sanction_covers_def Let_def)
next
  fix i e' assume "tget (rm_lobby r') i = Some e'"
  from no_newcomersD(2) [OF assms(2) this] obtain e where
    "tget (rm_lobby r) i = Some e" "le_authenticated e' = le_authenticated e" "le_ip e' = le_ip e" by blast
  then show "(sanction_key_for i (le_authenticated e') (le_ip e')
      = sanction_key_for (sp_target pub) (sp_authenticated pub) (sp_ip pub)) = (i \<in> set (sp_lobby pub))"
    using assms(1) by (simp add: sanction_covers_def Let_def)
qed

lemma removal_covers_keeps:
  assumes "removal_covers pub r" and "no_newcomers r r'"
  shows "removal_covers pub r'"
proof -
  have "tget (rm_participants r) i = None \<Longrightarrow> tget (rm_participants r') i = None"
    and "tget (rm_lobby r) i = None \<Longrightarrow> tget (rm_lobby r') i = None" for i
    using no_newcomersD [OF assms(2)] by (metis not_None_eq)+
  moreover have "\<exists>p. tget (rm_participants r) i = Some p \<and> guest_in_cohort x p"
    if "tget (rm_participants r') i = Some p'" "guest_in_cohort x p'" for i p' x
    using that by (auto simp: guest_in_cohort_def dest!: no_newcomersD(1) [OF assms(2)])
  moreover have "\<exists>e. tget (rm_lobby r) i = Some e \<and> lobby_guest_in_cohort x e"
    if "tget (rm_lobby r') i = Some e'" "lobby_guest_in_cohort x e'" for i e' x
    using that by (auto simp: lobby_guest_in_cohort_def dest!: no_newcomersD(2) [OF assms(2)])
  ultimately show ?thesis using assms(1) unfolding removal_covers_def by meson
qed

section \<open>Cohorts\<close>

lemma sanction_key_for_eq:
  "sanction_key_for i a ip = sanction_key_for j b iq \<longleftrightarrow>
     a = b \<and> (if a then i = j else (case (ip, iq) of (Some x, Some y) \<Rightarrow> cohort x = cohort y
        | (None, None) \<Rightarrow> i = j | _ \<Rightarrow> False))"
  by (auto simp: sanction_key_for_def split: option.splits)

lemma moderation_cohort_ids:
  assumes "tget (rm_participants r) target = Some t" and "moderation_cohort r target role = Inr ids"
  shows "set ids = set (cohort_ids r target t)"
    and "i \<in> set ids \<Longrightarrow> \<exists>p. tget (rm_participants r) i = Some p \<and> can_moderate role (pt_role p)"
proof -
  show set: "set ids = set (cohort_ids r target t)"
    using assms by (auto simp: moderation_cohort_def Let_def split: if_splits)
  have "\<not> list_ex (\<lambda>i. case tget (rm_participants r) i of None \<Rightarrow> True | Some p \<Rightarrow> \<not> can_moderate role (pt_role p))
      (cohort_ids r target t)"
    using assms by (simp add: moderation_cohort_def Let_def split: if_splits)
  then show "i \<in> set ids \<Longrightarrow> \<exists>p. tget (rm_participants r) i = Some p \<and> can_moderate role (pt_role p)"
    unfolding set list_ex_iff by (cases "tget (rm_participants r) i") auto
qed

lemma guest_ip_lobby_cohort_ids:
  assumes "guest_ip_lobby_cohort r a ip role = Inr ids"
  shows "i \<in> set ids \<longleftrightarrow> (\<exists>x e. \<not> a \<and> ip = Some x \<and> (i, e) \<in> set (rm_lobby r) \<and> lobby_guest_in_cohort (cohort x) e)"
    and "i \<in> set ids \<Longrightarrow> \<exists>e. tget (rm_lobby r) i = Some e \<and> can_moderate role (le_role e)"
proof -
  show set: "i \<in> set ids \<longleftrightarrow> (\<exists>x e. \<not> a \<and> ip = Some x \<and> (i, e) \<in> set (rm_lobby r) \<and> lobby_guest_in_cohort (cohort x) e)" for i
    using assms by (auto simp: guest_ip_lobby_cohort_def Let_def image_iff split: if_splits option.splits)
  assume "i \<in> set ids"
  then obtain x where x: "\<not> a" "ip = Some x" unfolding set by blast
  have "\<not> list_ex (\<lambda>i. case tget (rm_lobby r) i of None \<Rightarrow> True | Some e \<Rightarrow> \<not> can_moderate role (le_role e)) ids"
    using assms x by (auto simp: guest_ip_lobby_cohort_def Let_def list_ex_iff split: if_splits)
  with \<open>i \<in> set ids\<close> show "\<exists>e. tget (rm_lobby r) i = Some e \<and> can_moderate role (le_role e)"
    unfolding list_ex_iff by (cases "tget (rm_lobby r) i") auto
qed

lemma cohort_members:
  assumes wf: "room_wf r" and t: "tget (rm_participants r) target = Some t"
    and ids: "moderation_cohort r target role = Inr ids" and p: "tget (rm_participants r) i = Some p"
  shows "sanction_key_for i (pt_authenticated p) (pt_ip p) = sanction_key_for target (pt_authenticated t) (pt_ip t)
     \<longleftrightarrow> i \<in> set ids"
proof -
  note mem = map_of_in_set [OF room_wfD(1) [OF wf]]
  show ?thesis
    unfolding moderation_cohort_ids(1) [OF t ids]
    using t p by (cases "pt_ip t"; cases "pt_ip p") (auto simp: sanction_key_for_eq cohort_ids_def guest_in_cohort_def mem image_iff)
qed

lemma cohort_waiting:
  assumes wf: "room_wf r" and t: "tget (rm_participants r) target = Some t"
    and ids: "guest_ip_lobby_cohort r (pt_authenticated t) (pt_ip t) role = Inr ids"
    and e: "tget (rm_lobby r) i = Some e"
  shows "sanction_key_for i (le_authenticated e) (le_ip e) = sanction_key_for target (pt_authenticated t) (pt_ip t)
     \<longleftrightarrow> i \<in> set ids"
proof -
  note mem = map_of_in_set [OF room_wfD(2) [OF wf]]
  have "i \<noteq> target" using room_wf_waiting [OF wf e] t by auto
  then show ?thesis
    unfolding guest_ip_lobby_cohort_ids(1) [OF ids] mem
    using e by (cases "pt_ip t"; cases "le_ip e") (auto simp: sanction_key_for_eq lobby_guest_in_cohort_def)
qed

lemma sanction_covers_planned:
  assumes "room_wf r" and "tget (rm_participants r) target = Some t"
    and "moderation_cohort r target role = Inr ids"
    and "guest_ip_lobby_cohort r (pt_authenticated t) (pt_ip t) role = Inr lids"
    and "sp_target pub = target" "sp_participants pub = ids" "sp_lobby pub = lids"
    "sp_authenticated pub = pt_authenticated t" "sp_ip pub = pt_ip t"
  shows "sanction_covers pub r"
  unfolding sanction_covers_def Let_def assms(5-9)
  using cohort_members [OF assms(1-3)] cohort_waiting [OF assms(1,2,4)] by blast

lemma removal_covers_planned:
  assumes wf: "room_wf r" and t: "tget (rm_participants r) target = Some t"
    and ids: "moderation_cohort r target role = Inr ids"
    and lids: "guest_ip_lobby_cohort r (pt_authenticated t) (pt_ip t) role = Inr lids"
    and pub: "rp_participants pub = ids" "rp_lobby pub = lids" "rp_authenticated pub = pt_authenticated t" "rp_ip pub = pt_ip t"
  shows "removal_covers pub r"
proof -
  have "tget (rm_lobby r) i = None" if "i \<in> set ids" for i
    using moderation_cohort_ids(2) [OF t ids that] room_wf_member [OF wf] by blast
  moreover have "tget (rm_participants r) i = None" if "i \<in> set lids" for i
    using guest_ip_lobby_cohort_ids(2) [OF lids that] room_wf_waiting [OF wf] by blast
  moreover have "i \<in> set ids"
    if "\<not> pt_authenticated t" "pt_ip t = Some ip" "tget (rm_participants r) i = Some p" "guest_in_cohort (cohort ip) p" for i p ip
    using that cohort_members [OF wf t ids that(3)] by (cases "pt_ip p") (auto simp: sanction_key_for_eq guest_in_cohort_def)
  moreover have "i \<in> set lids"
    if "\<not> pt_authenticated t" "pt_ip t = Some ip" "tget (rm_lobby r) i = Some e" "lobby_guest_in_cohort (cohort ip) e" for i e ip
    using that cohort_waiting [OF wf t lids that(3)] by (cases "le_ip e") (auto simp: sanction_key_for_eq lobby_guest_in_cohort_def)
  ultimately show ?thesis unfolding removal_covers_def pub by blast
qed

section \<open>The parts the operations share\<close>

lemma reserve_admin_safe: "reserve_admin now r = (ok, r') \<Longrightarrow> room_safe r' = room_safe r"
  by (auto simp: reserve_admin_def split: prod.splits)

lemma reserve_admin_keeps:
  "reserve_admin now r = (ok, r') \<Longrightarrow>
     rm_participants r' = rm_participants r \<and> rm_lobby r' = rm_lobby r \<and> rm_persisted r' = rm_persisted r
     \<and> rm_social r' = rm_social r \<and> rm_deleting r' = rm_deleting r
     \<and> rm_banned_participants r' = rm_banned_participants r \<and> rm_banned_guest_ips r' = rm_banned_guest_ips r
     \<and> rm_sanctions r' = rm_sanctions r \<and> rm_producer_to_participant r' = rm_producer_to_participant r
     \<and> rm_settings r' = rm_settings r \<and> rm_broadcaster_ceiling r' = rm_broadcaster_ceiling r"
  by (auto simp: reserve_admin_def split: prod.splits)

lemma attempt_cases [case_names Fails Runs, consumes 1]:
  assumes "attempt res r k = out"
  obtains e where "res = Inl e" "out = (Inl e, r, [])" | v where "res = Inr v" "k v = out"
  using assms by (cases res) (auto simp: attempt_def)

lemma save_for_identity_safe:
  assumes "room_safe r" and "save_for_identity env none auth i a ip report r = (res, r', sent)"
  shows "room_safe r'"
  using assms persist_room_safe [OF assms(1)]
  by (auto simp: save_for_identity_def split: if_splits sum.splits prod.splits)

lemma save_for_identity_done:
  "save_for_identity env none auth i a ip report r = (Inr u, r', sent) \<Longrightarrow>
     r' = r \<and> sent = [] \<and> ce_write env = Some (Inr ()) \<and> ce_pool env \<and> auth"
  by (auto simp: save_for_identity_def split: if_splits sum.splits prod.splits dest: persist_room_keeps)

section \<open>Sanctions\<close>

lemma plan_sanction_steps:
  assumes "plan_sanction env m c t kind enabled reason r = (res, r', sent)"
  shows "r' = r \<or> (\<exists>ok. reserve_admin (ce_now env) r = (ok, r'))"
    and "res = Inr (Some plan) \<Longrightarrow> \<exists>md target ids lids.
      participant_for_sender r m c = Inr md \<and> tget (rm_participants r) t = Some target
      \<and> moderation_cohort r t (pt_role md) = Inr ids
      \<and> guest_ip_lobby_cohort r (pt_authenticated target) (pt_ip target) (pt_role md) = Inr lids
      \<and> sq_publication plan = \<lparr>sp_target = t, sp_participants = ids, sp_lobby = lids,
          sp_authenticated = pt_authenticated target, sp_ip = pt_ip target, sp_kind = kind, sp_enabled = enabled\<rparr>
      \<and> sq_persisted plan = rm_persisted r"
  using assms unfolding plan_sanction_def attempt_def Let_def
  by (auto split: sum.splits option.splits if_splits prod.splits dest: reserve_admin_keeps)

lemma plan_sanction_safe:
  assumes "room_safe r" and "plan_sanction env m c t kind enabled reason r = (res, r', sent)"
  shows "room_safe r'" "no_newcomers r r'" "res = Inr (Some plan) \<Longrightarrow> sanction_covers (sq_publication plan) r'"
proof -
  note st = plan_sanction_steps [OF assms(2)]
  from st(1) show safe: "room_safe r'" using assms(1) reserve_admin_safe by blast
  show nn: "no_newcomers r r'" using st(1) reserve_admin_keeps no_newcomers_same no_newcomers_refl by metis
  assume "res = Inr (Some plan)"
  from st(2) [OF this] have "sanction_covers (sq_publication plan) r"
    by (auto intro!: sanction_covers_planned [OF room_safe_wf [OF assms(1)]])
  then show "sanction_covers (sq_publication plan) r'" using nn by (rule sanction_covers_keeps)
qed

lemma save_sanction_done: "save_sanction env plan r = (Inr u, r', sent) \<Longrightarrow> r' = r \<and> sent = []"
  by (auto simp: save_sanction_def dest: save_for_identity_done split: if_splits)

lemma finish_sanction_safe:
  assumes "room_safe r" and "sanction_covers (sq_publication plan) r" and "finish_sanction env plan r = (res, r', sent)"
  shows "room_safe r'"
proof -
  obtain a q s where a: "save_sanction env plan r = (a, q, s)" by (cases rule: prod_cases3)
  have q: "room_safe q"
    using a assms(1) save_for_identity_safe by (auto simp: save_sanction_def split: if_splits)
  show ?thesis
  proof (cases a)
    case (Inl e)
    then show ?thesis using assms(3) a q by (auto simp: finish_sanction_def)
  next
    case (Inr u)
    then have [simp]: "q = r" using save_sanction_done a by blast
    define r1 where "r1 = (if sq_persisted plan then r
      else r\<lparr>rm_social := record_moderation_event (sq_event plan) (rm_social r)\<rparr>)"
    obtain vs r2 s2 where r2: "publish_sanction (ce_closed env) (sq_publication plan) r1 = (vs, r2, s2)"
      by (cases rule: prod_cases3)
    have "room_safe r1" using assms(1) room_wfD(5) [OF room_safe_wf [OF assms(1)]]
      by (simp add: r1_def room_safe_social)
    moreover have "sanction_covers (sq_publication plan) r1"
      using assms(2) by (simp add: r1_def sanction_covers_def)
    ultimately have "room_safe r2" using r2 by (rule publish_sanction_safe)
    moreover have "r' = r \<or> r' = r2"
      using assms(3) a Inr r2
      by (auto simp: finish_sanction_def publish_planned_sanction_def attempt_def r1_def Let_def split: sum.splits)
    ultimately show ?thesis using assms(1) by blast
  qed
qed

section \<open>Removals\<close>

lemma social_wf_reports_bans [simp]:
  "social_wf (s\<lparr>so_reports := x\<rparr>) = social_wf s" "social_wf (s\<lparr>so_bans := y\<rparr>) = social_wf s"
  by (simp_all add: social_wf_def history_wf_def receipts_wf_def)

lemma keep_decision_room:
  "keep_decision wall plan r = (res, r', sent) \<Longrightarrow> \<exists>s. r' = r\<lparr>rm_social := s\<rparr> \<and> (social_wf (rm_social r) \<longrightarrow> social_wf s)"
  by (auto simp: keep_decision_def link_report_def split: option.splits sum.splits prod.splits intro!: exI)

lemma keep_decision_safe:
  assumes "room_safe r" and "keep_decision wall plan r = (res, r', sent)"
  shows "room_safe r'" "rm_participants r' = rm_participants r" "rm_lobby r' = rm_lobby r"
  using keep_decision_room [OF assms(2)] assms(1) room_wfD(5) [OF room_safe_wf [OF assms(1)]]
  by (auto intro: room_safe_social)

lemma plan_kick_safe:
  assumes "room_safe r" and "plan_kick env m c t reason report r = (res, r', sent)"
  shows "room_safe r'" "no_newcomers r r'" "res = Inr plan \<Longrightarrow> \<not> rp_ban (rq_publication plan)"
proof -
  have "r' = r \<or> (\<exists>ok. reserve_admin (ce_now env) r = (ok, r'))" and ban: "res = Inr plan \<Longrightarrow> \<not> rp_ban (rq_publication plan)"
    using assms(2) unfolding plan_kick_def attempt_def Let_def
    by (auto split: sum.splits option.splits if_splits prod.splits)
  then show "room_safe r'" "no_newcomers r r'" "res = Inr plan \<Longrightarrow> \<not> rp_ban (rq_publication plan)"
    using assms(1) reserve_admin_safe reserve_admin_keeps no_newcomers_same no_newcomers_refl by metis+
qed

lemma finish_kick_safe:
  assumes "room_safe r" and "\<not> rp_ban (rq_publication plan)" and "finish_kick env plan r = (res, r', sent)"
  shows "room_safe r'"
proof -
  obtain a q s where a: "record_kick env plan r = (a, q, s)" by (cases rule: prod_cases3)
  have q: "room_safe q"
    using a persist_room_safe [OF assms(1)] keep_decision_safe(1) [OF assms(1)] assms(1)
    by (auto simp: record_kick_def attempt_def split: if_splits sum.splits prod.splits)
  obtain ss r2 s2 where r2: "publish_removal (ce_closed env) (ce_ban_id env) (ce_later env) (ce_wall env) (rq_publication plan) q = (ss, r2, s2)"
    by (cases rule: prod_cases3)
  have "room_safe r2" by (rule publish_removal_safe [OF q _ r2]) (simp add: assms(2))
  then show ?thesis using assms(3) a r2 q by (auto simp: finish_kick_def split: sum.splits list.splits)
qed

lemma plan_ban_steps:
  assumes "plan_ban env m c t reason duration report r = (res, r', sent)"
  shows "r' = r \<or> r' = r\<lparr>rm_social := snd (reserve_ban (ce_now env) (rm_social r))\<rparr>
      \<or> (\<exists>ok. reserve_admin (ce_now env) (r\<lparr>rm_social := snd (reserve_ban (ce_now env) (rm_social r))\<rparr>) = (ok, r'))"
    and "res = Inr plan \<Longrightarrow> \<exists>md target ids lids.
      participant_for_sender r m c = Inr md \<and> tget (rm_participants r) t = Some target
      \<and> moderation_cohort r t (pt_role md) = Inr ids
      \<and> guest_ip_lobby_cohort r (pt_authenticated target) (pt_ip target) (pt_role md) = Inr lids
      \<and> rq_publication plan = \<lparr>rp_ban = True, rp_participants = ids, rp_lobby = lids,
          rp_authenticated = pt_authenticated target, rp_ip = pt_ip target, rp_name = pt_name target,
          rp_reason = reason, rp_duration_seconds = duration\<rparr>"
  using assms unfolding plan_ban_def attempt_def Let_def
  by (auto split: sum.splits option.splits if_splits prod.splits)

lemma plan_ban_safe:
  assumes "room_safe r" and "plan_ban env m c t reason duration report r = (res, r', sent)"
  shows "room_safe r'" "no_newcomers r r'" "res = Inr plan \<Longrightarrow> removal_covers (rq_publication plan) r'"
proof -
  note st = plan_ban_steps [OF assms(2)]
  let ?q = "r\<lparr>rm_social := snd (reserve_ban (ce_now env) (rm_social r))\<rparr>"
  have q: "room_safe ?q"
    using room_wfD(5) [OF room_safe_wf [OF assms(1)]]
    by (intro room_safe_social [OF assms(1)]) (simp add: reserve_ban_def Let_def)
  from st(1) show "room_safe r'" using assms(1) q reserve_admin_safe by blast
  have "rm_participants r' = rm_participants r \<and> rm_lobby r' = rm_lobby r"
    using st(1) by (auto dest: reserve_admin_keeps)
  then show nn: "no_newcomers r r'" by (simp add: no_newcomers_same)
  assume "res = Inr plan"
  from st(2) [OF this] have "removal_covers (rq_publication plan) r"
    by (auto intro!: removal_covers_planned [OF room_safe_wf [OF assms(1)]])
  then show "removal_covers (rq_publication plan) r'" using nn by (rule removal_covers_keeps)
qed

lemma save_ban_done: "save_ban env plan r = (Inr u, r', sent) \<Longrightarrow> r' = r \<and> sent = []"
  by (auto simp: save_ban_def dest: save_for_identity_done split: if_splits)

lemma finish_ban_safe:
  assumes "room_safe r" and "removal_covers (rq_publication plan) r" and "finish_ban env plan r = (res, r', sent)"
  shows "room_safe r'"
proof -
  obtain a q s where a: "save_ban env plan r = (a, q, s)" by (cases rule: prod_cases3)
  have q: "room_safe q"
    using a assms(1) save_for_identity_safe by (auto simp: save_ban_def split: if_splits)
  show ?thesis
  proof (cases a)
    case (Inl e)
    then show ?thesis using assms(3) a q by (auto simp: finish_ban_def)
  next
    case (Inr u)
    then have [simp]: "q = r" using save_ban_done a by blast
    obtain d r1 s1 where d: "(if rq_persisted plan then (Inr (), r, []) else keep_decision (ce_wall env) plan r) = (d, r1, s1)"
      by (cases rule: prod_cases3)
    have r1: "room_safe r1" "rm_participants r1 = rm_participants r" "rm_lobby r1 = rm_lobby r"
      using d assms(1) keep_decision_safe [OF assms(1)] by (auto split: if_splits)
    then have covers: "removal_covers (rq_publication plan) r1" using assms(2) by (simp add: removal_covers_def)
    obtain ss r2 s2 where r2: "publish_removal (ce_closed env) (ce_ban_id env) (ce_later env) (ce_wall env) (rq_publication plan) r1 = (ss, r2, s2)"
      by (cases rule: prod_cases3)
    have "room_safe r2" using r1(1) covers r2 by (rule publish_removal_safe)
    moreover have "r' = r \<or> r' = r1 \<or> r' = r2"
      using assms(3) a Inr r2 d
      by (auto simp: finish_ban_def publish_planned_ban_def attempt_def split: sum.splits prod.splits)
    ultimately show ?thesis using assms(1) r1(1) by blast
  qed
qed

section \<open>Lifted bans and roles\<close>

lemma prune_expired_bans_safe [wf_intros]: "room_safe r \<Longrightarrow> room_safe (prune_expired_bans now r)"
  by (rule room_safe_fewer [of r])
    (auto simp: prune_expired_bans_def Let_def room_safe_wf room_wf_bans room_wfD [OF room_safe_wf]
      stored_sanction_def contains_key_def map_of_retain_Some map_of_retain split: option.splits if_splits
      intro!: room_wf_bans)

lemma plan_unban_safe:
  assumes "room_safe r" and "plan_unban env m c t r = (res, r', sent)"
  shows "room_safe r'" "no_newcomers r r'"
proof -
  let ?q = "prune_expired_bans (ce_now env) r"
  have st: "r' = r \<or> r' = ?q \<or> (\<exists>ok. reserve_admin (ce_now env) ?q = (ok, r'))"
    using assms(2) unfolding plan_unban_def attempt_def Let_def
    by (auto split: sum.splits option.splits if_splits prod.splits)
  then show "room_safe r'" using assms(1) prune_expired_bans_safe reserve_admin_safe by blast
  have "rm_participants r' = rm_participants r \<and> rm_lobby r' = rm_lobby r"
    using st by (auto dest!: reserve_admin_keeps simp: prune_expired_bans_def Let_def)
  then show "no_newcomers r r'" by (simp add: no_newcomers_same)
qed

lemma finish_unban_safe:
  assumes "room_safe r" and "finish_unban env m t plan r = (res, r', sent)"
  shows "room_safe r'"
proof -
  obtain a q s where a: "save_unban env (snd plan) r = (a, q, s)" by (cases rule: prod_cases3)
  have q: "room_safe q"
    using a assms(1) persist_room_safe [OF assms(1)] by (auto simp: save_unban_def split: if_splits sum.splits prod.splits)
  let ?q = "q\<lparr>rm_banned_participants := tdel t (rm_banned_participants q)\<rparr>"
  have q1: "room_safe ?q"
    by (rule room_safe_fewer [OF q]) (auto simp: stored_sanction_def room_wfD [OF room_safe_wf [OF q]] room_safe_wf [OF q]
        intro!: room_wf_bans)
  have s: "social_wf (snd (forget_user_ban t (rm_social q)))"
    using room_wfD(5) [OF room_safe_wf [OF q]] by (simp add: forget_user_ban_def Let_def)
  have "r' = q \<or> r' = ?q \<or> (\<exists>s. r' = ?q\<lparr>rm_social := s\<rparr> \<and> social_wf s)"
    using assms(2) a s
    by (auto simp: finish_unban_def publish_planned_unban_def attempt_def Let_def split: sum.splits if_splits prod.splits)
  then show ?thesis using q q1 room_safe_social by blast
qed

lemma plan_role_safe:
  assumes "room_safe r" and "plan_role env m c t new_role r = (res, r', sent)"
  shows "room_safe r'" "no_newcomers r r'"
proof -
  have "r' = r \<or> (\<exists>ok. reserve_admin (ce_now env) r = (ok, r'))"
    using assms(2) unfolding plan_role_def attempt_def Let_def
    by (auto split: sum.splits option.splits if_splits prod.splits)
  then show "room_safe r'" "no_newcomers r r'"
    using assms(1) reserve_admin_safe reserve_admin_keeps no_newcomers_same no_newcomers_refl by metis+
qed

lemma finish_role_safe:
  assumes "room_safe r" and "finish_role env m t new_role plan r = (res, r', sent)"
  shows "room_safe r'"
proof -
  obtain a q s where a: "save_role env plan r = (a, q, s)" by (cases rule: prod_cases3)
  have q: "room_safe q"
    using a assms(1) persist_room_safe [OF assms(1)] by (auto simp: save_role_def split: if_splits sum.splits prod.splits)
  obtain vs r2 s2 where r2: "publish_role (ce_closed env) t new_role m q = (vs, r2, s2)" by (cases rule: prod_cases3)
  from publish_role_safe [OF q r2] have "room_safe r2" .
  then show ?thesis using q assms(2) a r2
    by (auto simp: finish_role_def publish_planned_role_def attempt_def split: sum.splits)
qed

end
