(* ===== verification/Membership_Safety.thy ===== *)
theory Membership_Safety
  imports Membership Moderation_Safety
begin

text \<open>
  What joining and leaving keep of the room's invariant, and what a successful join implies: it
  was not banned, the room had space, the policy it read is the policy it is admitted under, and
  every sanction recorded for its identity binds it again.
\<close>

section \<open>One more person\<close>

lemma room_safe_admit:
  assumes safe: "room_safe r" and wf: "room_wf r'"
    and here: "present r' = (present r)(i \<mapsto> (a, ip, s))"
    and bans: "rm_banned_participants r' = rm_banned_participants r" "rm_banned_guest_ips r' = rm_banned_guest_ips r"
    and free: "\<not> identity_is_banned r i a ip"
    and kept: "\<And>key kind. stored_sanction r key kind \<Longrightarrow> stored_sanction r' key kind"
    and own: "\<And>kind. punitive_value s kind \<Longrightarrow> stored_sanction r' (sanction_key_for i a ip) kind"
  shows "room_safe r'"
proof -
  have "identity_is_banned r' = identity_is_banned r" by (simp add: identity_is_banned_def fun_eq_iff bans)
  then have "ban_safe r'" using safe free by (simp add: room_safe_def ban_safe_def here)
  moreover have "sanctions_recorded r'"
    using safe kept own by (auto simp: room_safe_def sanctions_recorded_def here)
  ultimately show ?thesis using wf by (simp add: room_safe_def)
qed

lemma complete_locked_frame [simp]:
  "room_safe (complete_locked r) = room_safe r" "present (complete_locked r) = present r"
  "rm_participants (complete_locked r) = rm_participants r" "rm_lobby (complete_locked r) = rm_lobby r"
  "rm_sanctions (complete_locked r) = rm_sanctions r" "rm_settings (complete_locked r) = rm_settings r"
  "rm_banned_participants (complete_locked r) = rm_banned_participants r"
  "rm_banned_guest_ips (complete_locked r) = rm_banned_guest_ips r" "rm_deleting (complete_locked r) = rm_deleting r"
  by (simp_all add: complete_locked_def)

text \<open>The table of sanctions after a join: what was stored, and what the joiner carries.\<close>

definition with_sanction :: "sanction_key \<Rightarrow> punitive_state \<Rightarrow> room \<Rightarrow> room" where
  "with_sanction key punitive r =
     (if punitive \<noteq> punitive_default then r\<lparr>rm_sanctions := tput key punitive (rm_sanctions r)\<rparr> else r)"

lemma with_sanction_frame [simp]:
  "present (with_sanction key s r) = present r" "rm_participants (with_sanction key s r) = rm_participants r"
  "rm_lobby (with_sanction key s r) = rm_lobby r" "rm_settings (with_sanction key s r) = rm_settings r"
  "rm_banned_participants (with_sanction key s r) = rm_banned_participants r"
  "rm_banned_guest_ips (with_sanction key s r) = rm_banned_guest_ips r"
  "room_wf r \<Longrightarrow> room_wf (with_sanction key s r)"
  by (auto simp: with_sanction_def room_wf_sanctions room_wfD)

lemma with_sanction_stored:
  assumes "s = merge_punitive_state g (tget (rm_sanctions r) key)"
  shows "stored_sanction r k kind \<Longrightarrow> stored_sanction (with_sanction key s r) k kind"
    and "punitive_value s kind \<Longrightarrow> stored_sanction (with_sanction key s r) key kind"
    and "stored_sanction r key kind \<Longrightarrow> punitive_value s kind"
    and "punitive_value g kind \<Longrightarrow> punitive_value s kind"
proof -
  have default: "\<not> punitive_value punitive_default kind" by (cases kind) (simp_all add: punitive_default_def)
  show "punitive_value s kind \<Longrightarrow> stored_sanction (with_sanction key s r) key kind"
    using default by (auto simp: with_sanction_def stored_sanction_def is_some_and_def)
  show "stored_sanction r key kind \<Longrightarrow> punitive_value s kind" "punitive_value g kind \<Longrightarrow> punitive_value s kind"
    using assms by (auto simp: merge_punitive_value stored_sanction_def is_some_and_def split: option.splits)
  then show "stored_sanction r k kind \<Longrightarrow> stored_sanction (with_sanction key s r) k kind"
    using default by (cases "k = key") (auto simp: with_sanction_def stored_sanction_def is_some_and_def)
qed

section \<open>The commit of a join\<close>

lemma join_refusal_passed:
  assumes "join_refusal env req r = Inr u"
  shows "\<not> identity_is_banned r (jq_participant_id req) (jq_authenticated req) (jq_client_ip req)"
    and "tget (rm_participants r) (jq_participant_id req) = None" and "tget (rm_lobby r) (jq_participant_id req) = None"
    and "setting r rs_require_registration \<Longrightarrow> jq_authenticated req"
    and "setting r (\<lambda>s. \<not> rs_guests_allowed s) \<Longrightarrow> jq_authenticated req"
    and "ensure_room_has_space (je_max_participants env) r = Inr ()" and "length (rm_lobby r) < 1000"
  using assms by (auto simp: join_refusal_def Let_def contains_key_def split: if_splits sum.splits)

text \<open>The ways a commit ends.\<close>

lemma join_commit_cases:
  assumes "join_commit env req snap grant pf r = Some (res, r', sent)"
  obtains (Refused) e where "res = Inl e" "r' = r \<or> r' = prune_expired_bans (je_now env) r"
  | (Admitted) q key s name role where "q = prune_expired_bans (je_now env) r"
      "policy_snapshot_matches r (js_policy_revision snap)" "join_refusal env req q = Inr ()"
      "unique_participant_name (je_icu env) q (jq_name req) = Some name"
      "select_join_role (js_persisted snap) (room_is_empty q) (jg_role grant) (jq_authenticated req) = Some role"
      "key = sanction_key_for (jq_participant_id req) (jq_authenticated req) (jq_client_ip req)"
      "s = merge_punitive_state (jg_punitive grant) (tget (rm_sanctions q) key)"
      "(res, r', sent) = (if (js_invite_only snap \<and> role < Member) \<or> (js_lobby_enabled snap \<and> \<not> room_is_empty q \<and> role < Moderator)
         then enter_lobby env req grant name role s (with_sanction key s q)
         else enter_room env req pf grant name role s (with_sanction key s q))"
proof -
  let ?q = "prune_expired_bans (je_now env) r"
  show thesis
  proof (cases "je_draining env \<or> \<not> policy_snapshot_matches r (js_policy_revision snap)")
    case True
    then show thesis using assms that(1) by (auto simp: join_commit_def split: if_splits)
  next
    case False
    show thesis
    proof (cases "join_refusal env req ?q")
      case (Inl e)
      then show thesis using False assms that(1) by (auto simp: join_commit_def Let_def)
    next
      case (Inr u)
      obtain name where name: "unique_participant_name (je_icu env) ?q (jq_name req) = Some name"
        using False assms Inr by (auto simp: join_commit_def Let_def split: option.splits)
      show thesis
      proof (cases "select_join_role (js_persisted snap) (room_is_empty ?q) (jg_role grant) (jq_authenticated req)")
        case None
        then show thesis using False assms Inr name that(1)
          by (auto simp: join_commit_def Let_def room_is_empty_def no_access_def)
      next
        case (Some role)
        show thesis
          by (rule that(2) [OF refl _ _ name Some refl refl])
            (use False assms Inr name Some in \<open>auto simp: join_commit_def Let_def room_is_empty_def with_sanction_def\<close>)
      qed
    qed
  qed
qed

lemma enter_lobby_safe:
  assumes safe: "room_safe q" and ok: "join_refusal env req q = Inr ()"
    and key: "key = sanction_key_for (jq_participant_id req) (jq_authenticated req) (jq_client_ip req)"
    and s: "s = merge_punitive_state g (tget (rm_sanctions q) key)"
    and r': "enter_lobby env req grant name role s (with_sanction key s q) = (res, r', sent)"
  shows "room_safe r'" and "present r' = (present q)(jq_participant_id req \<mapsto> (jq_authenticated req, jq_client_ip req, s))"
proof -
  note free = join_refusal_passed [OF ok]
  obtain entry where entry: "r' = complete_locked ((with_sanction key s q)\<lparr>rm_lobby := tput (jq_participant_id req) entry (rm_lobby q)\<rparr>)"
      "le_participant_id entry = jq_participant_id req" "le_authenticated entry = jq_authenticated req"
      "le_ip entry = jq_client_ip req" "le_punitive entry = s"
    using r' by (auto simp: enter_lobby_def Let_def split: prod.splits)
  show here: "present r' = (present q)(jq_participant_id req \<mapsto> (jq_authenticated req, jq_client_ip req, s))"
    using free(2) by (auto simp: entry present_def fun_eq_iff split: option.splits)
  have "room_wf (with_sanction key s q)" using room_safe_wf [OF safe] by simp
  then have wf: "room_wf ((with_sanction key s q)\<lparr>rm_lobby := tput (jq_participant_id req) entry (rm_lobby (with_sanction key s q))\<rparr>)"
    by (rule room_wf_add_waiting) (simp_all add: free(2) entry(2))
  have st: "stored_sanction r' = stored_sanction (with_sanction key s q)"
    by (simp add: fun_eq_iff stored_sanction_def entry(1))
  show "room_safe r'"
    using with_sanction_stored [OF s] wf free(1) key
    by (intro room_safe_admit [OF safe _ here]) (simp_all add: st, simp_all add: entry(1) complete_locked_def)
qed

lemma enter_room_safe:
  assumes safe: "room_safe q" and ok: "join_refusal env req q = Inr ()"
    and key: "key = sanction_key_for (jq_participant_id req) (jq_authenticated req) (jq_client_ip req)"
    and s: "s = merge_punitive_state g (tget (rm_sanctions q) key)"
    and r': "enter_room env req pf grant name role s (with_sanction key s q) = (res, r', sent)"
  shows "room_safe r'" and "present r' = (present q)(jq_participant_id req \<mapsto> (jq_authenticated req, jq_client_ip req, s))"
    and "length (rm_participants r') = Suc (length (rm_participants q))"
proof -
  note free = join_refusal_passed [OF ok]
  obtain member where m: "r' = complete_locked ((with_sanction key s q)\<lparr>rm_participants := tput (jq_participant_id req) member (rm_participants q)\<rparr>)"
      "pt_id member = jq_participant_id req" "pt_authenticated member = jq_authenticated req"
      "pt_ip member = jq_client_ip req" "pt_punitive member = s" "pt_producers member = []"
    using r' by (auto simp: enter_room_def Let_def)
  show here: "present r' = (present q)(jq_participant_id req \<mapsto> (jq_authenticated req, jq_client_ip req, s))"
    by (auto simp: m present_def fun_eq_iff split: option.splits)
  show "length (rm_participants r') = Suc (length (rm_participants q))"
    using free(2) by (simp add: m(1) length_tput contains_key_def)
  have "room_wf (with_sanction key s q)" using room_safe_wf [OF safe] by simp
  then have wf: "room_wf ((with_sanction key s q)\<lparr>rm_participants := tput (jq_participant_id req) member (rm_participants (with_sanction key s q))\<rparr>)"
    by (rule room_wf_add_member) (simp_all add: free(2,3) m(2,6))
  have st: "stored_sanction r' = stored_sanction (with_sanction key s q)"
    by (simp add: fun_eq_iff stored_sanction_def m(1))
  show "room_safe r'"
    using with_sanction_stored [OF s] wf free(1) key
    by (intro room_safe_admit [OF safe _ here]) (simp_all add: st, simp_all add: m(1) complete_locked_def)
qed

lemma join_commit_safe:
  assumes "room_safe r" and "join_commit env req snap grant pf r = Some (res, r', sent)"
  shows "room_safe r'"
  using assms(2)
proof (cases rule: join_commit_cases)
  case (Refused e)
  then show ?thesis using assms(1) prune_expired_bans_safe by blast
next
  case (Admitted q key s name role)
  have "room_safe q" using assms(1) prune_expired_bans_safe Admitted(1) by blast
  then show ?thesis
    using enter_lobby_safe(1) [OF _ Admitted(3,6,7)] enter_room_safe(1) [OF _ Admitted(3,6,7)] Admitted(8)
    by (metis (full_types))
qed

section \<open>Leaving\<close>

lemma remove_participant_inner_safe:
  assumes "room_safe r" and "remove_participant_inner closed i c r = (d, r', sent)"
  shows "room_safe r'" "no_newcomers r r'"
proof -
  let ?q = "r\<lparr>rm_lobby := tdel i (rm_lobby r)\<rparr>"
  note wf = room_safe_wf [OF assms(1)]
  have wfq: "room_wf ?q" by (rule room_wf_remove_waiting [OF wf])
  have "r' = r \<or> r' = ?q \<or> r' = forget_member i ?q"
    using assms(2) by (auto simp: remove_participant_inner_def Let_def split: if_splits option.splits)
  moreover have "room_safe ?q"
    by (rule room_safe_fewer [OF assms(1) wfq]) (auto simp: present_remove_waiting [OF wf] stored_sanction_def split: if_splits)
  moreover have "room_safe (forget_member i ?q)"
  proof (rule room_safe_fewer [OF assms(1) room_wf_forget_member [OF wfq]])
    show "present (forget_member i ?q) j = Some x \<Longrightarrow> present r j = Some x" for j x
      by (auto simp: present_forget_member [OF wfq] present_remove_waiting [OF wf] split: if_splits)
  qed (auto simp: forget_member_def stored_sanction_def split: option.splits)
  ultimately show "room_safe r'" using assms(1) by blast
  have "no_newcomers r ?q" "no_newcomers r (forget_member i ?q)"
    by (auto simp: no_newcomers_def forget_member_def split: option.splits if_splits)
  then show "no_newcomers r r'" using \<open>r' = r \<or> r' = ?q \<or> r' = forget_member i ?q\<close> no_newcomers_refl by metis
qed

lemma put_member_safe:
  assumes safe: "room_safe r" and p: "tget (rm_participants r) i = Some p"
    and q: "pt_id q = pt_id p" "pt_producers q = pt_producers p" "pt_authenticated q = pt_authenticated p"
      "pt_ip q = pt_ip p" "pt_punitive q = pt_punitive p"
  shows "room_safe (r\<lparr>rm_participants := tput i q (rm_participants r)\<rparr>)"
    and "no_newcomers r (r\<lparr>rm_participants := tput i q (rm_participants r)\<rparr>)"
proof -
  let ?r = "r\<lparr>rm_participants := tput i q (rm_participants r)\<rparr>"
  have "present ?r = present r" using p q by (auto simp: present_def fun_eq_iff split: option.splits)
  then show "room_safe ?r"
    by (intro room_safe_same [OF safe room_wf_put_member [OF room_safe_wf [OF safe] p q(1,2)]]) simp_all
  show "no_newcomers r ?r" using p q by (auto simp: no_newcomers_def)
qed

lemma mark_disconnected_safe:
  assumes "room_safe r" and "mark_disconnected closed i c r = (r', sent)"
  shows "room_safe r'" "no_newcomers r r'"
  using assms put_member_safe [OF assms(1)]
  by (auto simp: mark_disconnected_def Let_def split: option.splits if_splits)

lemma rebind_participant_sender_safe:
  assumes "room_safe r" and "rebind_participant_sender closed draining i subject c c' r = (res, r', sent)"
  shows "room_safe r'" "no_newcomers r r'"
  using assms put_member_safe [OF assms(1)]
  by (auto simp: rebind_participant_sender_def Let_def split: option.splits if_splits sum.splits)

end
