(* ===== verification/Lobby.thy ===== *)
theory Lobby
  imports Membership Moderation_Ops
begin

text \<open>
  Admitting and denying those who wait (\<^verbatim>\<open>src/room/manager/lobby.rs\<close>). An admission reads the
  account's preferences between its two critical sections, holding the control lock throughout;
  \<^verbatim>\<open>authorize\<close> is the caller's last check of its own actor.
\<close>

definition lobby_actor :: "string \<Rightarrow> participant_id \<Rightarrow> chan \<Rightarrow> room \<Rightarrow> unit outcome" where
  "lobby_actor refusal moderator_id expected_sender room =
     (case participant_for_sender room moderator_id expected_sender of
        Inl e \<Rightarrow> Inl e
      | Inr moderator \<Rightarrow> if \<not> can_admit_lobby (pt_role moderator) then Inl (Bail refusal) else Inr ())"

section \<open>Admission\<close>

text \<open>The first critical section: it answers whether the person waiting has an account.\<close>

definition plan_admission :: "(chan \<Rightarrow> bool) \<Rightarrow> instant \<Rightarrow> nat option \<Rightarrow> participant_id \<Rightarrow> room \<Rightarrow> bool reply" where
  "plan_admission closed now max_participants_per_room target_id room =
     attempt (ensure_live room) room (\<lambda>_.
       (case tget (rm_lobby room) target_id of
          None \<Rightarrow> (Inl (Bail ''Participant not found in lobby''), room, [])
        | Some entry \<Rightarrow>
            attempt (ensure_room_has_space max_participants_per_room room) room (\<lambda>_.
              let room1 = prune_expired_bans now room in
              if identity_is_banned room1 target_id (le_authenticated entry) (le_ip entry)
              then (Inl (Bail ''Participant is banned from this room''), room1, [])
              else if closed (le_sender entry)
              then (Inl (Bail ''Participant has already disconnected''), room1, [])
              else (let (ok, room2) = reserve_admin now room1 in
                    if \<not> ok then (Inl (Bail ''Room administration changes are rate limited''), room2, [])
                    else (Inr (le_authenticated entry), room2, [])))))"

text \<open>The second one. A fresh token replaces an empty reconnect token.\<close>

definition commit_admission ::
  "(chan \<Rightarrow> bool) \<Rightarrow> bool \<Rightarrow> uuid \<Rightarrow> string \<Rightarrow> unit outcome \<Rightarrow> chat_preferences option \<Rightarrow> participant_id \<Rightarrow> room \<Rightarrow>
     unit reply" where
  "commit_admission closed draining session fresh_token authorize preferences target_id room =
     attempt authorize room (\<lambda>_.
       if draining then (Inl (Bail ''Server shutting down''), room, [])
       else attempt (ensure_live room) room (\<lambda>_.
         (case tget (rm_lobby room) target_id of
            None \<Rightarrow> (Inl (Bail ''Participant has already disconnected''), room, [])
          | Some entry \<Rightarrow>
              if closed (le_sender entry) then (Inl (Bail ''Participant has already disconnected''), room, [])
              else (let room1 = room\<lparr>rm_lobby := tdel target_id (rm_lobby room)\<rparr>;
                        participants = map participant_info_of (values_of (rm_participants room1));
                        (admitted_role, admitted_punitive) = lobby_admission_state room1 entry;
                        i = le_participant_id entry;
                        member = \<lparr>pt_social = new_member_social session preferences room1, pt_id = i,
                                  pt_name = le_name entry, pt_sender = le_sender entry,
                                  pt_media_session_id = le_media_session_id entry, pt_producers = [],
                                  pt_role = admitted_role, pt_punitive = admitted_punitive,
                                  pt_authenticated = le_authenticated entry, pt_ip = le_ip entry,
                                  pt_chat_style = le_chat_style entry\<rparr>;
                        room2 = room1\<lparr>rm_participants := tput i member (rm_participants room1)\<rparr>;
                        token = (if le_reconnect_token entry = [] then fresh_token else le_reconnect_token entry);
                        sent = [ClearLobbyFlag (le_in_lobby_flag entry), Send (le_sender entry) MsgLobbyAdmitted,
                                Send (le_sender entry) (MsgRoomJoined i participants token admitted_role (le_name entry)
                                  (le_chat_style entry) (rm_settings room2))] in
                    (Inr (), room2,
                     sent @ broadcast_except i (MsgParticipantJoined i (le_name entry) admitted_role
                              (le_authenticated entry) (le_chat_style entry)) room2
                          @ notify_lobby_status closed room2)))))"

record admission_env =
  ae_closed :: "chan \<Rightarrow> bool"
  ae_now :: instant
  ae_max_participants :: "nat option"
  ae_pool :: bool
  ae_preferences :: "(room_error + chat_preferences) option"
  ae_draining :: bool
  ae_session :: uuid
  ae_fresh_token :: string
  ae_others :: "room \<Rightarrow> room"

definition admit_authorized_lobby :: "admission_env \<Rightarrow> unit outcome \<Rightarrow> participant_id \<Rightarrow> room \<Rightarrow> unit reply" where
  "admit_authorized_lobby env authorize target_id room =
     (case plan_admission (ae_closed env) (ae_now env) (ae_max_participants env) target_id room of
        (Inl e, room1, sent) \<Rightarrow> (Inl e, room1, sent)
      | (Inr authenticated, room1, _) \<Rightarrow>
          (case membership_chat_preferences (ae_pool env) (ae_preferences env) authenticated of
             Inl e \<Rightarrow> (Inl e, ae_others env room1, [])
           | Inr preferences \<Rightarrow>
               commit_admission (ae_closed env) (ae_draining env) (ae_session env) (ae_fresh_token env) authorize
                 preferences target_id (ae_others env room1)))"

definition admit_from_lobby ::
  "admission_env \<Rightarrow> participant_id \<Rightarrow> chan \<Rightarrow> participant_id \<Rightarrow> room \<Rightarrow> unit reply" where
  "admit_from_lobby env moderator_id expected_sender target_id room =
     attempt (lobby_actor ''Insufficient permissions to admit from lobby'' moderator_id expected_sender room) room
       (\<lambda>_. admit_authorized_lobby env (Inr ()) target_id room)"

section \<open>Denial\<close>

definition deny_authorized_lobby ::
  "instant \<Rightarrow> unit outcome \<Rightarrow> participant_id \<Rightarrow> string option \<Rightarrow> room \<Rightarrow> unit reply" where
  "deny_authorized_lobby now authorize target_id reason room =
     attempt (ensure_live room) room (\<lambda>_.
     attempt authorize room (\<lambda>_.
       (case tget (rm_lobby room) target_id of
          None \<Rightarrow> (Inl (Bail ''Participant not found in lobby''), room, [])
        | Some entry \<Rightarrow>
            (let (ok, room1) = reserve_admin now room in
             if \<not> ok then (Inl (Bail ''Room administration changes are rate limited''), room1, [])
             else (Inr (), room1\<lparr>rm_lobby := tdel target_id (rm_lobby room1)\<rparr>,
                   [Send (le_sender entry) (MsgLobbyDenied reason)])))))"

definition deny_from_lobby ::
  "instant \<Rightarrow> participant_id \<Rightarrow> chan \<Rightarrow> participant_id \<Rightarrow> string option \<Rightarrow> room \<Rightarrow> unit reply" where
  "deny_from_lobby now moderator_id expected_sender target_id reason room =
     attempt (lobby_actor ''Insufficient permissions to deny from lobby'' moderator_id expected_sender room) room
       (\<lambda>_. deny_authorized_lobby now (Inr ()) target_id reason room)"

end
