(* ===== verification/Settings_Ops.thy ===== *)
theory Settings_Ops
  imports Moderation_Ops
begin

text \<open>
  Changing a live room's settings and topic (\<^verbatim>\<open>src/room/manager/settings_ops.rs\<close>): authorization,
  validation, the write as the commit point, then publication and the revocation of producers the
  new policy forbids. The hash of a new password is computed outside the state lock; its outcome
  is an argument.
\<close>

definition ROOM_PASSWORD_HASH_COOLDOWN :: duration where "ROOM_PASSWORD_HASH_COOLDOWN = from_secs 30"

definition validate_capacity :: "string \<Rightarrow> int option option \<Rightarrow> int \<Rightarrow> unit outcome" where
  "validate_capacity label patch maximum =
     (case patch of
        Some (Some v) \<Rightarrow>
          if 1 \<le> v \<and> v \<le> maximum then Inr ()
          else Inl (Bail (label @ '' must be between 1 and '' @ nat_to_string (nat maximum)))
      | _ \<Rightarrow> Inr ())"

definition settings_actor :: "string \<Rightarrow> participant_id \<Rightarrow> chan \<Rightarrow> room \<Rightarrow> unit outcome" where
  "settings_actor what admin_id expected_sender room =
     (case participant_for_sender room admin_id expected_sender of
        Inl e \<Rightarrow> Inl e
      | Inr admin \<Rightarrow>
          if \<not> can_change_settings (pt_role admin)
          then Inl (Bail (''Insufficient permissions to change room '' @ what @ '' (requires Admin+)''))
          else Inr ())"

section \<open>Settings\<close>

text \<open>
  The steps before the password is hashed: the actor, the capacities, and for a new password its
  form, the cooldown and the administration budget. The answer says whether that budget was
  already spent.
\<close>

definition begin_settings :: "instant \<Rightarrow> participant_id \<Rightarrow> chan \<Rightarrow> settings_patch \<Rightarrow> room \<Rightarrow> bool reply" where
  "begin_settings now admin_id expected_sender patch room =
     attempt (settings_actor ''settings'' admin_id expected_sender room) room (\<lambda>_.
     attempt (validate_capacity ''max participants'' (sp_max_participants patch) MAX_PARTICIPANTS) room (\<lambda>_.
     attempt (validate_capacity ''max broadcasters'' (sp_max_broadcasters patch) MAX_BROADCASTERS) room (\<lambda>_.
       (case sp_password patch of
          Some (Some password) \<Rightarrow>
            if \<not> valid_new_room_password password
            then (Inl (Bail ''Room password must be 8-256 bytes without control characters''), room, [])
            else attempt (settings_actor ''settings'' admin_id expected_sender room) room (\<lambda>_.
              if is_some_and (\<lambda>previous. duration_since now previous < ROOM_PASSWORD_HASH_COOLDOWN)
                   (rm_last_password_hash_at room)
              then (Inl (Bail ''Room password updates are rate limited''), room, [])
              else (let (ok, room1) = reserve_admin now room in
                    if \<not> ok then (Inl (Bail ''Room administration changes are rate limited''), room1, [])
                    else (Inr True, room1\<lparr>rm_last_password_hash_at := Some now\<rparr>, [])))
        | _ \<Rightarrow> (Inr False, room, [])))))"

text \<open>The hash to store: of a new password, none to clear it, or no change.\<close>

definition settings_hash :: "string outcome \<Rightarrow> settings_patch \<Rightarrow> string option option outcome" where
  "settings_hash hashed patch =
     (case sp_password patch of
        Some (Some _) \<Rightarrow> (case hashed of Inl e \<Rightarrow> Inl e | Inr h \<Rightarrow> Inr (Some (Some h)))
      | Some None \<Rightarrow> Inr (Some None)
      | None \<Rightarrow> Inr None)"

record settings_plan =
  sg_updated :: room_settings
  sg_persisted :: bool

definition current_settings :: "room \<Rightarrow> room_settings" where
  "current_settings room = unwrap_or (rm_settings room) (settings_defaults (rm_id room))"

definition plan_settings ::
  "instant \<Rightarrow> participant_id \<Rightarrow> chan \<Rightarrow> settings_patch \<Rightarrow> bool \<Rightarrow> room \<Rightarrow> settings_plan option reply" where
  "plan_settings now admin_id expected_sender patch reserved room =
     attempt (settings_actor ''settings'' admin_id expected_sender room) room (\<lambda>_.
       let current = current_settings room;
           password_changed = (case sp_password patch of
               Some (Some _) \<Rightarrow> True
             | Some None \<Rightarrow> rm_password_hash room \<noteq> None \<or> rs_password_protected current
             | None \<Rightarrow> False);
           updated = apply_settings_update patch current in
       if broadcasters_exceed (rs_max_broadcasters updated) (rs_max_participants updated)
       then (Inl (Bail ''Maximum broadcasters cannot exceed maximum participants''), room, [])
       else if \<not> password_changed \<and> updated = current then (Inr None, room, [])
       else (let (ok, room1) = (if reserved then (True, room) else reserve_admin now room) in
             if \<not> ok then (Inl (Bail ''Room administration changes are rate limited''), room1, [])
             else (Inr (Some \<lparr>sg_updated = updated, sg_persisted = rm_persisted room1\<rparr>), room1, [])))"

definition save_change :: "string \<Rightarrow> string \<Rightarrow> unit control_env \<Rightarrow> bool \<Rightarrow> room \<Rightarrow> unit reply" where
  "save_change no_pool unsaved env persisted room =
     (if \<not> persisted then (Inr (), room, [])
      else if \<not> ce_pool env then (Inl (Bail no_pool), room, [])
      else (case persist_room (ce_mapped env) (ce_write env) room of
              (Inl e, room', sent) \<Rightarrow> (Inl (Bail unsaved), room', sent)
            | (Inr _, room', sent) \<Rightarrow> (Inr (), room', sent)))"

definition publish_settings :: "room_settings \<Rightarrow> string option option \<Rightarrow> room \<Rightarrow> revoked_producer list reply" where
  "publish_settings updated password_hash room =
     attempt (ensure_live room) room (\<lambda>_.
       let room1 = room\<lparr>rm_password_hash := keep password_hash (rm_password_hash room), rm_settings := Some updated\<rparr>;
           (revoked, room2, closing) = revoke_unauthorized_producers None
             ''Room policy no longer permits this producer'' (bump_policy room1) in
       (Inr revoked, room2, closing @ broadcast_all (MsgRoomSettingsChanged updated) room2))"

definition finish_settings ::
  "unit control_env \<Rightarrow> string option option \<Rightarrow> settings_plan \<Rightarrow> room \<Rightarrow> revoked_producer list reply" where
  "finish_settings env password_hash plan room =
     (case save_change ''Room settings are temporarily unavailable'' ''Room settings could not be saved'' env
             (sg_persisted plan) room of
        (Inl e, room1, sent) \<Rightarrow> (Inl e, room1, sent)
      | (Inr _, room1, _) \<Rightarrow> publish_settings (sg_updated plan) password_hash room1)"

text \<open>
  The state lock is released twice: while a password is hashed and while the row is written.
  \<^verbatim>\<open>hashing\<close> is what happens to the room during the first pause.
\<close>

definition update_room_settings_controlled ::
  "unit control_env \<Rightarrow> string outcome \<Rightarrow> (room \<Rightarrow> room) \<Rightarrow> participant_id \<Rightarrow> chan \<Rightarrow> settings_patch \<Rightarrow> room \<Rightarrow>
     revoked_producer list reply" where
  "update_room_settings_controlled env hashed hashing admin_id expected_sender patch room =
     (case begin_settings (ce_now env) admin_id expected_sender patch room of
        (Inl e, room1, sent) \<Rightarrow> (Inl e, room1, sent)
      | (Inr reserved, room1, _) \<Rightarrow>
          (case settings_hash hashed patch of
             Inl e \<Rightarrow> (Inl e, hashing room1, [])
           | Inr password_hash \<Rightarrow>
               (case plan_settings (ce_later env) admin_id expected_sender patch reserved (hashing room1) of
                  (Inl e, room2, sent) \<Rightarrow> (Inl e, room2, sent)
                | (Inr None, room2, sent) \<Rightarrow> (Inr [], room2, sent)
                | (Inr (Some plan), room2, _) \<Rightarrow> finish_settings env password_hash plan (ce_others env room2))))"

definition update_room_settings_live ::
  "control_gate \<Rightarrow> unit control_env \<Rightarrow> string outcome \<Rightarrow> (room \<Rightarrow> room) \<Rightarrow> participant_id \<Rightarrow> chan \<Rightarrow> settings_patch \<Rightarrow>
     room \<Rightarrow> revoked_producer list reply" where
  "update_room_settings_live gate env hashed hashing admin_id expected_sender patch =
     run_room_control gate (update_room_settings_controlled env hashed hashing admin_id expected_sender patch)"

section \<open>The topic\<close>

definition plan_topic :: "instant \<Rightarrow> participant_id \<Rightarrow> chan \<Rightarrow> string \<Rightarrow> room \<Rightarrow> bool option reply" where
  \<comment> \<open>whether the change is written, or nothing when the topic is already set\<close>
  "plan_topic now admin_id expected_sender topic room =
     (if length topic > MAX_TOPIC_LEN \<or> has_control topic
      then (Inl (Bail ''Room topic must be at most 512 characters without control characters''), room, [])
      else attempt (settings_actor ''topic'' admin_id expected_sender room) room (\<lambda>_.
        if Option.bind (rm_settings room) rs_topic = Some topic then (Inr None, room, [])
        else (let (ok, room1) = reserve_admin now room in
              if \<not> ok then (Inl (Bail ''Room administration changes are rate limited''), room1, [])
              else (Inr (Some (rm_persisted room1)), room1, []))))"

definition publish_topic :: "participant_id \<Rightarrow> string \<Rightarrow> room \<Rightarrow> unit reply" where
  "publish_topic admin_id topic room =
     attempt (ensure_live room) room (\<lambda>_.
       let room1 = room\<lparr>rm_settings := Some ((current_settings room)\<lparr>rs_topic := Some topic\<rparr>)\<rparr> in
       (Inr (), room1, broadcast_all (MsgTopicChanged topic admin_id) room1))"

definition finish_topic :: "unit control_env \<Rightarrow> participant_id \<Rightarrow> string \<Rightarrow> bool \<Rightarrow> room \<Rightarrow> unit reply" where
  "finish_topic env admin_id topic persisted room =
     (case save_change ''Room topic is temporarily unavailable'' ''Room topic could not be saved'' env persisted room of
        (Inl e, room1, sent) \<Rightarrow> (Inl e, room1, sent)
      | (Inr _, room1, _) \<Rightarrow> publish_topic admin_id topic room1)"

definition set_topic_controlled ::
  "unit control_env \<Rightarrow> participant_id \<Rightarrow> chan \<Rightarrow> string \<Rightarrow> room \<Rightarrow> unit reply" where
  "set_topic_controlled env admin_id expected_sender topic room =
     (case plan_topic (ce_now env) admin_id expected_sender topic room of
        (Inl e, room1, sent) \<Rightarrow> (Inl e, room1, sent)
      | (Inr None, room1, sent) \<Rightarrow> (Inr (), room1, sent)
      | (Inr (Some persisted), room1, _) \<Rightarrow> finish_topic env admin_id topic persisted (ce_others env room1))"

definition set_topic ::
  "control_gate \<Rightarrow> unit control_env \<Rightarrow> participant_id \<Rightarrow> chan \<Rightarrow> string \<Rightarrow> room \<Rightarrow> unit reply" where
  "set_topic gate env admin_id expected_sender topic =
     run_room_control gate (set_topic_controlled env admin_id expected_sender topic)"

end
