(* ===== verification/Media_Ops.thy ===== *)
theory Media_Ops
  imports Room_Control
begin

text \<open>
  Producers, consumers and transports of a member (\<^verbatim>\<open>src/room/manager/media_ops.rs\<close>, with
  \<^verbatim>\<open>observer_broadcast_task\<close> of \<^verbatim>\<open>membership.rs\<close>). The media server does the work between the room's
  critical sections; what it answers to a request under a media identity is an argument, and
  \<^verbatim>\<open>others\<close> n is what happens to the room during the n-th pause of an operation.
\<close>

type_synonym pauses = "nat \<Rightarrow> room \<Rightarrow> room"

text \<open>
  A member's identity at the media server. The source joins the three parts with the separator
  U+001F, which no room id contains.
\<close>

type_synonym media_id = "room_id \<times> uuid \<times> participant_id"

definition media_participant_id :: "room_id \<Rightarrow> participant_id \<Rightarrow> uuid \<Rightarrow> media_id" where
  "media_participant_id room_id i media_session = (room_id, media_session, i)"

section \<open>Sessions and budgets\<close>

definition media_session_for_sender :: "room \<Rightarrow> participant_id \<Rightarrow> chan \<Rightarrow> uuid outcome" where
  "media_session_for_sender room i expected_sender =
     (case participant_for_sender room i expected_sender of Inl e \<Rightarrow> Inl e | Inr p \<Rightarrow> Inr (pt_media_session_id p))"

definition reserve_media_mutation_for_sender ::
  "instant \<Rightarrow> participant_id \<Rightarrow> chan \<Rightarrow> producer_id option \<Rightarrow> room \<Rightarrow> instant reply" where
  \<comment> \<open>the answer is the reservation: the reading of the clock it was made at\<close>
  "reserve_media_mutation_for_sender now i expected_sender producer_id room =
     (case participant_for_sender room i expected_sender of
        Inl e \<Rightarrow> (Inl e, room, [])
      | Inr p \<Rightarrow>
          if is_some_and (\<lambda>k. \<not> contains_key (pt_producers p) k) producer_id
          then (Inl (Bail ''Producer does not belong to this participant''), room, [])
          else (let (ok, w) = reserve now (rm_media_mutations room); room' = room\<lparr>rm_media_mutations := w\<rparr> in
                if \<not> ok then (Inl (Bail ''Room media changes are rate limited''), room', [])
                else (Inr now, room', [])))"

definition reserve_producer_pause_mutation_for_sender ::
  "instant \<Rightarrow> participant_id \<Rightarrow> chan \<Rightarrow> producer_id \<Rightarrow> bool \<Rightarrow> room \<Rightarrow> instant option reply" where
  "reserve_producer_pause_mutation_for_sender now i expected_sender producer_id desired_paused room =
     (case participant_for_sender room i expected_sender of
        Inl e \<Rightarrow> (Inl e, room, [])
      | Inr p \<Rightarrow>
          (case tget (pt_producers p) producer_id of
             None \<Rightarrow> (Inl (Bail ''Producer does not belong to this participant''), room, [])
           | Some record \<Rightarrow>
               if pr_paused record = desired_paused then (Inr None, room, [])
               else (let (ok, w) = reserve now (rm_media_mutations room); room' = room\<lparr>rm_media_mutations := w\<rparr> in
                     if \<not> ok then (Inl (Bail ''Room media changes are rate limited''), room', [])
                     else (Inr (Some now), room', []))))"

definition refund_media_mutation :: "instant \<Rightarrow> room \<Rightarrow> room" where
  "refund_media_mutation reserved_at room =
     room\<lparr>rm_media_mutations := snd (refund reserved_at (rm_media_mutations room))\<rparr>"

definition reserve_media_control_ipc_for_sender ::
  "instant \<Rightarrow> participant_id \<Rightarrow> chan \<Rightarrow> room \<Rightarrow> instant reply" where
  "reserve_media_control_ipc_for_sender now i expected_sender room =
     (case participant_for_sender room i expected_sender of
        Inl e \<Rightarrow> (Inl e, room, [])
      | Inr _ \<Rightarrow>
          (let (ok, w) = reserve now (rm_media_control_ipc room); room' = room\<lparr>rm_media_control_ipc := w\<rparr> in
           if \<not> ok then (Inl (Bail ''Room media control operations are rate limited''), room', [])
           else (Inr now, room', [])))"

definition refund_media_control_ipc :: "instant \<Rightarrow> room \<Rightarrow> room" where
  "refund_media_control_ipc reserved_at room =
     room\<lparr>rm_media_control_ipc := snd (refund reserved_at (rm_media_control_ipc room))\<rparr>"

section \<open>Producers\<close>

definition commit_producer ::
  "participant_id \<Rightarrow> chan \<Rightarrow> uuid \<Rightarrow> media_kind \<Rightarrow> string \<Rightarrow> producer_id \<Rightarrow> room \<Rightarrow> producer_id reply" where
  "commit_producer i expected_sender media_session kind source producer_id room =
     (case ensure_live room of
        Inl e \<Rightarrow> (Inl e, room, [])
      | Inr _ \<Rightarrow>
          if is_some_and (\<lambda>p. pt_media_session_id p = media_session \<and> pt_sender p = expected_sender
                              \<and> participant_can_produce room p kind source) (tget (rm_participants room) i)
          then (let room' = add_producer i producer_id
                      \<lparr>pr_kind = kind, pr_source = Some source, pr_paused = False\<rparr> room in
                (Inr producer_id, room', broadcast_except i (MsgNewProducer i producer_id kind (Some source)) room'))
          else (Inl (Bail ''You are no longer allowed to produce this media type''), room, []))"

text \<open>
  Creating a producer. When the room no longer allows it, the producer just made is closed again:
  the answer's flag.
\<close>

definition create_producer ::
  "instant \<Rightarrow> pauses \<Rightarrow> (media_id \<Rightarrow> producer_id outcome) \<Rightarrow> participant_id \<Rightarrow> chan \<Rightarrow> media_kind \<Rightarrow> string option \<Rightarrow>
     room \<Rightarrow> bool \<times> producer_id reply" where
  "create_producer now others produce i expected_sender kind source room =
     (case source of
        None \<Rightarrow> (False, Inl (Bail ''Media source is required''), room, [])
      | Some src \<Rightarrow>
          if \<not> valid_media_source kind src then (False, Inl (Bail ''Media kind does not match source''), room, [])
          else (case can_participant_produce room i expected_sender kind src of
                  Inl e \<Rightarrow> (False, Inl e, room, [])
                | Inr False \<Rightarrow> (False, Inl (Bail ''You are not allowed to produce this media type''), room, [])
                | Inr True \<Rightarrow>
                    (case reserve_media_mutation_for_sender now i expected_sender None (others 0 room) of
                       (Inl e, room1, sent) \<Rightarrow> (False, Inl e, room1, sent)
                     | (Inr _, room1, _) \<Rightarrow>
                         (let room2 = others 1 room1 in
                          case media_session_for_sender room2 i expected_sender of
                            Inl e \<Rightarrow> (False, Inl e, room2, [])
                          | Inr media_session \<Rightarrow>
                              (case produce (media_participant_id (rm_id room2) i media_session) of
                                 Inl e \<Rightarrow> (False, Inl e, others 2 room2, [])
                               | Inr producer_id \<Rightarrow>
                                   (case commit_producer i expected_sender media_session kind src producer_id (others 2 room2) of
                                      (res, room3, sent) \<Rightarrow> (isl res, res, room3, sent)))))))"

definition commit_close :: "participant_id \<Rightarrow> chan \<Rightarrow> uuid \<Rightarrow> producer_id \<Rightarrow> room \<Rightarrow> unit reply" where
  "commit_close i expected_sender media_session producer_id room =
     (if \<not> participant_session_is_current room i expected_sender media_session
      then (Inl (Bail ''Participant is no longer in this room''), room, [])
      else (let room' = forget_producer i producer_id room in
            (Inr (), room', broadcast_except i (MsgProducerClosed producer_id) room')))"

definition close_producer ::
  "instant \<Rightarrow> pauses \<Rightarrow> (media_id \<Rightarrow> producer_id \<Rightarrow> unit outcome) \<Rightarrow> participant_id \<Rightarrow> chan \<Rightarrow> producer_id \<Rightarrow> room \<Rightarrow>
     unit reply" where
  "close_producer now others stop i expected_sender producer_id room =
     (case media_session_for_sender room i expected_sender of
        Inl e \<Rightarrow> (Inl e, room, [])
      | Inr media_session \<Rightarrow>
          (case reserve_media_mutation_for_sender now i expected_sender (Some producer_id) (others 0 room) of
             (Inl e, room1, sent) \<Rightarrow> (Inl e, room1, sent)
           | (Inr _, room1, _) \<Rightarrow>
               (case stop (media_participant_id (rm_id room) i media_session) producer_id of
                  Inl e \<Rightarrow> (Inl e, others 1 room1, [])
                | Inr _ \<Rightarrow> commit_close i expected_sender media_session producer_id (others 1 room1))))"

definition record_producer_paused :: "participant_id \<Rightarrow> producer_id \<Rightarrow> bool \<Rightarrow> room \<Rightarrow> room" where
  "record_producer_paused i producer_id paused room =
     room\<lparr>rm_participants := tmod i (\<lambda>p. p\<lparr>pt_producers :=
        tmod producer_id (\<lambda>r. r\<lparr>pr_paused := paused\<rparr>) (pt_producers p)\<rparr>) (rm_participants room)\<rparr>"

definition commit_pause :: "participant_id \<Rightarrow> chan \<Rightarrow> uuid \<Rightarrow> producer_id \<Rightarrow> bool \<Rightarrow> room \<Rightarrow> unit reply" where
  "commit_pause i expected_sender media_session producer_id paused room =
     (if \<not> participant_session_is_current room i expected_sender media_session
      then (Inl (Bail ''Participant is no longer in this room''), room, [])
      else (let room' = record_producer_paused i producer_id paused room in
            (Inr (), room', broadcast_except i
               (if paused then MsgProducerPaused producer_id else MsgProducerResumed producer_id) room')))"

text \<open>The media server answers whether it changed anything.\<close>

definition set_producer_paused ::
  "bool \<Rightarrow> instant \<Rightarrow> pauses \<Rightarrow> (media_id \<Rightarrow> producer_id \<Rightarrow> bool outcome) \<Rightarrow> participant_id \<Rightarrow> chan \<Rightarrow> producer_id \<Rightarrow> room \<Rightarrow>
     unit reply" where
  "set_producer_paused paused now others change i expected_sender producer_id room =
     (case media_session_for_sender room i expected_sender of
        Inl e \<Rightarrow> (Inl e, room, [])
      | Inr media_session \<Rightarrow>
          (case reserve_producer_pause_mutation_for_sender now i expected_sender producer_id paused (others 0 room) of
             (Inl e, room1, sent) \<Rightarrow> (Inl e, room1, sent)
           | (Inr None, room1, sent) \<Rightarrow> (Inr (), room1, sent)
           | (Inr (Some reservation), room1, _) \<Rightarrow>
               (case change (media_participant_id (rm_id room) i media_session) producer_id of
                  Inl e \<Rightarrow> (Inl e, others 1 room1, [])
                | Inr False \<Rightarrow> (Inr (), refund_media_mutation reservation (others 1 room1), [])
                | Inr True \<Rightarrow> commit_pause i expected_sender media_session producer_id paused (others 1 room1))))"

definition pause_producer ::
  "instant \<Rightarrow> pauses \<Rightarrow> (media_id \<Rightarrow> producer_id \<Rightarrow> bool outcome) \<Rightarrow> participant_id \<Rightarrow> chan \<Rightarrow> producer_id \<Rightarrow> room \<Rightarrow>
     unit reply" where
  "pause_producer = set_producer_paused True"

definition resume_producer ::
  "instant \<Rightarrow> pauses \<Rightarrow> (media_id \<Rightarrow> producer_id \<Rightarrow> bool outcome) \<Rightarrow> participant_id \<Rightarrow> chan \<Rightarrow> producer_id \<Rightarrow> room \<Rightarrow>
     unit reply" where
  "resume_producer = set_producer_paused False"

section \<open>Requests to the media worker\<close>

text \<open>
  Operations on an existing transport or consumer share one shape: the member's session, a unit
  of the room's budget, the request, and the unit back when nothing changed.
\<close>

definition media_control ::
  "instant \<Rightarrow> pauses \<Rightarrow> (media_id \<Rightarrow> bool outcome) \<Rightarrow> participant_id \<Rightarrow> chan \<Rightarrow> room \<Rightarrow> unit reply" where
  "media_control now others request i expected_sender room =
     (case media_session_for_sender room i expected_sender of
        Inl e \<Rightarrow> (Inl e, room, [])
      | Inr media_session \<Rightarrow>
          (case reserve_media_control_ipc_for_sender now i expected_sender (others 0 room) of
             (Inl e, room1, sent) \<Rightarrow> (Inl e, room1, sent)
           | (Inr reservation, room1, _) \<Rightarrow>
               (case request (media_participant_id (rm_id room) i media_session) of
                  Inl e \<Rightarrow> (Inl e, others 1 room1, [])
                | Inr False \<Rightarrow> (Inr (), refund_media_control_ipc reservation (others 1 room1), [])
                | Inr True \<Rightarrow> (Inr (), others 1 room1, []))))"

type_synonym consumer_id = nat
type_synonym transport_id = nat

definition connect_transport where
  "connect_transport connect transport_id dtls now others i expected_sender room =
     media_control now others (\<lambda>m. connect m (transport_id :: transport_id) dtls) i expected_sender room"

definition resume_consumer where
  "resume_consumer resume consumer_id now others i expected_sender room =
     media_control now others (\<lambda>m. resume m (consumer_id :: consumer_id)) i expected_sender room"

definition pause_consumer where
  "pause_consumer pause consumer_id now others i expected_sender room =
     media_control now others (\<lambda>m. pause m (consumer_id :: consumer_id)) i expected_sender room"

definition close_consumer where
  "close_consumer close consumer_id now others i expected_sender room =
     media_control now others (\<lambda>m. close m (consumer_id :: consumer_id)) i expected_sender room"

definition set_preferred_layers where
  "set_preferred_layers set_layers consumer_id layers now others i expected_sender room =
     media_control now others (\<lambda>m. set_layers m (consumer_id :: consumer_id) (layers :: nat \<times> nat option)) i expected_sender room"

text \<open>
  Creating a transport checks the session again afterwards. When it is gone, the media state just
  made is dropped: the answer's flag.
\<close>

definition create_transport ::
  "instant \<Rightarrow> pauses \<Rightarrow> (media_id \<Rightarrow> 'a outcome) \<Rightarrow> (media_id \<Rightarrow> 'a \<Rightarrow> 'b outcome) \<Rightarrow> participant_id \<Rightarrow> chan \<Rightarrow> room \<Rightarrow>
     bool \<times> 'b reply" where
  "create_transport now others place produce i expected_sender room =
     (case media_session_for_sender room i expected_sender of
        Inl e \<Rightarrow> (False, Inl e, room, [])
      | Inr media_session \<Rightarrow>
          (case place (media_participant_id (rm_id room) i media_session) of
             Inl e \<Rightarrow> (False, Inl e, others 0 room, [])
           | Inr placed \<Rightarrow>
               (case reserve_media_control_ipc_for_sender now i expected_sender (others 0 room) of
                  (Inl e, room1, sent) \<Rightarrow> (False, Inl e, room1, sent)
                | (Inr _, room1, _) \<Rightarrow>
                    (let room2 = others 1 room1 in
                     case produce (media_participant_id (rm_id room) i media_session) placed of
                       Inl e \<Rightarrow> (False, Inl e, room2, [])
                     | Inr transport \<Rightarrow>
                         if participant_session_is_current room2 i expected_sender media_session
                         then (False, Inr transport, room2, [])
                         else (True, Inl (Bail ''Participant is no longer in this room''), room2, [])))))"

text \<open>A sending transport goes to the room's own router; a viewer may be placed on another worker.\<close>

definition create_send_transport where
  "create_send_transport router now others produce i expected_sender room =
     create_transport now others (\<lambda>_. router) produce i expected_sender room"

definition create_recv_transport where
  "create_recv_transport place_viewer now others produce i expected_sender room =
     create_transport now others place_viewer produce i expected_sender room"

section \<open>Consumers and observers\<close>

definition producer_of_room :: "room \<Rightarrow> producer_id \<Rightarrow> producer_record option" where
  "producer_of_room room producer_id =
     Option.bind (tget (rm_producer_to_participant room) producer_id) (\<lambda>owner.
     Option.bind (tget (rm_participants room) owner) (\<lambda>p. tget (pt_producers p) producer_id))"

definition create_consumer ::
  "instant \<Rightarrow> pauses \<Rightarrow> (media_id \<Rightarrow> producer_id \<Rightarrow> unit outcome) \<Rightarrow> (media_id \<Rightarrow> producer_id \<Rightarrow> producer_record \<Rightarrow> 'b outcome) \<Rightarrow>
     participant_id \<Rightarrow> chan \<Rightarrow> producer_id \<Rightarrow> room \<Rightarrow> bool \<times> 'b reply" where
  \<comment> \<open>every error is a \<^verbatim>\<open>ConsumerError\<close> of the same text; \<open>pipe\<close> brings the producer to the viewer's worker\<close>
  "create_consumer now others pipe produce i expected_sender producer_id room =
     (case media_session_for_sender room i expected_sender of
        Inl e \<Rightarrow> (False, Inl e, room, [])
      | Inr media_session \<Rightarrow>
          (let room0 = others 0 room in
           case producer_of_room room0 producer_id of
             None \<Rightarrow> (False, Inl (Bail ''Producer is not in this room''), room0, [])
           | Some producer \<Rightarrow>
               (case reserve_media_control_ipc_for_sender now i expected_sender (others 1 room0) of
                  (Inl e, room1, sent) \<Rightarrow> (False, Inl e, room1, sent)
                | (Inr _, room1, _) \<Rightarrow>
                    (let room2 = others 2 room1 in
                     case pipe (media_participant_id (rm_id room) i media_session) producer_id of Inl e \<Rightarrow> (False, Inl e, room2, []) | Inr _ \<Rightarrow>
                     (case produce (media_participant_id (rm_id room) i media_session) producer_id producer of Inl e \<Rightarrow> (False, Inl e, room2, []) | Inr consumer \<Rightarrow>
                        if participant_session_is_current room2 i expected_sender media_session
                        then (False, Inr consumer, room2, [])
                        else (True, Inl (Bail ''Participant is no longer in this room''), room2, []))))))"

datatype observer_event =
  ActiveSpeaker producer_id
  | AudioLevels "(producer_id \<times> int) list"
  | Silence

fun observer_broadcast :: "observer_event \<Rightarrow> room \<Rightarrow> effect list" where
  "observer_broadcast (ActiveSpeaker k) room =
     (case tget (rm_producer_to_participant room) k of
        Some i \<Rightarrow> broadcast_all (MsgActiveSpeaker i) room
      | None \<Rightarrow> [])"
| "observer_broadcast (AudioLevels volumes) room =
     (let levels = List.map_filter (\<lambda>(k, v). map_option (\<lambda>i. \<lparr>al_participant_id = i, al_volume = v\<rparr>)
            (tget (rm_producer_to_participant room) k)) volumes in
      if levels = [] then [] else broadcast_all (MsgAudioLevels levels) room)"
| "observer_broadcast Silence room = broadcast_all (MsgAudioLevels []) room"

end
