(* ===== verification/Live_Invariant.thy ===== *)
theory Live_Invariant
  imports Membership_Safety Lobby Settings_Ops Media_Ops
begin

text \<open>
  What a live room promises beyond \<^const>\<open>room_safe\<close>, and the steps that cannot break it. The
  promise is relative to the sanctions and bans on record (the saved rows of a persisted room, the
  room's own table otherwise): everybody present carries exactly the sanctions recorded for them,
  nobody present is banned there, and every producer is one the room's policy allows. Most
  operations only take people, producers or bans away; \<open>calm\<close> says so once for all of them.
\<close>

section \<open>The promise\<close>

definition sanctions_follow :: "(sanction_key \<Rightarrow> punitive_kind \<Rightarrow> bool) \<Rightarrow> room \<Rightarrow> bool" where
  "sanctions_follow recorded r \<longleftrightarrow>
     (\<forall>i authenticated ip s kind. present r i = Some (authenticated, ip, s) \<longrightarrow>
        (punitive_value s kind \<longleftrightarrow> recorded (sanction_key_for i authenticated ip) kind))
     \<and> (\<forall>key kind. stored_sanction r key kind \<longrightarrow> recorded key kind)"

definition bans_follow :: "(sanction_key \<Rightarrow> bool) \<Rightarrow> room \<Rightarrow> bool" where
  "bans_follow banned r \<longleftrightarrow>
     (\<forall>i authenticated ip s. present r i = Some (authenticated, ip, s) \<longrightarrow>
        \<not> banned (sanction_key_for i authenticated ip))"

definition media_ok :: "room \<Rightarrow> bool" where
  "media_ok r \<longleftrightarrow> producers_authorized r \<and> within_broadcaster_limit r"

section \<open>Calm steps\<close>

definition member_calm :: "participant \<Rightarrow> participant \<Rightarrow> bool" where
  "member_calm p p' \<longleftrightarrow>
     pt_authenticated p' = pt_authenticated p \<and> pt_ip p' = pt_ip p \<and> pt_punitive p' = pt_punitive p
     \<and> pt_role p' = pt_role p
     \<and> (\<forall>k record'. tget (pt_producers p') k = Some record' \<longrightarrow>
          (\<exists>record. tget (pt_producers p) k = Some record \<and> pr_kind record' = pr_kind record
             \<and> pr_source record' = pr_source record))"

definition waiting_calm :: "lobby_entry \<Rightarrow> lobby_entry \<Rightarrow> bool" where
  "waiting_calm e e' \<longleftrightarrow> le_authenticated e' = le_authenticated e \<and> le_ip e' = le_ip e \<and> le_punitive e' = le_punitive e"

text \<open>\<open>shrinks\<close>: nobody and nothing new, under the same settings and sanctions.\<close>

definition shrinks :: "room \<Rightarrow> room \<Rightarrow> bool" where
  "shrinks r r' \<longleftrightarrow>
     (room_wf r \<longrightarrow> room_wf r') \<and> rm_sanctions r' = rm_sanctions r \<and> rm_settings r' = rm_settings r
     \<and> rm_broadcaster_ceiling r' = rm_broadcaster_ceiling r
     \<and> (\<forall>i p'. tget (rm_participants r') i = Some p' \<longrightarrow> (\<exists>p. tget (rm_participants r) i = Some p \<and> member_calm p p'))
     \<and> (\<forall>i e'. tget (rm_lobby r') i = Some e' \<longrightarrow> (\<exists>e. tget (rm_lobby r) i = Some e \<and> waiting_calm e e'))"

definition policy_same :: "room \<Rightarrow> room \<Rightarrow> bool" where
  "policy_same r r' \<longleftrightarrow>
     rm_persisted r' = rm_persisted r \<and> rm_id r' = rm_id r
     \<and> (\<forall>i. contains_key (rm_banned_participants r') i \<longrightarrow> contains_key (rm_banned_participants r) i)
     \<and> (\<forall>a. contains_key (rm_banned_guest_ips r') a \<longrightarrow> contains_key (rm_banned_guest_ips r) a)
     \<and> (rm_deleting r \<longrightarrow> rm_deleting r')
     \<and> rm_policy_revision r' \<in> {rm_policy_revision r, rm_policy_revision r + 1}"

definition calm :: "room \<Rightarrow> room \<Rightarrow> bool" where
  "calm r r' \<longleftrightarrow> shrinks r r' \<and> policy_same r r'"

lemmas calm_defs = calm_def shrinks_def policy_same_def

lemma member_calm_refl [simp]: "member_calm p p"
  by (simp add: member_calm_def)

lemma waiting_calm_refl [simp]: "waiting_calm e e"
  by (simp add: waiting_calm_def)

lemma calm_refl [simp]: "calm r r"
  by (simp add: calm_defs)

lemma shrinksD:
  assumes "shrinks r r'"
  shows "room_wf r \<Longrightarrow> room_wf r'"
    and "tget (rm_participants r') i = Some p' \<Longrightarrow> \<exists>p. tget (rm_participants r) i = Some p \<and> member_calm p p'"
    and "tget (rm_lobby r') i = Some e' \<Longrightarrow> \<exists>e. tget (rm_lobby r) i = Some e \<and> waiting_calm e e'"
    and "rm_sanctions r' = rm_sanctions r" and "rm_settings r' = rm_settings r"
    and "rm_broadcaster_ceiling r' = rm_broadcaster_ceiling r"
  using assms by (simp_all add: shrinks_def)

lemma shrinks_present:
  assumes "shrinks r r'" and "room_wf r" and "present r' i = Some x"
  shows "present r i = Some x"
proof (cases "tget (rm_participants r') i")
  case None
  then obtain e' where e': "tget (rm_lobby r') i = Some e'" "x = (le_authenticated e', le_ip e', le_punitive e')"
    using assms(3) by (auto simp: present_def)
  from shrinksD(3) [OF assms(1) e'(1)] obtain e where e: "tget (rm_lobby r) i = Some e" "waiting_calm e e'" by blast
  then show ?thesis using e'(2) room_wf_waiting [OF assms(2) e(1)] by (simp add: present_def waiting_calm_def)
next
  case (Some p')
  from shrinksD(2) [OF assms(1) Some] obtain p where "tget (rm_participants r) i = Some p" "member_calm p p'" by blast
  then show ?thesis using assms(3) Some by (simp add: present_def member_calm_def)
qed

lemma shrinks_stored: "shrinks r r' \<Longrightarrow> stored_sanction r' = stored_sanction r"
  by (simp add: shrinks_def stored_sanction_def fun_eq_iff)

lemma calm_safe: "calm r r' \<Longrightarrow> room_safe r \<Longrightarrow> room_safe r'"
proof -
  assume calm: "calm r r'" and safe: "room_safe r"
  then have sh: "shrinks r r'" and ps: "policy_same r r'" by (simp_all add: calm_def)
  note wf = room_safe_wf [OF safe]
  show "room_safe r'"
    by (rule room_safe_fewer [OF safe])
      (use shrinksD(1) [OF sh wf] shrinks_present [OF sh wf] ps shrinks_stored [OF sh] in \<open>auto simp: policy_same_def\<close>)
qed

lemma shrinks_no_newcomers: "shrinks r r' \<Longrightarrow> no_newcomers r r'"
  by (fastforce simp: no_newcomers_def member_calm_def waiting_calm_def dest: shrinksD(2,3))

lemma shrinks_sanctions: "shrinks r r' \<Longrightarrow> room_wf r \<Longrightarrow> sanctions_follow V r \<Longrightarrow> sanctions_follow V r'"
  unfolding sanctions_follow_def shrinks_stored using shrinks_present by blast

lemma shrinks_bans: "shrinks r r' \<Longrightarrow> room_wf r \<Longrightarrow> bans_follow B r \<Longrightarrow> bans_follow B r'"
  unfolding bans_follow_def using shrinks_present by blast

lemma record_allowed_calm:
  assumes "member_calm p p'" and "rm_settings r' = rm_settings r"
    and "pr_kind record' = pr_kind record" and "pr_source record' = pr_source record"
  shows "record_allowed r' p' record' = record_allowed r p record"
proof -
  have "record_allowed r' p' record' = record_allowed r p record'"
    using assms(1,2) by (intro record_allowed_cong) (simp_all add: member_calm_def)
  then show ?thesis using assms(3,4) by (simp add: record_allowed_def)
qed

lemma shrinks_authorized:
  assumes sh: "shrinks r r'" and "authorized_except S r"
  shows "authorized_except S r'"
  unfolding authorized_except_def member_authorized_def
proof (intro allI impI)
  fix i p' k record' assume p': "tget (rm_participants r') i = Some p'" "i \<notin> S" and rec': "tget (pt_producers p') k = Some record'"
  from shrinksD(2) [OF sh p'(1)] obtain p where p: "tget (rm_participants r) i = Some p" "member_calm p p'" by blast
  from p(2) rec' obtain x where rec: "tget (pt_producers p) k = Some x"
      "pr_kind record' = pr_kind x" "pr_source record' = pr_source x"
    by (auto simp: member_calm_def)
  from record_allowed_calm [OF p(2) shrinksD(5) [OF sh] rec(2,3)] show "record_allowed r' p' record'"
    using assms(2) p(1) p'(2) rec(1) by (simp add: authorized_except_def member_authorized_def)
qed

lemma finite_members: "finite {i. \<exists>p. tget (rm_participants r) i = Some p \<and> P p}"
  by (rule finite_subset [OF _ finite_dom_map_of [of "rm_participants r"]]) auto

text \<open>Fewer broadcasters under the same limit.\<close>

lemma within_limit_fewer:
  assumes "within_broadcaster_limit r" and "room_wf r" and "room_wf r'"
    and "broadcaster_limit r' = broadcaster_limit r"
    and "\<And>i p'. tget (rm_participants r') i = Some p' \<Longrightarrow> pt_producers p' \<noteq> [] \<Longrightarrow>
           \<exists>p. tget (rm_participants r) i = Some p \<and> pt_producers p \<noteq> []"
  shows "within_broadcaster_limit r'"
proof -
  have "{i. \<exists>p. tget (rm_participants r') i = Some p \<and> pt_producers p \<noteq> []}
      \<subseteq> {i. \<exists>p. tget (rm_participants r) i = Some p \<and> pt_producers p \<noteq> []}"
    using assms(5) by blast
  then have "broadcaster_count r' \<le> broadcaster_count r"
    unfolding broadcaster_count_card [OF assms(2)] broadcaster_count_card [OF assms(3)]
    by (rule card_mono [OF finite_members])
  then show ?thesis using assms(1,4) unfolding within_broadcaster_limit_def by (auto intro: order_trans)
qed

lemma shrinks_within:
  assumes "shrinks r r'" and "room_wf r" and "within_broadcaster_limit r"
  shows "within_broadcaster_limit r'"
proof (rule within_limit_fewer [OF assms(3,2) shrinksD(1) [OF assms(1,2)]])
  show "broadcaster_limit r' = broadcaster_limit r"
    using shrinksD(5,6) [OF assms(1)] by (intro broadcaster_limit_cong) simp_all
  show "\<exists>p. tget (rm_participants r) i = Some p \<and> pt_producers p \<noteq> []"
    if p': "tget (rm_participants r') i = Some p'" "pt_producers p' \<noteq> []" for i p'
  proof -
    from shrinksD(2) [OF assms(1) p'(1)] obtain p where p: "tget (rm_participants r) i = Some p" "member_calm p p'" by blast
    then show ?thesis using p'(2) unfolding table_nonempty member_calm_def by blast
  qed
qed

lemma shrinks_media: "shrinks r r' \<Longrightarrow> room_wf r \<Longrightarrow> media_ok r \<Longrightarrow> media_ok r'"
  using shrinks_authorized [of r r' "{}"] shrinks_within [of r r'] by (simp add: media_ok_def authorized_except_none)

lemma member_calm_trans: "member_calm p q \<Longrightarrow> member_calm q r \<Longrightarrow> member_calm p r"
  unfolding member_calm_def by metis

lemma waiting_calm_trans: "waiting_calm e f \<Longrightarrow> waiting_calm f g \<Longrightarrow> waiting_calm e g"
  by (simp add: waiting_calm_def)

lemma shrinks_trans:
  assumes "shrinks a b" and "shrinks b c"
  shows "shrinks a c"
proof -
  have "\<exists>p. tget (rm_participants a) i = Some p \<and> member_calm p p'" if "tget (rm_participants c) i = Some p'" for i p'
    using shrinksD(2) [OF assms(2) that] shrinksD(2) [OF assms(1)] member_calm_trans by blast
  moreover have "\<exists>e. tget (rm_lobby a) i = Some e \<and> waiting_calm e e'" if "tget (rm_lobby c) i = Some e'" for i e'
    using shrinksD(3) [OF assms(2) that] shrinksD(3) [OF assms(1)] waiting_calm_trans by blast
  ultimately show ?thesis using assms by (simp add: shrinks_def)
qed

lemma calm_trans:
  assumes "calm a b" and "calm b c"
    and "rm_policy_revision b = rm_policy_revision a \<or> rm_policy_revision c = rm_policy_revision b"
  shows "calm a c"
  using assms shrinks_trans [of a b c] unfolding calm_def policy_same_def by auto

text \<open>The whole promise, against the sanctions and the bans on record.\<close>

definition promise :: "(sanction_key \<Rightarrow> punitive_kind \<Rightarrow> bool) \<Rightarrow> (sanction_key \<Rightarrow> bool) \<Rightarrow> room \<Rightarrow> bool" where
  "promise recorded banned r \<longleftrightarrow> room_safe r \<and> sanctions_follow recorded r \<and> bans_follow banned r \<and> media_ok r"

lemma calm_promise: "calm r r' \<Longrightarrow> promise V B r \<Longrightarrow> promise V B r'"
  using calm_safe shrinks_sanctions shrinks_bans shrinks_media room_safe_wf unfolding promise_def calm_def by metis

section \<open>Calm operations\<close>

lemma calm_frame [simp]:
  "calm r (r\<lparr>rm_chat_broadcasts := x1\<rparr>)" "calm r (r\<lparr>rm_media_mutations := x2\<rparr>)"
  "calm r (r\<lparr>rm_media_control_ipc := x3\<rparr>)" "calm r (r\<lparr>rm_voice_requests := x4\<rparr>)"
  "calm r (r\<lparr>rm_admin_mutations := x5\<rparr>)" "calm r (r\<lparr>rm_pending_joins := x6\<rparr>)"
  "calm r (r\<lparr>rm_last_password_hash_at := x7\<rparr>)" "calm r (r\<lparr>rm_password_hash := x8\<rparr>)"
  by (simp_all add: calm_defs)

lemma calm_bump: "calm a b \<Longrightarrow> rm_policy_revision b = rm_policy_revision a \<Longrightarrow> calm a (bump_policy b)"
  by (auto simp: calm_defs bump_policy_def)

lemma calm_social: "(social_wf (rm_social r) \<Longrightarrow> social_wf s) \<Longrightarrow> calm r (r\<lparr>rm_social := s\<rparr>)"
  by (auto simp: calm_defs room_wfD(5) intro: room_wf_social)

lemma calm_prune: "calm r (prune_expired_bans now r)"
proof -
  have "room_wf (prune_expired_bans now r)" if "room_wf r"
    using that by (simp add: prune_expired_bans_def Let_def room_wf_bans room_wfD)
  then show ?thesis by (auto simp: calm_defs) (auto simp: prune_expired_bans_def Let_def contains_key_dom retain_def)
qed

lemma calm_put_member:
  assumes "tget (rm_participants r) i = Some p" and "member_calm p q" and "pt_id q = pt_id p" and "pt_producers q = pt_producers p"
  shows "calm r (r\<lparr>rm_participants := tput i q (rm_participants r)\<rparr>)"
  using assms room_wf_put_member [OF _ assms(1,3,4)]
  by (auto simp: calm_defs)

lemma calm_forget_member: "calm r (forget_member i r)"
  using room_wf_forget_member [of r i]
  by (auto simp: calm_defs forget_member_def split: option.splits if_splits)

lemma calm_remove_waiting: "calm r (r\<lparr>rm_lobby := tdel i (rm_lobby r)\<rparr>)"
  using room_wf_remove_waiting [of r i] by (auto simp: calm_defs split: if_splits)

lemma calm_clear: "calm r (clear_membership r)"
  using clear_membership_wf [of r] by (auto simp: calm_defs clear_membership_def)

lemma calm_forget_producer:
  assumes "\<And>j. tget (rm_producer_to_participant r) k = Some j \<Longrightarrow> j = i"
  shows "calm r (forget_producer i k r)"
proof -
  have "room_wf r \<Longrightarrow> room_wf (forget_producer i k r)" using room_wf_forget_producer [of r k i] assms by blast
  then show ?thesis by (auto simp: calm_defs forget_producer_def member_calm_def split: if_splits)
qed

lemma room_wf_record_paused: "room_wf r \<Longrightarrow> room_wf (record_producer_paused i k b r)"
  unfolding room_wf_defs record_producer_paused_def by auto

lemma calm_record_paused: "calm r (record_producer_paused i k b r)"
  using room_wf_record_paused [of r i k b]
  by (auto simp: calm_defs record_producer_paused_def member_calm_def split: if_splits)

end
