(* ===== verification/Live_Steps.thy ===== *)
theory Live_Steps
  imports Live_Invariant
begin

text \<open>
  The operations that take nothing new into the room: each is \<open>quiet\<close> (calm, with the policy
  revision as it was) or calm. What they keep of the room's promise follows from
  \<^const>\<open>calm\<close> alone.
\<close>

definition quiet :: "room \<Rightarrow> room \<Rightarrow> bool" where
  "quiet r r' \<longleftrightarrow> calm r r' \<and> rm_policy_revision r' = rm_policy_revision r \<and> rm_deleting r' = rm_deleting r"

lemma quiet_calm: "quiet r r' \<Longrightarrow> calm r r'"
  by (simp add: quiet_def)

lemma quiet_refl [simp]: "quiet r r"
  by (simp add: quiet_def)

lemma quiet_trans: "quiet a b \<Longrightarrow> quiet b c \<Longrightarrow> quiet a c"
  using calm_trans [of a b c] by (simp add: quiet_def)

lemma quiet_then_calm: "quiet a b \<Longrightarrow> calm b c \<Longrightarrow> calm a c"
  using calm_trans [of a b c] by (simp add: quiet_def)

lemma calm_then_quiet: "calm a b \<Longrightarrow> quiet b c \<Longrightarrow> calm a c"
  using calm_trans [of a b c] by (simp add: quiet_def)

lemma quiet_frame [simp]:
  "quiet r (r\<lparr>rm_chat_broadcasts := x1\<rparr>)" "quiet r (r\<lparr>rm_media_mutations := x2\<rparr>)"
  "quiet r (r\<lparr>rm_media_control_ipc := x3\<rparr>)" "quiet r (r\<lparr>rm_voice_requests := x4\<rparr>)"
  "quiet r (r\<lparr>rm_admin_mutations := x5\<rparr>)" "quiet r (r\<lparr>rm_pending_joins := x6\<rparr>)"
  "quiet r (r\<lparr>rm_last_password_hash_at := x7\<rparr>)" "quiet r (r\<lparr>rm_password_hash := x8\<rparr>)"
  by (simp_all add: quiet_def)

lemma quiet_social: "(social_wf (rm_social r) \<Longrightarrow> social_wf s) \<Longrightarrow> quiet r (r\<lparr>rm_social := s\<rparr>)"
  by (simp add: quiet_def calm_social)

lemma quiet_prune: "quiet r (prune_expired_bans now r)"
  using calm_prune by (simp add: quiet_def) (simp add: prune_expired_bans_def Let_def)

lemma quiet_reserve_admin: "reserve_admin now r = (ok, r') \<Longrightarrow> quiet r r'"
  by (auto simp: reserve_admin_def split: prod.splits)

lemma quiet_forget_member: "quiet r (forget_member i r)"
  using calm_forget_member by (simp add: quiet_def) (simp add: forget_member_def split: option.splits)

lemma quiet_remove_waiting: "quiet r (r\<lparr>rm_lobby := tdel i (rm_lobby r)\<rparr>)"
  using calm_remove_waiting by (simp add: quiet_def)

lemma quiet_put_member:
  "tget (rm_participants r) i = Some p \<Longrightarrow> member_calm p q \<Longrightarrow> pt_id q = pt_id p \<Longrightarrow> pt_producers q = pt_producers p \<Longrightarrow>
     quiet r (r\<lparr>rm_participants := tput i q (rm_participants r)\<rparr>)"
  using calm_put_member by (simp add: quiet_def)

lemma quiet_attempt:
  "attempt res r k = (out, r', sent) \<Longrightarrow> (\<And>v. k v = (out, r', sent) \<Longrightarrow> quiet r r') \<Longrightarrow> quiet r r'"
  by (cases res) (auto simp: attempt_def)

section \<open>Moderation\<close>

lemma plan_sanction_quiet: "plan_sanction env m c t kind enabled reason r = (res, r', sent) \<Longrightarrow> quiet r r'"
  using plan_sanction_steps(1) quiet_reserve_admin quiet_refl by metis

lemma plan_kick_quiet: "plan_kick env m c t reason report r = (res, r', sent) \<Longrightarrow> quiet r r'"
  unfolding plan_kick_def attempt_def Let_def
  by (auto split: sum.splits option.splits if_splits prod.splits intro: quiet_reserve_admin)

lemma plan_ban_quiet:
  assumes "plan_ban env m c t reason duration report r = (res, r', sent)"
  shows "quiet r r'"
proof -
  let ?q = "r\<lparr>rm_social := snd (reserve_ban (ce_now env) (rm_social r))\<rparr>"
  have "quiet r ?q" by (rule quiet_social) (simp add: reserve_ban_def Let_def)
  then show ?thesis
    using plan_ban_steps(1) [OF assms] quiet_reserve_admin [of "ce_now env" ?q _ r'] quiet_trans [of r ?q r'] by auto
qed

lemma plan_unban_quiet: "plan_unban env m c t r = (res, r', sent) \<Longrightarrow> quiet r r'"
  unfolding plan_unban_def attempt_def Let_def
  by (auto split: sum.splits option.splits if_splits prod.splits
      intro: quiet_prune quiet_trans [OF quiet_prune quiet_reserve_admin])

lemma plan_role_quiet: "plan_role env m c t new_role r = (res, r', sent) \<Longrightarrow> quiet r r'"
  unfolding plan_role_def attempt_def Let_def
  by (auto split: sum.splits option.splits if_splits prod.splits intro: quiet_reserve_admin)

lemma request_voice_quiet: "request_voice env i c r = (res, r', sent) \<Longrightarrow> quiet r r'"
  unfolding request_voice_def attempt_def Let_def by (auto split: sum.splits if_splits prod.splits)

lemma close_cam_plan_quiet: "close_cam_plan env m c t r = (res, r', sent) \<Longrightarrow> quiet r r'"
  unfolding close_cam_plan_def attempt_def Let_def
  by (auto split: sum.splits option.splits if_splits prod.splits intro: quiet_reserve_admin)

lemma keep_decision_quiet: "keep_decision wall plan r = (res, r', sent) \<Longrightarrow> quiet r r'"
  using keep_decision_room quiet_social by metis

lemma quarantine_room_calm: "quarantine_room mapped r = (ss, r', sent) \<Longrightarrow> calm r r'"
proof -
  let ?q = "r\<lparr>rm_deleting := True\<rparr>"
  have "calm r (clear_membership ?q)" using clear_membership_wf [of ?q]
    by (auto simp: calm_defs) (auto simp: clear_membership_def)
  then have "calm r (bump_policy (clear_membership ?q))" by (rule calm_bump) (simp add: clear_membership_def)
  moreover have "bump_policy (clear_membership ?q) = clear_membership (bump_policy ?q)"
    by (simp add: bump_policy_def clear_membership_def)
  ultimately show "quarantine_room mapped r = (ss, r', sent) \<Longrightarrow> calm r r'"
    by (auto simp: quarantine_room_def Let_def split: if_splits)
qed

lemma persist_room_calm:
  assumes "persist_room mapped w r = (res, r', sent)"
  shows "calm r r'"
proof -
  obtain ss q se where q: "quarantine_room mapped r = (ss, q, se)" by (cases rule: prod_cases3)
  then show ?thesis using assms quarantine_room_calm [OF q]
    by (auto simp: persist_room_def Let_def split: option.splits sum.splits if_splits)
qed

text \<open>An uncertain write closes the room; a certain one leaves it as it is.\<close>

lemma persist_room_closes:
  assumes "persist_room mapped w r = (res, r', sent)" and "mapped \<or> rm_deleting r"
  shows "rm_deleting r' \<or> r' = r \<and> (\<exists>x. w = Some x \<and> res = x
           \<and> (\<forall>e. x = Inl e \<longrightarrow> \<not> persistence_is_indeterminate e))"
  using assms
  by (auto simp: persist_room_def Let_def quarantine_room_def clear_membership_def bump_policy_def
      split: option.splits sum.splits if_splits)

lemma save_for_identity_calm:
  "save_for_identity env none auth i a ip report r = (res, r', sent) \<Longrightarrow> calm r r'"
  by (auto simp: save_for_identity_def split: if_splits sum.splits prod.splits intro: persist_room_calm)

lemma save_role_calm: "save_role env plan r = (res, r', sent) \<Longrightarrow> calm r r'"
  by (auto simp: save_role_def split: if_splits sum.splits prod.splits intro: persist_room_calm)

lemma save_unban_calm: "save_unban env persisted r = (res, r', sent) \<Longrightarrow> calm r r'"
  by (auto simp: save_unban_def split: if_splits sum.splits prod.splits intro: persist_room_calm)

lemma save_change_calm: "save_change a b env persisted r = (res, r', sent) \<Longrightarrow> calm r r'"
  by (auto simp: save_change_def split: if_splits sum.splits prod.splits intro: persist_room_calm)

lemma quiet_drop_ban: "quiet r (r\<lparr>rm_banned_participants := tdel t (rm_banned_participants r)\<rparr>)"
  by (auto simp: quiet_def calm_defs contains_key_def room_wfD intro!: room_wf_bans split: if_splits)

lemma publish_planned_unban_quiet: "publish_planned_unban env m name t removed r = (res, r', sent) \<Longrightarrow> quiet r r'"
proof -
  let ?q = "r\<lparr>rm_banned_participants := tdel t (rm_banned_participants r)\<rparr>"
  have "quiet ?q (?q\<lparr>rm_social := s\<rparr>)" if "social_wf (rm_social r) \<Longrightarrow> social_wf s" for s
    using that by (intro quiet_social) simp
  from this [THEN quiet_trans [OF quiet_drop_ban]]
  have q: "quiet r (?q\<lparr>rm_social := s\<rparr>)" if "social_wf (rm_social r) \<Longrightarrow> social_wf s" for s using that by blast
  show "publish_planned_unban env m name t removed r = (res, r', sent) \<Longrightarrow> quiet r r'"
    unfolding publish_planned_unban_def attempt_def Let_def
    by (auto split: sum.splits if_splits prod.splits intro: quiet_drop_ban q simp: forget_user_ban_def Let_def)
qed

lemma finish_unban_calm: "finish_unban env m t plan r = (res, r', sent) \<Longrightarrow> calm r r'"
  unfolding finish_unban_def
  by (auto split: sum.splits prod.splits intro: save_unban_calm calm_then_quiet [OF save_unban_calm publish_planned_unban_quiet])

section \<open>Kicks\<close>

lemma for_each_quiet:
  assumes "\<And>x r. quiet r (fst (f x r))"
  shows "quiet r (fst (for_each f xs r))"
proof (induction xs arbitrary: r)
  case (Cons x xs)
  then show ?case using assms quiet_trans by (simp add: split_beta Let_def) blast
qed simp

lemma publish_kick_calm:
  assumes "\<not> rp_ban pub" and "publish_removal closed b now wall pub r = (ss, r', sent)"
  shows "calm r r'" "rm_policy_revision r' = rm_policy_revision r + 1" "rm_deleting r' = rm_deleting r"
proof -
  let ?q = "fst (for_each (remove_one closed pub) (rp_participants pub) r)"
  have q: "quiet r ?q" by (rule for_each_quiet) (simp add: remove_one_room quiet_forget_member)
  have r': "r' = bump_policy ?q"
    using assms by (simp add: publish_removal_def Let_def split_beta)
  then show "calm r r'" using q calm_bump [of r ?q] by (simp add: quiet_def)
  show "rm_policy_revision r' = rm_policy_revision r + 1" "rm_deleting r' = rm_deleting r"
    using q by (simp_all add: r' bump_policy_def quiet_def)
qed

lemma record_kick_calm: "record_kick env plan r = (res, r', sent) \<Longrightarrow> calm r r'"
  unfolding record_kick_def attempt_def
  by (auto split: if_splits sum.splits prod.splits intro: persist_room_calm keep_decision_quiet [THEN quiet_calm])

lemma record_kick_done: "record_kick env plan r = (Inr u, r', sent) \<Longrightarrow> quiet r r'"
  unfolding record_kick_def attempt_def
  by (auto split: if_splits sum.splits prod.splits dest: persist_room_keeps intro: keep_decision_quiet)

lemma finish_kick_calm:
  assumes "\<not> rp_ban (rq_publication plan)" and "finish_kick env plan r = (res, r', sent)"
  shows "calm r r'"
proof -
  obtain a q s where a: "record_kick env plan r = (a, q, s)" by (cases rule: prod_cases3)
  obtain ss r2 s2 where r2: "publish_removal (ce_closed env) (ce_ban_id env) (ce_later env) (ce_wall env) (rq_publication plan) q = (ss, r2, s2)"
    by (cases rule: prod_cases3)
  show ?thesis
  proof (cases a)
    case (Inl e)
    then show ?thesis using assms(2) a record_kick_calm [OF a] by (simp add: finish_kick_def)
  next
    case (Inr u)
    then have "quiet r q" using record_kick_done a by blast
    moreover have "r' = r2" using assms(2) a Inr r2 by (auto simp: finish_kick_def split: list.splits)
    ultimately show ?thesis using publish_kick_calm(1) [OF assms(1) r2] quiet_then_calm by blast
  qed
qed

section \<open>Members coming back and leaving\<close>

lemma remove_participant_inner_quiet: "remove_participant_inner closed i c r = (d, r', sent) \<Longrightarrow> quiet r r'"
  unfolding remove_participant_inner_def Let_def
  by (auto split: if_splits option.splits
      intro: quiet_remove_waiting quiet_trans [OF quiet_remove_waiting quiet_forget_member])

lemma replace_stale_member_quiet: "replace_stale_member closed i r = (r', sent) \<Longrightarrow> quiet r r'"
  using remove_participant_inner_quiet [of closed i _ r _ r' sent]
  by (auto simp: replace_stale_member_def remove_participant_for_sender_def split: option.splits if_splits)
    (metis prod.collapse)

lemma mark_participant_disconnected_quiet:
  "mark_participant_disconnected closed draining in_time i c r = (r', sent) \<Longrightarrow> quiet r r'"
  unfolding mark_participant_disconnected_def mark_disconnected_def Let_def
  by (auto split: if_splits option.splits intro!: quiet_put_member simp: member_calm_def)

lemma rebind_participant_sender_quiet:
  "rebind_participant_sender closed draining i subject c c' r = (res, r', sent) \<Longrightarrow> quiet r r'"
  unfolding rebind_participant_sender_def Let_def
  by (auto split: if_splits option.splits sum.splits bool.splits intro!: quiet_put_member simp: member_calm_def)

lemma calm_deleting: "calm r (bump_policy (r\<lparr>rm_deleting := True\<rparr>))"
  by (simp add: calm_defs bump_policy_def)

lemma evict_empty_room_calm: "evict_empty_room mapped r = (gone, r') \<Longrightarrow> calm r r'"
  by (auto simp: evict_empty_room_def calm_deleting split: if_splits)

lemma release_join_reservation_quiet: "release_join_reservation r = (last_one, r') \<Longrightarrow> quiet r r'"
  by (auto simp: release_join_reservation_def Let_def split: if_splits)

lemma release_failed_join_calm: "release_failed_join mapped r = (gone, r') \<Longrightarrow> calm r r'"
  unfolding release_failed_join_def Let_def
  by (auto split: if_splits prod.splits dest!: release_join_reservation_quiet
      intro: quiet_calm quiet_then_calm [OF _ calm_deleting])

section \<open>Lobby, settings and topic, before anything is published\<close>

lemma plan_admission_quiet: "plan_admission closed now maximum t r = (res, r', sent) \<Longrightarrow> quiet r r'"
  unfolding plan_admission_def attempt_def Let_def
  by (auto split: sum.splits option.splits if_splits prod.splits
      intro: quiet_prune quiet_trans [OF quiet_prune quiet_reserve_admin])

lemma deny_from_lobby_quiet: "deny_from_lobby now m c t reason r = (res, r', sent) \<Longrightarrow> quiet r r'"
  unfolding deny_from_lobby_def deny_authorized_lobby_def attempt_def Let_def
  by (auto split: sum.splits option.splits if_splits prod.splits dest!: quiet_reserve_admin
      intro: quiet_trans [OF _ quiet_remove_waiting])

lemma begin_settings_quiet: "begin_settings now m c patch r = (res, r', sent) \<Longrightarrow> quiet r r'"
  unfolding begin_settings_def attempt_def Let_def
  by (auto split: sum.splits option.splits if_splits prod.splits dest!: quiet_reserve_admin
      intro: quiet_trans [OF _ quiet_frame(7)])

lemma plan_settings_quiet: "plan_settings now m c patch reserved r = (res, r', sent) \<Longrightarrow> quiet r r'"
  unfolding plan_settings_def attempt_def Let_def
  by (auto split: sum.splits if_splits prod.splits dest!: quiet_reserve_admin)

lemma plan_topic_quiet: "plan_topic now m c topic r = (res, r', sent) \<Longrightarrow> quiet r r'"
  unfolding plan_topic_def attempt_def Let_def
  by (auto split: sum.splits if_splits prod.splits dest!: quiet_reserve_admin)

section \<open>Media\<close>

lemma reserve_media_mutation_quiet: "reserve_media_mutation_for_sender now i c k r = (res, r', sent) \<Longrightarrow> quiet r r'"
  unfolding reserve_media_mutation_for_sender_def Let_def by (auto split: sum.splits if_splits prod.splits)

lemma reserve_pause_quiet:
  "reserve_producer_pause_mutation_for_sender now i c k paused r = (res, r', sent) \<Longrightarrow> quiet r r'"
  unfolding reserve_producer_pause_mutation_for_sender_def Let_def
  by (auto split: sum.splits option.splits if_splits prod.splits)

lemma reserve_media_control_quiet: "reserve_media_control_ipc_for_sender now i c r = (res, r', sent) \<Longrightarrow> quiet r r'"
  unfolding reserve_media_control_ipc_for_sender_def Let_def by (auto split: sum.splits if_splits prod.splits)

lemma refunds_quiet: "quiet r (refund_media_mutation t r)" "quiet r (refund_media_control_ipc t r)"
  by (simp_all add: refund_media_mutation_def refund_media_control_ipc_def)

lemma commit_close_quiet:
  assumes "\<And>j. tget (rm_producer_to_participant r) k = Some j \<Longrightarrow> j = i" and "commit_close i c session k r = (res, r', sent)"
  shows "quiet r r'"
proof -
  have "quiet r (forget_producer i k r)"
    using calm_forget_producer [OF assms(1)] by (simp add: quiet_def) (simp add: forget_producer_def)
  then show ?thesis using assms(2) by (auto simp: commit_close_def Let_def split: if_splits)
qed

lemma commit_pause_quiet: "commit_pause i c session k paused r = (res, r', sent) \<Longrightarrow> quiet r r'"
  using calm_record_paused [of r i k paused]
  by (auto simp: commit_pause_def Let_def quiet_def record_producer_paused_def split: if_splits)

lemma map_of_fold_drop: "map_of (fold tdel ks t) k = (if k \<in> set ks then None else map_of t k)"
  by (induction ks arbitrary: t) auto

lemma table_wf_fold_drop: "table_wf t \<Longrightarrow> table_wf (fold tdel ks t)"
  by (induction ks arbitrary: t) auto

lemma quiet_forget_producers:
  assumes "tget (rm_participants r) i = Some p"
    and "\<And>k j. k \<in> set ks \<Longrightarrow> tget (rm_producer_to_participant r) k = Some j \<Longrightarrow> j = i"
  shows "quiet r (r\<lparr>rm_participants := tput i (p\<lparr>pt_producers := fold tdel ks (pt_producers p)\<rparr>) (rm_participants r),
                    rm_producer_to_participant := fold tdel ks (rm_producer_to_participant r)\<rparr>)"
    (is "quiet r ?r")
proof -
  have "room_wf ?r" if wf: "room_wf r"
  proof -
    have own: "k \<in> set ks \<Longrightarrow> j \<noteq> i \<Longrightarrow> tget (rm_participants r) j = Some q \<Longrightarrow> tget (pt_producers q) k = None" for j k q
      using assms(2) producer_owner [OF wf] unfolding contains_key_def by blast
    show ?thesis
      using wf assms(1) own unfolding room_wf_defs
      by (auto simp: contains_key_def map_of_fold_drop table_wf_fold_drop split: if_splits)
  qed
  then show ?thesis using assms(1)
    by (auto simp: quiet_def calm_defs member_calm_def map_of_fold_drop split: if_splits)
qed

lemma close_cam_commit_quiet:
  assumes "\<And>k j. k \<in> set ks \<Longrightarrow> tget (rm_producer_to_participant r) k = Some j \<Longrightarrow> j = i"
    and "close_cam_commit i session ks r = (res, r', sent)"
  shows "quiet r r'"
proof -
  define body where "body pid r = (let r' = r\<lparr>rm_producer_to_participant := tdel pid (rm_producer_to_participant r)\<rparr> in
     (r', broadcast_all (MsgForceClosedProducer pid ''Closed by moderator'') r' @ broadcast_all (MsgProducerClosed pid) r'))"
    for pid and r :: room
  have loop: "fst (for_each body ks q) = q\<lparr>rm_producer_to_participant := fold tdel ks (rm_producer_to_participant q)\<rparr>" for q
    by (induction ks arbitrary: q) (simp_all add: body_def Let_def split_beta)
  show ?thesis
  proof (cases "tget (rm_participants r) i")
    case (Some p)
    let ?q = "r\<lparr>rm_participants := tput i (p\<lparr>pt_producers := fold tdel ks (pt_producers p)\<rparr>) (rm_participants r)\<rparr>"
    have "r' = r \<or> r' = fst (for_each body ks ?q)"
      using assms(2) Some
      by (auto simp: close_cam_commit_def attempt_def body_def [abs_def] Let_def split_beta split: sum.splits if_splits)
    then show ?thesis using quiet_forget_producers [OF Some assms(1)] by (auto simp: loop)
  qed (use assms(2) in \<open>auto simp: close_cam_commit_def attempt_def split: sum.splits\<close>)
qed

end
