(* ===== verification/Live_Changes.thy ===== *)
theory Live_Changes
  imports Live_Steps
begin

text \<open>
  The operations that do change the room's policy or bring somebody in: published sanctions, bans,
  roles and settings, a new producer, a join and an admission. Each keeps the promise, against
  the record as it stands after the operation.
\<close>

lemma follow_bump [simp]:
  "sanctions_follow V (bump_policy r) = sanctions_follow V r" "bans_follow B (bump_policy r) = bans_follow B r"
  "media_ok (bump_policy r) = media_ok r"
proof -
  have p: "present (bump_policy r) = present r" by (simp add: bump_policy_def)
  show "sanctions_follow V (bump_policy r) = sanctions_follow V r" "bans_follow B (bump_policy r) = bans_follow B r"
    unfolding sanctions_follow_def bans_follow_def p by (simp_all add: bump_policy_def stored_sanction_def)
  have "record_allowed (bump_policy r) = record_allowed r"
    by (intro ext record_allowed_cong) (simp_all add: bump_policy_def)
  moreover have "broadcaster_limit (bump_policy r) = broadcaster_limit r"
    by (rule broadcaster_limit_cong) (simp_all add: bump_policy_def)
  ultimately show "media_ok (bump_policy r) = media_ok r"
    by (simp add: media_ok_def producers_authorized_def member_authorized_def within_broadcaster_limit_def
        broadcaster_count_def) (simp add: bump_policy_def)
qed

section \<open>Sanctions\<close>

lemma record_allowed_mono:
  "rm_settings r' = rm_settings r \<Longrightarrow> pt_role q = pt_role p \<Longrightarrow> (cam_banned (pt_punitive q) \<Longrightarrow> cam_banned (pt_punitive p)) \<Longrightarrow>
     record_allowed r p x \<Longrightarrow> record_allowed r' q x"
  by (cases "pr_source x"; cases "rm_settings r")
    (auto simp: record_allowed_def producer_allowed_without_capacity_def settings_forbid_def is_some_and_def can_produce_def
      split: if_splits)

lemma revoke_shrinks:
  assumes "room_wf r" and "revoke_unauthorized_producers f reason r = (vs, r', sent)"
  shows "shrinks r r'"
proof -
  have "\<exists>p. tget (rm_participants r) i = Some p \<and> member_calm p p'" if "tget (rm_participants r') i = Some p'" for i p'
    using revoke_kept [OF assms that] by (fastforce simp: member_calm_def drop_producers_def)
  moreover have "room_wf r'" by (rule revoke_unauthorized_producers_wf [OF assms])
  ultimately show ?thesis using revoke_keeps [OF assms] by (auto simp: shrinks_def)
qed

lemma revoke_rest:
  assumes wf: "room_wf r" and "revoke_unauthorized_producers f reason r = (vs, r', sent)"
  shows "rm_policy_revision r' = rm_policy_revision r" "rm_deleting r' = rm_deleting r"
    "rm_persisted r' = rm_persisted r" "rm_id r' = rm_id r"
proof -
  have "r' = fst (for_each (revoke_producer reason) (revoked_producers r f) r)"
    using assms(2) by (simp add: revoke_unauthorized_producers_def Let_def) (metis fst_conv)
  note r' = this [unfolded revoke_loop [OF room_wfD(1) [OF wf]]]
  show "rm_policy_revision r' = rm_policy_revision r" "rm_deleting r' = rm_deleting r"
    "rm_persisted r' = rm_persisted r" "rm_id r' = rm_id r"
    by (simp_all add: r')
qed

definition same_standing :: "room \<Rightarrow> room \<Rightarrow> bool" where
  "same_standing r r' \<longleftrightarrow>
     rm_policy_revision r' = rm_policy_revision r \<and> rm_deleting r' = rm_deleting r
     \<and> rm_persisted r' = rm_persisted r \<and> rm_id r' = rm_id r"

lemma revoke_each_effect:
  assumes "room_wf r" and "revoke_each reason ids r = (vs, r', sent)" and "authorized_except S r"
  shows "shrinks r r'" "authorized_except (S - set ids) r'" "same_standing r r'"
proof -
  have "shrinks r r' \<and> authorized_except (S - set ids) r' \<and> same_standing r r'"
    using assms
  proof (induction ids arbitrary: r S vs r' sent)
    case Nil
    then show ?case by (simp add: same_standing_def shrinks_def)
  next
    case (Cons i ids)
    obtain v1 r1 s1 where r1: "revoke_unauthorized_producers (Some i) reason r = (v1, r1, s1)"
      by (cases rule: prod_cases3)
    obtain v2 r2 s2 where r2: "revoke_each reason ids r1 = (v2, r2, s2)" by (cases rule: prod_cases3)
    note sh = revoke_shrinks [OF Cons.prems(1) r1]
    have "{j \<in> S. \<not> in_filter (Some i) j} = S - {i}" by (auto simp: in_filter_def)
    then have "authorized_except (S - {i}) r1" using revoke_authorized [OF Cons.prems(1) r1 Cons.prems(3)] by simp
    moreover have "S - {i} - set ids = S - set (i # ids)" by auto
    ultimately have "shrinks r1 r2" "authorized_except (S - set (i # ids)) r2" "same_standing r1 r2"
      using Cons.IH [OF shrinksD(1) [OF sh Cons.prems(1)] r2, of "S - {i}"] by simp_all
    moreover have "r' = r2" using Cons.prems(2) by (simp add: r1 r2)
    ultimately show ?case using shrinks_trans [OF sh] revoke_rest [OF Cons.prems(1) r1] by (simp add: same_standing_def)
  qed
  then show "shrinks r r'" "authorized_except (S - set ids) r'" "same_standing r r'" by blast+
qed

text \<open>What the cohort carries: never more than is recorded, and exactly that if anybody is there.\<close>

lemma fold_merge:
  "punitive_value (fold (\<lambda>i acc. case f i of Some p \<Rightarrow> merge_punitive_state acc (Some (g p)) | None \<Rightarrow> acc) ids s) k
     \<longleftrightarrow> punitive_value s k \<or> (\<exists>i \<in> set ids. \<exists>p. f i = Some p \<and> punitive_value (g p) k)"
  by (induction ids arbitrary: s) (auto simp: merge_punitive_value split: option.splits)

lemma cohort_value:
  "punitive_value (cohort_punitive r ids lids key) k \<longleftrightarrow>
     stored_sanction r key k
     \<or> (\<exists>i \<in> set ids. \<exists>p. tget (rm_participants r) i = Some p \<and> punitive_value (pt_punitive p) k)
     \<or> (\<exists>i \<in> set lids. \<exists>e. tget (rm_lobby r) i = Some e \<and> punitive_value (le_punitive e) k)"
  unfolding cohort_punitive_def Let_def fold_merge
  by (cases "tget (rm_sanctions r) key"; cases k) (auto simp: stored_sanction_def is_some_and_def punitive_default_def)

lemma follows_members:
  "sanctions_follow V r \<Longrightarrow> tget (rm_participants r) i = Some p \<Longrightarrow>
     punitive_value (pt_punitive p) k = V (sanction_key_for i (pt_authenticated p) (pt_ip p)) k"
  unfolding sanctions_follow_def by (metis (mono_tags, lifting) option.simps(5) present_def)

lemma follows_waiting:
  "sanctions_follow V r \<Longrightarrow> room_wf r \<Longrightarrow> tget (rm_lobby r) i = Some e \<Longrightarrow>
     punitive_value (le_punitive e) k = V (sanction_key_for i (le_authenticated e) (le_ip e)) k"
  using room_wf_waiting [of r i e] by (auto simp: sanctions_follow_def present_def)

lemma cohort_follows:
  assumes V: "sanctions_follow V r" and wf: "room_wf r" and covers: "sanction_covers pub r"
    and key: "key = sanction_key_for (sp_target pub) (sp_authenticated pub) (sp_ip pub)"
  defines "c \<equiv> cohort_punitive r (sp_participants pub) (sp_lobby pub) key"
  shows "punitive_value c k \<Longrightarrow> V key k"
    and "present r i = Some (a, ip, s) \<Longrightarrow> sanction_key_for i a ip = key \<Longrightarrow> punitive_value c k = V key k"
proof -
  have mem: "sanction_key_for i (pt_authenticated p) (pt_ip p) = key \<longleftrightarrow> i \<in> set (sp_participants pub)"
    if "tget (rm_participants r) i = Some p" for i p
    using covers that by (simp add: sanction_covers_def Let_def key)
  have wait: "sanction_key_for i (le_authenticated e) (le_ip e) = key \<longleftrightarrow> i \<in> set (sp_lobby pub)"
    if "tget (rm_lobby r) i = Some e" for i e
    using covers that by (simp add: sanction_covers_def Let_def key)
  show le: "punitive_value c k \<Longrightarrow> V key k"
    unfolding c_def cohort_value
  proof (elim disjE bexE exE conjE)
    show "stored_sanction r key k \<Longrightarrow> V key k" using V by (simp add: sanctions_follow_def)
  next
    fix i p assume "i \<in> set (sp_participants pub)" "tget (rm_participants r) i = Some p" "punitive_value (pt_punitive p) k"
    then show "V key k" using mem [of i p] follows_members [OF V, of i p k] by simp
  next
    fix i e assume "i \<in> set (sp_lobby pub)" "tget (rm_lobby r) i = Some e" "punitive_value (le_punitive e) k"
    then show "V key k" using wait [of i e] follows_waiting [OF V wf, of i e k] by simp
  qed
  assume here: "present r i = Some (a, ip, s)" and k: "sanction_key_for i a ip = key"
  from here have "punitive_value s k = V key k" using V k by (auto simp: sanctions_follow_def)
  moreover have "punitive_value s k \<Longrightarrow> punitive_value c k"
  proof (cases "tget (rm_participants r) i")
    case (Some p)
    then have "i \<in> set (sp_participants pub)" using mem [OF Some] here k by (simp add: present_def)
    then show "punitive_value s k \<Longrightarrow> punitive_value c k"
      using Some here unfolding c_def cohort_value by (auto simp: present_def)
  next
    case None
    then obtain e where e: "tget (rm_lobby r) i = Some e" using here by (auto simp: present_def)
    then have "i \<in> set (sp_lobby pub)" using wait [OF e] here k None by (simp add: present_def)
    then show "punitive_value s k \<Longrightarrow> punitive_value c k"
      using e here None unfolding c_def cohort_value by (auto simp: present_def)
  qed
  ultimately show "punitive_value c k = V key k" using le by blast
qed

definition after_sanction :: "sanction_publication \<Rightarrow> (sanction_key \<Rightarrow> punitive_kind \<Rightarrow> bool) \<Rightarrow> sanction_key \<Rightarrow> punitive_kind \<Rightarrow> bool" where
  "after_sanction pub recorded key kind =
     (if key = sanction_key_for (sp_target pub) (sp_authenticated pub) (sp_ip pub) \<and> kind = sp_kind pub
      then sp_enabled pub else recorded key kind)"

lemma apply_punitive_follows:
  assumes V: "sanctions_follow V r" and wf: "room_wf r" and covers: "sanction_covers pub r"
    and key: "key = sanction_key_for (sp_target pub) (sp_authenticated pub) (sp_ip pub)"
  defines "a \<equiv> apply_punitive_to_cohort (sp_participants pub) (sp_lobby pub) key (sp_kind pub) (sp_enabled pub) r"
  shows "sanctions_follow (after_sanction pub V) (snd a)"
proof -
  have val: "punitive_value (fst a) k = (if k = sp_kind pub then sp_enabled pub
      else punitive_value (cohort_punitive r (sp_participants pub) (sp_lobby pub) key) k)" for k
    by (simp add: a_def apply_punitive_to_cohort_def Let_def punitive_value_set)
  note pres = apply_punitive_present [OF covers key, of "sp_kind pub" "sp_enabled pub", folded a_def]
  note stored = apply_punitive_stored [of "sp_participants pub" "sp_lobby pub" key "sp_kind pub" "sp_enabled pub" r, folded a_def]
  note co = cohort_follows [OF V wf covers key]
  have "punitive_value s k = after_sanction pub V (sanction_key_for i b ip) k"
    if here: "present (snd a) i = Some (b, ip, s)" for i b ip s k
  proof -
    from here pres [of i] obtain s0 where s0: "present r i = Some (b, ip, s0)"
      "s = (if sanction_key_for i b ip = key then fst a else s0)" by auto
    moreover have "punitive_value s0 k = V (sanction_key_for i b ip) k" using s0(1) V by (auto simp: sanctions_follow_def)
    ultimately show ?thesis using co(2) [OF s0(1), of k] by (auto simp: val after_sanction_def key)
  qed
  moreover have "after_sanction pub V key' k" if "stored_sanction (snd a) key' k" for key' k
    using that co(1) [of k] V by (auto simp: stored val after_sanction_def key sanctions_follow_def split: if_splits)
  ultimately show ?thesis by (auto simp: sanctions_follow_def)
qed

lemma apply_punitive_media:
  assumes safe: "room_safe r" and V: "sanctions_follow V r" and media: "media_ok r" and covers: "sanction_covers pub r"
    and key: "key = sanction_key_for (sp_target pub) (sp_authenticated pub) (sp_ip pub)"
  defines "a \<equiv> apply_punitive_to_cohort (sp_participants pub) (sp_lobby pub) key (sp_kind pub) (sp_enabled pub) r"
  shows "authorized_except (if sp_kind pub = CamBanned \<and> sp_enabled pub then set (sp_participants pub) else {}) (snd a)"
    and "within_broadcaster_limit (snd a)"
proof -
  note wf = room_safe_wf [OF safe]
  have wf': "room_wf (snd a)" unfolding a_def by (rule apply_punitive_wf [OF wf])
  have mem: "\<exists>p. tget (rm_participants r) i = Some p \<and> pt_producers q = pt_producers p \<and> pt_role q = pt_role p
      \<and> (i \<in> set (sp_participants pub) \<and> sp_kind pub = CamBanned \<and> sp_enabled pub
         \<or> (cam_banned (pt_punitive q) \<longrightarrow> cam_banned (pt_punitive p)))"
    if q: "tget (rm_participants (snd a)) i = Some q" for i q
  proof -
    obtain p where p: "tget (rm_participants r) i = Some p"
      "q = (if i \<in> set (sp_participants pub) then p\<lparr>pt_punitive := fst a\<rparr> else p)"
      using q unfolding a_def apply_punitive_members by (auto split: if_splits)
    have "cam_banned (pt_punitive p)" if i: "i \<in> set (sp_participants pub)" "\<not> (sp_kind pub = CamBanned \<and> sp_enabled pub)"
      and cam: "cam_banned (fst a)"
    proof -
      have "sp_kind pub \<noteq> CamBanned" and "punitive_value (cohort_punitive r (sp_participants pub) (sp_lobby pub) key) CamBanned"
        using i(2) cam punitive_value_set [of "sp_kind pub" "sp_enabled pub" _ CamBanned]
        by (auto simp: a_def apply_punitive_to_cohort_def Let_def split: if_splits)
      from cohort_follows(1) [OF V wf covers key this(2)] have "V key CamBanned" .
      moreover have "sanction_key_for i (pt_authenticated p) (pt_ip p) = key"
        using covers i(1) p(1) by (simp add: sanction_covers_def Let_def key)
      ultimately show ?thesis using follows_members [OF V p(1), of CamBanned] by simp
    qed
    then show ?thesis using p by auto
  qed
  have set: "rm_settings (snd a) = rm_settings r" "rm_broadcaster_ceiling (snd a) = rm_broadcaster_ceiling r"
    by (simp_all add: a_def apply_punitive_to_cohort_def Let_def)
  show "within_broadcaster_limit (snd a)"
  proof (rule within_limit_fewer [OF _ wf wf'])
    show "within_broadcaster_limit r" using media by (simp add: media_ok_def)
    show "broadcaster_limit (snd a) = broadcaster_limit r" using set by (rule broadcaster_limit_cong)
  qed (use mem in fastforce)
  have ok: "record_allowed r p x" if "tget (rm_participants r) i = Some p" "tget (pt_producers p) k = Some x" for i p k x
    using media that by (simp add: media_ok_def producers_authorized_def member_authorized_def)
  show "authorized_except (if sp_kind pub = CamBanned \<and> sp_enabled pub then set (sp_participants pub) else {}) (snd a)"
    unfolding authorized_except_def member_authorized_def
  proof (intro allI impI)
    fix i q k x assume q: "tget (rm_participants (snd a)) i = Some q" and x: "tget (pt_producers q) k = Some x"
      and i: "i \<notin> (if sp_kind pub = CamBanned \<and> sp_enabled pub then set (sp_participants pub) else {})"
    from mem [OF q] obtain p where p: "tget (rm_participants r) i = Some p" "pt_producers q = pt_producers p"
      "pt_role q = pt_role p" "cam_banned (pt_punitive q) \<longrightarrow> cam_banned (pt_punitive p)" using i by (auto split: if_splits)
    from record_allowed_mono [OF set(1) p(3) _ ok [OF p(1)]] show "record_allowed (snd a) q x" using p(2,4) x by simp
  qed
qed

lemma publish_sanction_promise:
  assumes promise: "promise V B r" and covers: "sanction_covers pub r" and "publish_sanction closed pub r = (vs, r', sent)"
  shows "promise (after_sanction pub V) B r'" and "rm_policy_revision r' = rm_policy_revision r + 1"
    and "rm_deleting r' = rm_deleting r \<and> rm_persisted r' = rm_persisted r \<and> rm_id r' = rm_id r"
proof -
  have safe: "room_safe r" and V: "sanctions_follow V r" and B: "bans_follow B r" and media: "media_ok r"
    using promise by (simp_all add: promise_def)
  define key where "key = sanction_key_for (sp_target pub) (sp_authenticated pub) (sp_ip pub)"
  define r1 where "r1 = snd (apply_punitive_to_cohort (sp_participants pub) (sp_lobby pub) key (sp_kind pub) (sp_enabled pub) r)"
  note wf = room_safe_wf [OF safe]
  have wf1: "room_wf r1" unfolding r1_def by (rule apply_punitive_wf [OF wf])
  define S where "S = (if sp_kind pub = CamBanned \<and> sp_enabled pub then set (sp_participants pub) else {})"
  have m1: "authorized_except S r1" "within_broadcaster_limit r1"
    unfolding r1_def S_def by (rule apply_punitive_media [OF safe V media covers key_def])+
  have V1: "sanctions_follow (after_sanction pub V) r1"
    unfolding r1_def by (rule apply_punitive_follows [OF V wf covers key_def])
  have B1: "bans_follow B r1"
    using B apply_punitive_present [OF covers key_def] unfolding bans_follow_def r1_def by fastforce
  obtain v2 r2 s2 where r2: "(if sp_kind pub = CamBanned \<and> sp_enabled pub
       then revoke_each ''Camera access revoked by moderator'' (sp_participants pub) r1 else ([], r1, [])) = (v2, r2, s2)"
    by (cases rule: prod_cases3)
  have r': "r' = bump_policy r2"
    using assms(3) r2 [unfolded r1_def key_def] by (simp add: publish_sanction_def Let_def split_beta)
  have step: "shrinks r1 r2 \<and> authorized_except {} r2 \<and> same_standing r1 r2"
  proof (cases "sp_kind pub = CamBanned \<and> sp_enabled pub")
    case True
    then have "revoke_each ''Camera access revoked by moderator'' (sp_participants pub) r1 = (v2, r2, s2)"
      using r2 by simp
    from revoke_each_effect [OF wf1 this m1(1)] show ?thesis using True by (simp add: S_def)
  qed (use r2 m1(1) in \<open>auto simp: S_def same_standing_def shrinks_def\<close>)
  then have "sanctions_follow (after_sanction pub V) r2" "bans_follow B r2" "media_ok r2"
    using shrinks_sanctions [OF _ wf1 V1] shrinks_bans [OF _ wf1 B1] shrinks_within [OF _ wf1 m1(2)]
    by (simp_all add: media_ok_def authorized_except_none)
  then show "promise (after_sanction pub V) B r'"
    using publish_sanction_safe [OF safe covers assms(3)] by (simp add: promise_def r')
  have "same_standing r r1" by (simp add: r1_def same_standing_def apply_punitive_to_cohort_def Let_def)
  then show "rm_policy_revision r' = rm_policy_revision r + 1"
    "rm_deleting r' = rm_deleting r \<and> rm_persisted r' = rm_persisted r \<and> rm_id r' = rm_id r"
    using step by (simp_all add: r' same_standing_def bump_policy_def)
qed

section \<open>Bans\<close>

definition ban_names :: "sanction_key \<Rightarrow> removal_publication \<Rightarrow> room \<Rightarrow> bool" where
  "ban_names key pub r \<longleftrightarrow>
     (\<forall>i p. tget (rm_participants r) i = Some p \<longrightarrow> sanction_key_for i (pt_authenticated p) (pt_ip p) = key \<longrightarrow>
        i \<in> set (rp_participants pub))
     \<and> (\<forall>i e. tget (rm_lobby r) i = Some e \<longrightarrow> sanction_key_for i (le_authenticated e) (le_ip e) = key \<longrightarrow>
        i \<in> set (rp_lobby pub))"

lemma publish_removal_shrinks:
  assumes "room_wf r" and "publish_removal closed b now wall pub r = (ss, r', sent)"
  shows "shrinks r r'"
proof -
  note room = publish_removal_room [OF assms]
  have "tget (rm_participants r') i = Some p \<Longrightarrow> tget (rm_participants r) i = Some p"
    and "tget (rm_lobby r') i = Some e \<Longrightarrow> tget (rm_lobby r) i = Some e" for i p e
    using room(2,3) [of i] by (auto split: if_splits)
  then show ?thesis using room(1,6-8) by (auto simp: shrinks_def intro: member_calm_refl waiting_calm_refl)
qed

lemma publish_removal_standing:
  assumes "publish_removal closed b now wall pub r = (ss, r', sent)"
  shows "rm_policy_revision r' = rm_policy_revision r + 1"
    and "rm_deleting r' = rm_deleting r \<and> rm_persisted r' = rm_persisted r \<and> rm_id r' = rm_id r"
proof -
  have forget: "same_standing q (forget_member i q)" for i and q :: room
    by (simp add: same_standing_def forget_member_def split: option.splits)
  have loop: "same_standing q (fst (for_each f xs q))" if "\<And>x q. same_standing q (fst (f x q))"
    for f :: "participant_id \<Rightarrow> room \<Rightarrow> room \<times> effect list" and xs q
    by (rule for_each_keeps) (use that in \<open>auto simp: same_standing_def\<close>)
  define r1 where "r1 = (if rp_ban pub then remember_ban b now wall pub r else r)"
  define r2 where "r2 = fst (for_each (remove_one closed pub) (rp_participants pub) r1)"
  define notice where "notice = MsgLobbyDenied (Some (unwrap_or (rp_reason pub) ''Banned from room''))"
  define r3 where "r3 = (if rp_ban pub then fst (for_each (deny_one notice) (rp_lobby pub) r2) else r2)"
  have r': "r' = bump_policy r3"
    using assms unfolding publish_removal_def Let_def r3_def r2_def r1_def notice_def
    by (cases "rp_ban pub") (simp_all add: split_beta)
  have "same_standing r r1"
    by (auto simp: r1_def same_standing_def remember_ban_def record_banned_cohort_def Let_def split: option.splits)
  moreover have "same_standing r1 r2" unfolding r2_def by (rule loop) (simp add: remove_one_room forget)
  moreover have "same_standing r2 r3"
    unfolding r3_def using loop [of "deny_one notice"] by (auto simp: same_standing_def deny_one_def split: option.splits)
  ultimately show "rm_policy_revision r' = rm_policy_revision r + 1"
    "rm_deleting r' = rm_deleting r \<and> rm_persisted r' = rm_persisted r \<and> rm_id r' = rm_id r"
    by (simp_all add: r' same_standing_def bump_policy_def)
qed

lemma publish_ban_promise:
  assumes "promise V B r" and ban: "rp_ban pub" and "removal_covers pub r" and names: "ban_names key pub r"
    and r': "publish_removal closed b now wall pub r = (ss, r', sent)"
  shows "promise V (\<lambda>k. k = key \<or> B k) r'"
proof -
  have safe: "room_safe r" and V: "sanctions_follow V r" and B: "bans_follow B r" and media: "media_ok r"
    using assms(1) by (simp_all add: promise_def)
  note wf = room_safe_wf [OF safe]
  note sh = publish_removal_shrinks [OF wf r']
  have "bans_follow (\<lambda>k. k = key \<or> B k) r'"
    unfolding bans_follow_def
  proof (intro allI impI)
    fix i a ip s assume here: "present r' i = Some (a, ip, s)"
    note gone = publish_removal_present [OF wf r' here]
    from gone(1) have "sanction_key_for i a ip \<noteq> key"
    proof (rule present_member_or_waiting)
      fix p assume "tget (rm_participants r) i = Some p" "a = pt_authenticated p" "ip = pt_ip p"
      then show ?thesis using gone(2) names by (auto simp: ban_names_def)
    next
      fix e assume "tget (rm_lobby r) i = Some e" "a = le_authenticated e" "ip = le_ip e"
      then show ?thesis using gone(3) [OF ban] names by (auto simp: ban_names_def)
    qed
    then show "\<not> (sanction_key_for i a ip = key \<or> B (sanction_key_for i a ip))"
      using gone(1) B by (auto simp: bans_follow_def)
  qed
  then show ?thesis
    using publish_removal_safe [OF safe assms(3) r'] shrinks_sanctions [OF sh wf V] shrinks_media [OF sh wf media]
    by (simp add: promise_def)
qed

section \<open>Roles\<close>

lemma publish_role_promise:
  assumes "promise V B r" and "publish_role closed t new_role m r = (vs, r', sent)"
  shows "promise V B r'" and "rm_policy_revision r' = rm_policy_revision r + 1"
    and "rm_deleting r' = rm_deleting r \<and> rm_persisted r' = rm_persisted r \<and> rm_id r' = rm_id r"
proof -
  have safe: "room_safe r" and V: "sanctions_follow V r" and B: "bans_follow B r" and media: "media_ok r"
    using assms(1) by (simp_all add: promise_def)
  define r1 where "r1 = bump_policy (set_member_role_in t new_role r)"
  obtain v2 r2 s2 where r2: "revoke_unauthorized_producers (Some t) ''Role no longer permits this producer'' r1 = (v2, r2, s2)"
    by (cases rule: prod_cases3)
  have r': "r' = r2" using assms(2) r2 by (simp add: publish_role_def Let_def split_beta r1_def)
  have wf1: "room_wf r1"
    using room_safe_wf [OF safe] by (simp add: r1_def) (auto simp: set_member_role_in_def room_wf_defs)
  have mem: "\<exists>p. tget (rm_participants r) i = Some p \<and> q = (if i = t then p\<lparr>pt_role := new_role\<rparr> else p)"
    if "tget (rm_participants r1) i = Some q" for i q
    using that by (auto simp: r1_def bump_policy_def set_member_role_in_def split: if_splits)
  have pres: "present r1 = present r"
    by (auto simp: r1_def bump_policy_def set_member_role_in_def present_def fun_eq_iff option.map_comp comp_def
        split: option.splits)
  have same: "rm_settings r1 = rm_settings r" "rm_broadcaster_ceiling r1 = rm_broadcaster_ceiling r"
    "stored_sanction r1 = stored_sanction r"
    by (simp_all add: r1_def bump_policy_def set_member_role_in_def stored_sanction_def fun_eq_iff)
  have "record_allowed r1 p x" if "tget (rm_participants r1) i = Some p" "i \<noteq> t" "tget (pt_producers p) k = Some x" for i p k x
    using media mem [OF that(1)] that(2,3) record_allowed_cong [OF same(1), of p p x]
    by (auto simp: media_ok_def producers_authorized_def member_authorized_def)
  then have "authorized_except {t} r1" by (auto simp: authorized_except_def member_authorized_def)
  note sh = revoke_shrinks [OF wf1 r2]
  from revoke_authorized [OF wf1 r2 \<open>authorized_except {t} r1\<close>] have "producers_authorized r2"
    by (simp add: in_filter_def authorized_except_none [symmetric])
  moreover have "within_broadcaster_limit r1"
  proof (rule within_limit_fewer [OF _ room_safe_wf [OF safe] wf1])
    show "within_broadcaster_limit r" using media by (simp add: media_ok_def)
    show "broadcaster_limit r1 = broadcaster_limit r" using same(1,2) by (rule broadcaster_limit_cong)
    show "\<exists>p. tget (rm_participants r) i = Some p \<and> pt_producers p \<noteq> []"
      if "tget (rm_participants r1) i = Some q" "pt_producers q \<noteq> []" for i q
      using mem [OF that(1)] that(2) by (auto split: if_splits)
  qed
  then have "within_broadcaster_limit r2" by (rule shrinks_within [OF sh wf1])
  moreover have "sanctions_follow V r1" "bans_follow B r1" using V B by (simp_all add: sanctions_follow_def bans_follow_def pres same(3))
  then have "sanctions_follow V r2" "bans_follow B r2" using shrinks_sanctions [OF sh wf1] shrinks_bans [OF sh wf1] by blast+
  ultimately show "promise V B r'" using publish_role_safe [OF safe assms(2)] by (simp add: promise_def media_ok_def r')
  show "rm_policy_revision r' = rm_policy_revision r + 1"
    "rm_deleting r' = rm_deleting r \<and> rm_persisted r' = rm_persisted r \<and> rm_id r' = rm_id r"
    unfolding r' revoke_rest [OF wf1 r2] by (simp_all add: r1_def bump_policy_def set_member_role_in_def)
qed

section \<open>Settings and the topic\<close>

lemma policy_changed_promise:
  assumes "promise V B r"
  shows "room_safe (r\<lparr>rm_password_hash := h, rm_settings := st\<rparr>)"
    and "sanctions_follow V (r\<lparr>rm_password_hash := h, rm_settings := st\<rparr>)"
    and "bans_follow B (r\<lparr>rm_password_hash := h, rm_settings := st\<rparr>)"
  using assms by (simp_all add: promise_def sanctions_follow_def bans_follow_def stored_sanction_def)

lemma publish_settings_promise:
  assumes "promise V B r" and "publish_settings updated h r = (res, r', sent)"
  shows "promise V B r'"
    and "r' = r \<or> rm_policy_revision r' = rm_policy_revision r + 1"
    and "rm_deleting r' = rm_deleting r \<and> rm_persisted r' = rm_persisted r \<and> rm_id r' = rm_id r"
proof -
  define r1 where "r1 = bump_policy (r\<lparr>rm_password_hash := keep h (rm_password_hash r), rm_settings := Some updated\<rparr>)"
  obtain v2 r2 s2 where r2: "revoke_unauthorized_producers None ''Room policy no longer permits this producer'' r1 = (v2, r2, s2)"
    by (cases rule: prod_cases3)
  have "r' = r \<or> r' = r2"
    using assms(2) r2 by (auto simp: publish_settings_def attempt_def Let_def split_beta r1_def split: sum.splits)
  moreover have p1: "room_safe r1" "sanctions_follow V r1" "bans_follow B r1"
    using policy_changed_promise [OF assms(1)] by (simp_all add: r1_def)
  note wf1 = room_safe_wf [OF p1(1)]
  note sh = revoke_shrinks [OF wf1 r2]
  have "producers_authorized r2"
    using revoke_authorized [OF wf1 r2, of UNIV] by (simp add: in_filter_def authorized_except_none) (simp add: authorized_except_def)
  then have "promise V B r2"
    using revoke_all_within [OF wf1 r2] shrinks_sanctions [OF sh wf1 p1(2)] shrinks_bans [OF sh wf1 p1(3)]
      revoke_keeps_safe [OF p1(1) r2] by (simp add: promise_def media_ok_def)
  moreover have "rm_policy_revision r2 = rm_policy_revision r + 1"
    "rm_deleting r2 = rm_deleting r \<and> rm_persisted r2 = rm_persisted r \<and> rm_id r2 = rm_id r"
    unfolding revoke_rest [OF wf1 r2] by (simp_all add: r1_def bump_policy_def)
  ultimately show "promise V B r'" "r' = r \<or> rm_policy_revision r' = rm_policy_revision r + 1"
    "rm_deleting r' = rm_deleting r \<and> rm_persisted r' = rm_persisted r \<and> rm_id r' = rm_id r"
    using assms(1) by auto
qed

lemma topic_policy:
  assumes "rm_settings r' = Some ((current_settings r)\<lparr>rs_topic := topic\<rparr>)"
  shows "record_allowed r' p x = record_allowed r p x"
    and "rm_broadcaster_ceiling r' = rm_broadcaster_ceiling r \<Longrightarrow> broadcaster_limit r' = broadcaster_limit r"
proof -
  show "record_allowed r' p x = record_allowed r p x"
    using assms by (cases "rm_settings r"; cases "pr_source x")
      (simp_all add: record_allowed_def producer_allowed_without_capacity_def settings_forbid_def
        is_some_and_def current_settings_def settings_defaults_def)
  show "rm_broadcaster_ceiling r' = rm_broadcaster_ceiling r \<Longrightarrow> broadcaster_limit r' = broadcaster_limit r"
    using assms by (cases "rm_settings r") (simp_all add: current_settings_def settings_defaults_def broadcaster_limit_def)
qed

lemma publish_topic_promise:
  assumes "promise V B r" and "publish_topic m topic r = (res, r', sent)"
  shows "promise V B r'" and "rm_policy_revision r' = rm_policy_revision r"
    and "rm_deleting r' = rm_deleting r \<and> rm_persisted r' = rm_persisted r \<and> rm_id r' = rm_id r"
proof -
  let ?r = "r\<lparr>rm_settings := Some ((current_settings r)\<lparr>rs_topic := Some topic\<rparr>)\<rparr>"
  have r': "r' = r \<or> r' = ?r"
    using assms(2) by (auto simp: publish_topic_def attempt_def Let_def split: sum.splits)
  have "record_allowed ?r p x = record_allowed r p x" "broadcaster_limit ?r = broadcaster_limit r" for p x
    by (rule topic_policy; simp)+
  then have "media_ok ?r = media_ok r"
    by (simp add: media_ok_def producers_authorized_def member_authorized_def within_broadcaster_limit_def broadcaster_count_def)
  moreover have "?r = r\<lparr>rm_password_hash := rm_password_hash r, rm_settings := rm_settings ?r\<rparr>" by simp
  ultimately have "promise V B ?r"
    using assms(1) policy_changed_promise [OF assms(1), where h = "rm_password_hash r" and st = "rm_settings ?r"] by (simp add: promise_def)
  then show "promise V B r'" "rm_policy_revision r' = rm_policy_revision r"
    "rm_deleting r' = rm_deleting r \<and> rm_persisted r' = rm_persisted r \<and> rm_id r' = rm_id r"
    using assms(1) r' by auto
qed

section \<open>A new producer\<close>

lemma commit_producer_promise:
  assumes promise: "promise V B r" and fresh: "tget (rm_producer_to_participant r) k = None"
    and "commit_producer i c session kind source k r = (res, r', sent)"
  shows "promise V B r'" and "same_standing r r'"
proof -
  let ?x = "\<lparr>pr_kind = kind, pr_source = Some source, pr_paused = False\<rparr>"
  have safe: "room_safe r" and media: "media_ok r" using promise by (simp_all add: promise_def)
  note wf = room_safe_wf [OF safe]
  have cases: "r' = r \<or> (\<exists>p. tget (rm_participants r) i = Some p \<and> participant_can_produce r p kind source \<and> r' = add_producer i k ?x r)"
    using assms(3) by (auto simp: commit_producer_def Let_def is_some_and_def split: sum.splits if_splits option.splits)
  have "promise V B (add_producer i k ?x r)"
    if p: "tget (rm_participants r) i = Some p" and can: "participant_can_produce r p kind source" for p
  proof -
    let ?r = "add_producer i k ?x r"
    have mem: "tget (rm_participants ?r) j = (if j = i then Some (p\<lparr>pt_producers := tput k ?x (pt_producers p)\<rparr>) else tget (rm_participants r) j)" for j
      using p by (simp add: add_producer_def)
    have same: "rm_settings ?r = rm_settings r" "rm_broadcaster_ceiling ?r = rm_broadcaster_ceiling r"
      "stored_sanction ?r = stored_sanction r" "rm_lobby ?r = rm_lobby r" "rm_banned_participants ?r = rm_banned_participants r"
      "rm_banned_guest_ips ?r = rm_banned_guest_ips r"
      by (simp_all add: add_producer_def stored_sanction_def fun_eq_iff)
    have pres: "present ?r = present r" using p by (auto simp: present_def mem same fun_eq_iff split: option.splits)
    have wf': "room_wf ?r" by (rule room_wf_add_producer [OF wf p fresh])
    have "room_safe ?r" by (rule room_safe_same [OF safe wf' pres same(5,6)]) (simp add: add_producer_def)
    moreover have "producers_authorized ?r"
      unfolding producers_authorized_def member_authorized_def
    proof (intro allI impI)
      fix j q l y assume q: "tget (rm_participants ?r) j = Some q" and y: "tget (pt_producers q) l = Some y"
      have "record_allowed r p ?x" using can by (simp add: participant_can_produce_def record_allowed_def is_some_and_def)
      moreover obtain p0 where "tget (rm_participants r) j = Some p0" "pt_punitive q = pt_punitive p0" "pt_role q = pt_role p0"
          "tget (pt_producers p0) l = Some y \<or> p0 = p \<and> y = ?x"
        using q y p by (auto simp: mem split: if_splits)
      ultimately show "record_allowed ?r q y"
        using media record_allowed_cong [OF same(1), of q p0 y]
        by (auto simp: media_ok_def producers_authorized_def member_authorized_def)
    qed
    moreover have "within_broadcaster_limit ?r"
      unfolding within_broadcaster_limit_def
    proof (intro allI impI)
      fix n assume "broadcaster_limit ?r = Some n"
      then have n: "broadcaster_limit r = Some n" using broadcaster_limit_cong [OF same(1,2)] by simp
      let ?S = "\<lambda>r. {i. \<exists>p. tget (rm_participants r) i = Some p \<and> pt_producers p \<noteq> []}"
      have "tput k ?x (pt_producers p) \<noteq> []" unfolding table_nonempty by auto
      then have "?S ?r = insert i (?S r)" using p by (auto simp: mem)
      moreover have "card (?S r) \<le> n" "pt_producers p = [] \<Longrightarrow> card (?S r) < n"
        using media n can unfolding broadcaster_count_card [OF wf, symmetric]
        by (auto simp: media_ok_def within_broadcaster_limit_def participant_can_produce_def is_some_and_def)
      moreover have "i \<in> ?S r \<longleftrightarrow> pt_producers p \<noteq> []" using p by simp
      ultimately have "card (?S ?r) \<le> n"
        using finite_members [of r "\<lambda>p. pt_producers p \<noteq> []"] by (cases "pt_producers p = []") (simp_all add: insert_absorb)
      then show "broadcaster_count ?r \<le> n" by (simp add: broadcaster_count_card [OF wf'])
    qed
    ultimately show ?thesis
      using promise by (simp add: promise_def media_ok_def sanctions_follow_def bans_follow_def pres same(3))
  qed
  then show "promise V B r'" using cases promise by blast
  show "same_standing r r'" using cases by (auto simp: same_standing_def add_producer_def)
qed

end
