(* ===== verification/Live_Joins.thy ===== *)
theory Live_Joins
  imports Live_Changes
begin

text \<open>
  Joins and lobby admissions keep the room's promise, provided what the join was granted agrees
  with the sanctions and bans on record at the moment it commits.
\<close>

lemma media_newcomer:
  assumes media: "media_ok r" and "room_wf r" and "room_wf r'"
    and same: "rm_settings r' = rm_settings r" "rm_broadcaster_ceiling r' = rm_broadcaster_ceiling r"
    and mem: "\<And>i p'. tget (rm_participants r') i = Some p' \<Longrightarrow> pt_producers p' \<noteq> [] \<Longrightarrow> tget (rm_participants r) i = Some p'"
  shows "media_ok r'"
proof -
  have "record_allowed r' p x" if "tget (rm_participants r') i = Some p" "tget (pt_producers p) k = Some x" for i p k x
  proof -
    have "tget (rm_participants r) i = Some p" using mem [OF that(1)] that(2) by (auto simp: table_nonempty)
    then show ?thesis using media that(2) record_allowed_cong [OF same(1), of p p x]
      by (auto simp: media_ok_def producers_authorized_def member_authorized_def)
  qed
  moreover have "within_broadcaster_limit r'"
    by (rule within_limit_fewer [OF _ assms(2,3) broadcaster_limit_cong [OF same]])
      (use media mem in \<open>auto simp: media_ok_def\<close>)
  ultimately show ?thesis by (auto simp: media_ok_def producers_authorized_def member_authorized_def)
qed

lemma newcomer_follows:
  assumes "sanctions_follow V r" and "bans_follow B r" and here: "present r' = (present r)(i \<mapsto> (a, ip, s))"
    and "\<And>k. punitive_value s k = V (sanction_key_for i a ip) k" and "\<not> B (sanction_key_for i a ip)"
    and "\<And>key k. stored_sanction r' key k \<Longrightarrow> stored_sanction r key k \<or> key = sanction_key_for i a ip \<and> punitive_value s k"
  shows "sanctions_follow V r'" and "bans_follow B r'"
proof -
  have "V key k" if "stored_sanction r' key k" for key k
    using assms(6) [OF that] assms(1,4) by (auto simp: sanctions_follow_def)
  then show "sanctions_follow V r'" using assms(1,4) by (auto simp: sanctions_follow_def here)
  show "bans_follow B r'" using assms(2,5) by (auto simp: bans_follow_def here)
qed

lemma with_sanction_origin:
  "stored_sanction (with_sanction key s r) k kind \<Longrightarrow> stored_sanction r k kind \<or> k = key \<and> punitive_value s kind"
  by (auto simp: with_sanction_def stored_sanction_def is_some_and_def split: if_splits)

definition knows :: "(sanction_key \<Rightarrow> punitive_kind \<Rightarrow> bool) \<Rightarrow> (sanction_key \<Rightarrow> bool) \<Rightarrow> sanction_key \<Rightarrow> join_grant \<Rightarrow> room \<Rightarrow> bool" where
  \<comment> \<open>what a join was granted agrees with the record\<close>
  "knows recorded banned key grant r \<longleftrightarrow>
     \<not> banned key \<and> (\<forall>kind. recorded key kind \<longleftrightarrow> punitive_value (jg_punitive grant) kind \<or> stored_sanction r key kind)"

lemma enter_lobby_room:
  "enter_lobby env req grant name role s q = (res, r', sent) \<Longrightarrow>
     \<exists>e. r' = complete_locked (q\<lparr>rm_lobby := tput (jq_participant_id req) e (rm_lobby q)\<rparr>)"
  by (auto simp: enter_lobby_def Let_def split: prod.splits)

lemma enter_room_room:
  "enter_room env req pf grant name role s q = (res, r', sent) \<Longrightarrow>
     \<exists>m. r' = complete_locked (q\<lparr>rm_participants := tput (jq_participant_id req) m (rm_participants q)\<rparr>) \<and> pt_producers m = []"
  by (auto simp: enter_room_def Let_def)

lemma entry_frame:
  "same_standing r (complete_locked r)" "same_standing r (with_sanction key s r)"
  "rm_broadcaster_ceiling (complete_locked r) = rm_broadcaster_ceiling r"
  "rm_broadcaster_ceiling (with_sanction key s r) = rm_broadcaster_ceiling r"
  "stored_sanction (complete_locked r) = stored_sanction r"
  by (simp_all add: same_standing_def complete_locked_def with_sanction_def stored_sanction_def fun_eq_iff)

lemma join_commit_promise:
  assumes promise: "promise V B r" and commit: "join_commit env req snap grant pf r = Some (res, r', sent)"
    and known: "policy_snapshot_matches r (js_policy_revision snap) \<Longrightarrow>
      knows V B (sanction_key_for (jq_participant_id req) (jq_authenticated req) (jq_client_ip req)) grant r"
  shows "promise V B r'" and "same_standing r r'"
proof -
  have "promise V B r' \<and> same_standing r r'"
    using commit
  proof (cases rule: join_commit_cases)
    case (Refused e)
    then show ?thesis using promise calm_promise [OF quiet_calm [OF quiet_prune] promise]
      by (auto simp: same_standing_def prune_expired_bans_def Let_def)
  next
    case (Admitted q key s name role)
    let ?i = "jq_participant_id req" and ?q = "with_sanction key s q"
    have q: "promise V B q" using calm_promise [OF quiet_calm [OF quiet_prune] promise] by (simp add: Admitted(1))
    then have safe: "room_safe q" and V: "sanctions_follow V q" and B: "bans_follow B q" and media: "media_ok q"
      by (simp_all add: promise_def)
    have st: "stored_sanction q = stored_sanction r" "same_standing r q"
      by (simp_all add: Admitted(1) stored_sanction_def same_standing_def prune_expired_bans_def Let_def fun_eq_iff)
    have val: "punitive_value s k = V key k" for k
      using known [OF Admitted(2)] unfolding knows_def Admitted(6) [symmetric] st(1) [symmetric]
      by (auto simp: Admitted(7) merge_punitive_value stored_sanction_def is_some_and_def split: option.splits)
    have free: "\<not> B key" using known [OF Admitted(2)] by (simp add: knows_def Admitted(6))
    note gone = join_refusal_passed [OF Admitted(3)]
    have wfq: "room_wf q" by (rule room_safe_wf [OF safe])
    have fin: "promise V B r' \<and> same_standing r r'"
      if r': "room_safe r'" "present r' = (present q)(?i \<mapsto> (jq_authenticated req, jq_client_ip req, s))"
        and mem: "\<And>i p. tget (rm_participants r') i = Some p \<Longrightarrow> pt_producers p \<noteq> [] \<Longrightarrow> tget (rm_participants q) i = Some p"
        and keep: "rm_settings r' = rm_settings q" "rm_broadcaster_ceiling r' = rm_broadcaster_ceiling q"
          "stored_sanction r' = stored_sanction ?q" "same_standing q r'"
    proof -
      have "media_ok r'" by (rule media_newcomer [OF media wfq room_safe_wf [OF r'(1)] keep(1,2) mem])
      moreover have "sanctions_follow V r'" "bans_follow B r'"
        by (rule newcomer_follows [OF V B r'(2)];
            use val free with_sanction_origin [of key s q] in \<open>simp add: Admitted(6) keep(3)\<close>)+
      ultimately show ?thesis using r'(1) st(2) keep(4) by (simp add: promise_def same_standing_def)
    qed
    show ?thesis
    proof (cases "(js_invite_only snap \<and> role < Member) \<or> (js_lobby_enabled snap \<and> \<not> room_is_empty q \<and> role < Moderator)")
      case True
      then have "enter_lobby env req grant name role s ?q = (res, r', sent)" using Admitted(8) by (simp only: if_True)
      note safe' = enter_lobby_safe [OF safe Admitted(3,6,7) this] and entry = enter_lobby_room [OF this]
      from entry obtain e where r': "r' = complete_locked (?q\<lparr>rm_lobby := tput ?i e (rm_lobby ?q)\<rparr>)" by blast
      show ?thesis
        using entry_frame(2,4) [where r = q and key = key and s = s] entry_frame(1,3,5) [where r = "?q\<lparr>rm_lobby := tput ?i e (rm_lobby ?q)\<rparr>"]
        by (intro fin [OF safe']) (simp_all add: r' same_standing_def stored_sanction_def fun_eq_iff)
    next
      case False
      then have "enter_room env req pf grant name role s ?q = (res, r', sent)" using Admitted(8) by (simp only: if_False)
      note safe' = enter_room_safe(1,2) [OF safe Admitted(3,6,7) this] and entry = enter_room_room [OF this]
      from entry obtain m where r': "r' = complete_locked (?q\<lparr>rm_participants := tput ?i m (rm_participants ?q)\<rparr>)" "pt_producers m = []"
        by blast
      show ?thesis
        using entry_frame(2,4) [where r = q and key = key and s = s] entry_frame(1,3,5) [where r = "?q\<lparr>rm_participants := tput ?i m (rm_participants ?q)\<rparr>"]
        by (intro fin [OF safe']) (auto simp: r' same_standing_def stored_sanction_def fun_eq_iff split: if_splits)
    qed
  qed
  then show "promise V B r'" and "same_standing r r'" by blast+
qed

lemma commit_admission_promise:
  assumes promise: "promise V B r"
    and "commit_admission closed draining session token authorize pf t r = (res, r', sent)"
  shows "promise V B r'" and "same_standing r r'"
proof -
  have safe: "room_safe r" and V: "sanctions_follow V r" and B: "bans_follow B r" and media: "media_ok r"
    using promise by (simp_all add: promise_def)
  note wf = room_safe_wf [OF safe]
  have "r' = r \<or> (\<exists>e m. tget (rm_lobby r) t = Some e
      \<and> r' = r\<lparr>rm_lobby := tdel t (rm_lobby r), rm_participants := tput (le_participant_id e) m (rm_participants r)\<rparr>
      \<and> pt_id m = le_participant_id e \<and> pt_producers m = [] \<and> pt_authenticated m = le_authenticated e \<and> pt_ip m = le_ip e
      \<and> pt_punitive m = snd (lobby_admission_state r e))"
    using assms(2) unfolding commit_admission_def attempt_def Let_def lobby_admission_state_def
    by (auto split: sum.splits option.splits if_splits)
  then have "promise V B r' \<and> same_standing r r'"
  proof (elim disjE exE conjE)
    fix e m
    assume e: "tget (rm_lobby r) t = Some e"
      and r': "r' = r\<lparr>rm_lobby := tdel t (rm_lobby r), rm_participants := tput (le_participant_id e) m (rm_participants r)\<rparr>"
      and m: "pt_id m = le_participant_id e" "pt_producers m = []" "pt_authenticated m = le_authenticated e" "pt_ip m = le_ip e"
        "pt_punitive m = snd (lobby_admission_state r e)"
    have i: "le_participant_id e = t" "tget (rm_participants r) t = None" using room_wf_waiting [OF wf e] by simp_all
    let ?q = "r\<lparr>rm_lobby := tdel t (rm_lobby r)\<rparr>"
    have "room_wf (?q\<lparr>rm_participants := tput t m (rm_participants ?q)\<rparr>)"
      by (rule room_wf_add_member [OF room_wf_remove_waiting [OF wf]]) (use i m in simp_all)
    then have wf': "room_wf r'" by (simp add: r' i(1))
    have here: "present r t = Some (le_authenticated e, le_ip e, le_punitive e)" using e i(2) by (simp add: present_def)
    have "punitive_value (pt_punitive m) k = punitive_value (le_punitive e) k" for k
    proof -
      have "stored_sanction r (sanction_key_for t (le_authenticated e) (le_ip e)) k \<Longrightarrow> punitive_value (le_punitive e) k"
        using V here by (auto simp: sanctions_follow_def)
      then show ?thesis by (auto simp: m(5) lobby_admission_state_def Let_def i(1) merge_punitive_value stored_sanction_def
            is_some_and_def split: option.splits)
    qed
    then have "pt_punitive m = le_punitive e" by (rule punitive_state_eqI)
    then have pres: "present r' = present r"
      using here m(3,4) by (auto simp: r' i(1) present_def fun_eq_iff split: option.splits)
    have st: "stored_sanction r' = stored_sanction r" by (simp add: r' stored_sanction_def fun_eq_iff)
    have "room_safe r'" by (rule room_safe_same [OF safe wf' pres]) (simp_all add: r')
    moreover have "media_ok r'"
      by (rule media_newcomer [OF media wf wf']) (use m in \<open>auto simp: r' i(1) split: if_splits\<close>)
    ultimately show "promise V B r' \<and> same_standing r r'"
      using V B by (simp add: promise_def sanctions_follow_def bans_follow_def pres st) (simp add: r' same_standing_def)
  qed (simp add: promise same_standing_def)
  then show "promise V B r'" "same_standing r r'" by blast+
qed

end
