(* ===== verification/Durable_Moderation.thy ===== *)
theory Durable_Moderation
  imports Moderation_State "HOL-Library.Product_Lexorder"
begin

text \<open>
  The saved moderation state of one room (\<^verbatim>\<open>src/room/moderation.rs\<close>, the tables \<^verbatim>\<open>room_states\<close>,
  \<^verbatim>\<open>room_reports\<close> and \<^verbatim>\<open>moderation_events\<close>): what each statement does to the rows and what the
  queries a join asks find. A statement may also fail for reasons of the database; that outcome is
  an argument where the callers meet it. Row identifiers and the database clock are arguments.
\<close>

section \<open>Rows\<close>

record state_row =
  sw_id :: uuid
  sw_user :: "uuid option"
  sw_state :: string
  sw_ip :: "ip_addr option"
  sw_reason :: "string option"
  sw_expires :: "date_time option"
  sw_applied_by :: uuid

record report_row =
  rw_id :: uuid
  rw_target :: participant_id
  rw_target_name :: string
  rw_status :: report_status
  rw_resolved_at :: "date_time option"
  rw_resolved_by :: "participant_id option"

record moderation_rows =
  mr_states :: "state_row list"
  mr_reports :: "report_row list"
  mr_events :: "moderation_event list"

record sanction =
  sn_identity :: sanction_identity
  sn_reason :: "string option"
  sn_applied_by :: uuid

definition MAX_MODERATION_EVENTS :: nat where "MAX_MODERATION_EVENTS = 1000"

text \<open>\<^verbatim>\<open>INSERT ... ON CONFLICT ... DO UPDATE\<close>.\<close>

definition upsert :: "('r \<Rightarrow> bool) \<Rightarrow> ('r \<Rightarrow> 'r) \<Rightarrow> 'r \<Rightarrow> 'r list \<Rightarrow> 'r list" where
  "upsert conflicts update new rows =
     (if list_ex conflicts rows then map (\<lambda>r. if conflicts r then update r else r) rows else rows @ [new])"

section \<open>Sanctions and bans\<close>

text \<open>The rows the unique indexes identify: an account's, or a guest cohort's.\<close>

definition row_of :: "sanction_identity \<Rightarrow> string \<Rightarrow> state_row \<Rightarrow> bool" where
  "row_of identity state r \<longleftrightarrow>
     sw_state r = state \<and>
     (case identity of
        SanctionUser u _ \<Rightarrow> sw_user r = Some u
      | SanctionGuest a \<Rightarrow> sw_user r = None \<and> sw_ip r = Some a)"

definition write_state :: "uuid \<Rightarrow> sanction \<Rightarrow> string \<Rightarrow> date_time option \<Rightarrow> state_row list \<Rightarrow> state_row list" where
  "write_state fresh sanction state expires rows =
     upsert (row_of (sn_identity sanction) state)
       (\<lambda>r. r\<lparr>sw_ip := sanction_address (sn_identity sanction), sw_reason := sn_reason sanction,
              sw_expires := expires, sw_applied_by := sn_applied_by sanction\<rparr>)
       \<lparr>sw_id = fresh, sw_user = sanction_user_id (sn_identity sanction), sw_state = state,
        sw_ip = sanction_address (sn_identity sanction), sw_reason = sn_reason sanction, sw_expires = expires,
        sw_applied_by = sn_applied_by sanction\<rparr> rows"

definition write_punitive_state ::
  "uuid \<Rightarrow> sanction \<Rightarrow> punitive_kind \<Rightarrow> bool \<Rightarrow> state_row list \<Rightarrow> state_row list" where
  "write_punitive_state fresh sanction kind enabled rows =
     (if enabled then write_state fresh sanction (punitive_as_db_str kind) None rows
      else filter (\<lambda>r. \<not> row_of (sn_identity sanction) (punitive_as_db_str kind) r) rows)"

definition write_ban :: "uuid \<Rightarrow> sanction \<Rightarrow> date_time option \<Rightarrow> state_row list \<Rightarrow> state_row list" where
  "write_ban fresh sanction expires_at rows = write_state fresh sanction ''banned'' expires_at rows"

definition unexpired_row :: "date_time \<Rightarrow> state_row \<Rightarrow> bool" where
  "unexpired_row now r \<longleftrightarrow> (case sw_expires r of None \<Rightarrow> True | Some e \<Rightarrow> e > now)"

text \<open>The condition both queries share: an account matches by identifier, a guest by its cohort.\<close>

definition row_binds :: "uuid option \<Rightarrow> ip_addr option \<Rightarrow> bool \<Rightarrow> state_row \<Rightarrow> bool" where
  "row_binds user_id ip authenticated r \<longleftrightarrow>
     (sw_user r \<noteq> None \<and> sw_user r = user_id)
     \<or> (ip \<noteq> None \<and> \<not> authenticated \<and> sw_user r = None \<and> sw_ip r = ip)"

definition query_ip :: "bool \<Rightarrow> ip_addr option \<Rightarrow> ip_addr option" where
  "query_ip authenticated ip = (if authenticated then ip else map_option cohort ip)"

definition state_exists :: "state_row list \<Rightarrow> date_time \<Rightarrow> string \<Rightarrow> uuid option \<Rightarrow> ip_addr option \<Rightarrow> bool \<Rightarrow> bool" where
  "state_exists rows now state user_id ip authenticated =
     list_ex (\<lambda>r. sw_state r = state \<and> unexpired_row now r
                  \<and> row_binds user_id (query_ip authenticated ip) authenticated r) rows"

definition load_punitive_state ::
  "state_row list \<Rightarrow> date_time \<Rightarrow> uuid option \<Rightarrow> ip_addr option \<Rightarrow> bool \<Rightarrow> punitive_state" where
  "load_punitive_state rows now user_id ip authenticated =
     \<lparr>cam_banned = state_exists rows now ''cambanned'' user_id ip authenticated,
      text_muted = state_exists rows now ''muted'' user_id ip authenticated\<rparr>"

definition is_banned :: "state_row list \<Rightarrow> date_time \<Rightarrow> uuid option \<Rightarrow> ip_addr option \<Rightarrow> bool \<Rightarrow> bool" where
  "is_banned rows now user_id ip authenticated = state_exists rows now ''banned'' user_id ip authenticated"

section \<open>History and reports\<close>

text \<open>The newest entries by time, then identifier.\<close>

definition newest_events :: "nat \<Rightarrow> moderation_event list \<Rightarrow> moderation_event list" where
  "newest_events cap events =
     take cap (rev (sort_key (\<lambda>e. (me_created_at e, me_event_id e)) events))"

definition keep_newest_events :: "nat \<Rightarrow> moderation_event list \<Rightarrow> moderation_event list" where
  "keep_newest_events cap events =
     filter (\<lambda>e. me_event_id e \<in> me_event_id ` set (newest_events cap events)) events"

definition find_report :: "report_row list \<Rightarrow> uuid \<Rightarrow> report_row option" where
  "find_report reports report_id = find (\<lambda>r. rw_id r = report_id) reports"

definition close_report ::
  "uuid \<Rightarrow> report_status \<Rightarrow> date_time \<Rightarrow> participant_id \<Rightarrow> report_row list \<Rightarrow> report_row list" where
  "close_report report_id status now actor reports =
     map (\<lambda>r. if rw_id r = report_id \<and> rw_status r = ReportOpen
              then r\<lparr>rw_status := status, rw_resolved_at := Some now, rw_resolved_by := Some actor\<rparr> else r) reports"

definition record_event :: "date_time \<Rightarrow> moderation_event \<Rightarrow> nat \<Rightarrow> moderation_rows \<Rightarrow> room_error + moderation_rows" where
  "record_event now event cap rows =
     (let appended = (\<lambda>rows. rows\<lparr>mr_events := keep_newest_events cap (mr_events rows @ [event])\<rparr>) in
      case me_report_id event of
        None \<Rightarrow> Inr (appended rows)
      | Some report_id \<Rightarrow>
          (case find_report (mr_reports rows) report_id of
             None \<Rightarrow> Inl (Database RowNotFound)
           | Some report \<Rightarrow>
               if TargetParticipant (rw_target report) \<noteq> me_target_id event
               then Inl (Refused (Invalid ''Open report does not match this participant''))
               else Inr (appended (rows\<lparr>mr_reports :=
                      close_report report_id ReportResolvedStatus now (me_actor_id event) (mr_reports rows)\<rparr>))))"

text \<open>Each of these is one transaction: an error leaves the rows as they were.\<close>

definition persist_event :: "date_time \<Rightarrow> moderation_event \<Rightarrow> moderation_rows \<Rightarrow> room_error + moderation_rows" where
  "persist_event now event rows = record_event now event MAX_MODERATION_EVENTS rows"

definition set_punitive_state ::
  "date_time \<Rightarrow> uuid \<Rightarrow> sanction \<Rightarrow> punitive_kind \<Rightarrow> bool \<Rightarrow> moderation_event \<Rightarrow> moderation_rows \<Rightarrow>
     room_error + moderation_rows" where
  "set_punitive_state now fresh sanction kind enabled event rows =
     record_event now event MAX_MODERATION_EVENTS
       (rows\<lparr>mr_states := write_punitive_state fresh sanction kind enabled (mr_states rows)\<rparr>)"

definition persist_ban ::
  "date_time \<Rightarrow> uuid \<Rightarrow> sanction \<Rightarrow> date_time option \<Rightarrow> moderation_event \<Rightarrow> moderation_rows \<Rightarrow>
     room_error + moderation_rows" where
  "persist_ban now fresh sanction expires_at event rows =
     record_event now event MAX_MODERATION_EVENTS
       (rows\<lparr>mr_states := write_ban fresh sanction expires_at (mr_states rows)\<rparr>)"

definition user_ban :: "uuid \<Rightarrow> state_row \<Rightarrow> bool" where
  "user_ban user_id r \<longleftrightarrow> sw_state r = ''banned'' \<and> sw_user r = Some user_id"

definition remove_user_ban ::
  "date_time \<Rightarrow> uuid \<Rightarrow> uuid \<Rightarrow> string option \<Rightarrow> participant_id \<times> string \<Rightarrow> moderation_rows \<Rightarrow>
     (room_error + bool) \<times> moderation_rows" where
  \<comment> \<open>the fresh event identifier, the account, its current name if it still exists, the actor\<close>
  "remove_user_ban now event_id user_id account_name actor rows =
     (if \<not> list_ex (user_ban user_id) (mr_states rows) then (Inr False, rows)
      else (case record_event now
                   (moderation_event_new event_id now Unban actor
                      \<lparr>mt_id = TargetParticipant user_id,
                       mt_name = (case account_name of Some n \<Rightarrow> n | None \<Rightarrow> ''Removed account''),
                       mt_authenticated = True, mt_ip = None\<rparr> None None None)
                   MAX_MODERATION_EVENTS
                   (rows\<lparr>mr_states := filter (\<lambda>r. \<not> user_ban user_id r) (mr_states rows)\<rparr>) of
              Inl e \<Rightarrow> (Inl e, rows)
            | Inr rows' \<Rightarrow> (Inr True, rows')))"

definition resolve_report ::
  "date_time \<Rightarrow> uuid \<Rightarrow> uuid \<Rightarrow> report_resolution \<Rightarrow> participant_id \<times> string \<Rightarrow> bool \<Rightarrow> moderation_rows \<Rightarrow>
     (room_error + bool) \<times> moderation_rows" where
  \<comment> \<open>the flag: whether the reported participant is an account\<close>
  "resolve_report now event_id report_id resolution actor target_authenticated rows =
     (case find_report (mr_reports rows) report_id of
        None \<Rightarrow> (Inr False, rows)
      | Some report \<Rightarrow>
          if rw_status report \<noteq> ReportOpen then (Inr False, rows)
          else (case record_event now
                       (moderation_event_new event_id now (resolution_action resolution) actor
                          \<lparr>mt_id = TargetParticipant (rw_target report), mt_name = rw_target_name report,
                           mt_authenticated = target_authenticated, mt_ip = None\<rparr> None None (Some report_id))
                       MAX_MODERATION_EVENTS
                       (rows\<lparr>mr_reports := close_report report_id (resolution_status resolution) now (fst actor)
                               (mr_reports rows)\<rparr>) of
                  Inl e \<Rightarrow> (Inl e, rows)
                | Inr rows' \<Rightarrow> (Inr True, rows')))"

section \<open>What is saved for whom\<close>

text \<open>The rows of a live sanction key. A guest without an address has none.\<close>

definition saved_under :: "sanction_key \<Rightarrow> state_row \<Rightarrow> bool" where
  "saved_under key r =
     (case key of
        KeyUser u \<Rightarrow> sw_user r = Some u
      | KeyGuestIp a \<Rightarrow> sw_user r = None \<and> sw_ip r = Some a
      | KeyConnection _ \<Rightarrow> False)"

definition saved_state :: "state_row list \<Rightarrow> date_time \<Rightarrow> sanction_key \<Rightarrow> string \<Rightarrow> bool" where
  "saved_state rows now key state = list_ex (\<lambda>r. sw_state r = state \<and> unexpired_row now r \<and> saved_under key r) rows"

lemma state_exists_key:
  "state_exists rows now state (if authenticated then Some i else None) ip authenticated
     = saved_state rows now (sanction_key_for i authenticated ip) state"
  unfolding state_exists_def saved_state_def list_ex_iff
  by (intro bex_cong refl) (auto simp: row_binds_def query_ip_def sanction_key_for_def saved_under_def split: option.splits)

lemma row_of_key:
  "sanction_identity_of i authenticated ip = Inr identity \<Longrightarrow>
     row_of identity state r \<longleftrightarrow> sw_state r = state \<and> saved_under (sanction_key_for i authenticated ip) r"
  by (auto simp: sanction_identity_of_def row_of_def sanction_key_for_def saved_under_def split: if_splits option.splits)

lemma written_row_key:
  "sanction_identity_of i authenticated ip = Inr identity \<Longrightarrow>
     saved_under key \<lparr>sw_id = f, sw_user = sanction_user_id identity, sw_state = st, sw_ip = sanction_address identity,
       sw_reason = re, sw_expires = ex, sw_applied_by = ab\<rparr> \<longleftrightarrow> key = sanction_key_for i authenticated ip"
  by (cases key) (auto simp: sanction_identity_of_def sanction_key_for_def saved_under_def split: if_splits option.splits)

lemma updated_row_key:
  "sanction_identity_of i authenticated ip = Inr identity \<Longrightarrow> row_of identity state r \<Longrightarrow>
     saved_under key (r\<lparr>sw_ip := sanction_address identity, sw_reason := re, sw_expires := ex, sw_applied_by := ab\<rparr>)
       \<longleftrightarrow> key = sanction_key_for i authenticated ip"
  by (cases key) (auto simp: sanction_identity_of_def row_of_def sanction_key_for_def saved_under_def
      split: if_splits option.splits)

lemma saved_under_unique: "saved_under key r \<Longrightarrow> saved_under k r \<Longrightarrow> key = k"
  by (cases key; cases k) (simp_all add: saved_under_def)

text \<open>A written state is found under its own key, and nothing else changes.\<close>

lemma saved_state_write:
  assumes id: "sanction_identity_of i authenticated ip = Inr (sn_identity sn)"
  shows "saved_state (write_state fresh sn state expires rows) now key st
     = (if key = sanction_key_for i authenticated ip \<and> st = state then (case expires of None \<Rightarrow> True | Some e \<Rightarrow> now < e)
        else saved_state rows now key st)"
proof (cases "list_ex (row_of (sn_identity sn) state) rows")
  case True
  define g where "g r = (if row_of (sn_identity sn) state r then r\<lparr>sw_ip := sanction_address (sn_identity sn),
      sw_reason := sn_reason sn, sw_expires := expires, sw_applied_by := sn_applied_by sn\<rparr> else r)" for r
  define P where "P r \<longleftrightarrow> sw_state r = st \<and> unexpired_row now r \<and> saved_under key r" for r
  define own where "own \<longleftrightarrow> key = sanction_key_for i authenticated ip \<and> st = state"
  define ok where "ok \<longleftrightarrow> (case expires of None \<Rightarrow> True | Some e \<Rightarrow> now < e)"
  have rows: "write_state fresh sn state expires rows = map g rows"
    using True by (simp add: write_state_def upsert_def g_def)
  have new: "P (g r) \<longleftrightarrow> own \<and> ok" if "row_of (sn_identity sn) state r" for r
    using updated_row_key [OF id that] that row_of_key [OF id, of state r]
    by (auto simp: P_def g_def unexpired_row_def own_def ok_def)
  have mine: "P r \<Longrightarrow> own \<longleftrightarrow> row_of (sn_identity sn) state r" for r
    using row_of_key [OF id, of state r] saved_under_unique [of key r] by (auto simp: P_def own_def)
  have rest: "P (g r) = P r" if "\<not> row_of (sn_identity sn) state r" for r using that by (simp add: g_def)
  have "(\<exists>r \<in> set rows. P (g r)) \<longleftrightarrow> (if own then ok else (\<exists>r \<in> set rows. P r))"
    using True new mine rest unfolding list_ex_iff by metis
  then show ?thesis by (auto simp: saved_state_def rows list_ex_iff P_def own_def ok_def)
next
  case False
  then have rows: "write_state fresh sn state expires rows = rows @ [\<lparr>sw_id = fresh, sw_user = sanction_user_id (sn_identity sn),
      sw_state = state, sw_ip = sanction_address (sn_identity sn), sw_reason = sn_reason sn, sw_expires = expires,
      sw_applied_by = sn_applied_by sn\<rparr>]"
    by (simp add: write_state_def upsert_def)
  have "\<not> saved_state rows now (sanction_key_for i authenticated ip) state"
    using False row_of_key [OF id] by (auto simp: saved_state_def list_ex_iff)
  then show ?thesis by (auto simp: saved_state_def rows written_row_key [OF id] unexpired_row_def)
qed

lemma saved_state_lift:
  assumes "sanction_identity_of i authenticated ip = Inr identity"
  shows "saved_state (filter (\<lambda>r. \<not> row_of identity state r) rows) now key st
     \<longleftrightarrow> \<not> (key = sanction_key_for i authenticated ip \<and> st = state) \<and> saved_state rows now key st"
proof -
  have "(sw_state r = st \<and> unexpired_row now r \<and> saved_under key r) \<and> \<not> row_of identity state r
      \<longleftrightarrow> \<not> (key = sanction_key_for i authenticated ip \<and> st = state) \<and> (sw_state r = st \<and> unexpired_row now r \<and> saved_under key r)" for r
    unfolding row_of_key [OF assms] using saved_under_unique [of key r "sanction_key_for i authenticated ip"] by blast
  then show ?thesis unfolding saved_state_def list_ex_iff by auto
qed

lemma saved_state_punitive:
  assumes "sanction_identity_of i authenticated ip = Inr (sn_identity sn)"
  shows "saved_state (write_punitive_state fresh sn kind enabled rows) now key st
     = (if key = sanction_key_for i authenticated ip \<and> st = punitive_as_db_str kind then enabled else saved_state rows now key st)"
  using saved_state_write [OF assms] saved_state_lift [OF assms] by (simp add: write_punitive_state_def)

definition saved_punitive :: "state_row list \<Rightarrow> date_time \<Rightarrow> sanction_key \<Rightarrow> punitive_kind \<Rightarrow> bool" where
  "saved_punitive rows now key kind = saved_state rows now key (punitive_as_db_str kind)"

lemma load_punitive_state_value:
  "punitive_value (load_punitive_state rows now (if authenticated then Some i else None) ip authenticated) kind
     = saved_punitive rows now (sanction_key_for i authenticated ip) kind"
  by (cases kind) (simp_all only: load_punitive_state_def saved_punitive_def state_exists_key [symmetric]
      punitive_value.simps punitive_state.simps punitive_as_db_str.simps)

lemma punitive_as_db_str_eq [simp]: "punitive_as_db_str k = punitive_as_db_str j \<longleftrightarrow> k = j" "punitive_as_db_str k \<noteq> ''banned''"
  by (cases k; cases j; simp)+

lemma record_event_states: "record_event now event cap rows = Inr rows' \<Longrightarrow> mr_states rows' = mr_states rows"
  by (auto simp: record_event_def Let_def split: option.splits if_splits)

section \<open>Round trips\<close>

text \<open>
  C12: a sanction that is saved is what every later join finds. Looking up any identity after
  \<^const>\<open>set_punitive_state\<close> finds the new value of that kind for the sanctioned identity, which for a
  guest is everybody of the address cohort, and everything else as before, bans included.
\<close>

theorem saved_sanction_is_found:
  assumes "sanction_identity_of i authenticated ip = Inr (sn_identity sn)"
    and "set_punitive_state now fresh sn kind enabled event rows = Inr rows'"
  shows "(\<forall>j a jp k. punitive_value (load_punitive_state (mr_states rows') later (if a then Some j else None) jp a) k
       = (if sanction_key_for j a jp = sanction_key_for i authenticated ip \<and> k = kind then enabled
          else punitive_value (load_punitive_state (mr_states rows) later (if a then Some j else None) jp a) k))
     \<and> (\<forall>j a jp. is_banned (mr_states rows') later (if a then Some j else None) jp a
       = is_banned (mr_states rows) later (if a then Some j else None) jp a)"
proof -
  have "mr_states rows' = write_punitive_state fresh sn kind enabled (mr_states rows)"
    using assms(2) record_event_states by (fastforce simp: set_punitive_state_def)
  then show ?thesis
    unfolding load_punitive_state_value is_banned_def state_exists_key
    by (simp add: saved_punitive_def saved_state_punitive [OF assms(1)] punitive_as_db_str_eq(2) [symmetric])
qed

theorem saved_sanction_is_found_witness:
  "text_muted (load_punitive_state
     (mr_states (projr (set_punitive_state 0 1 \<lparr>sn_identity = SanctionUser 7 None, sn_reason = None, sn_applied_by = 9\<rparr> Muted True
        (moderation_event_new 5 0 TextMute (9, ''mod'') \<lparr>mt_id = TargetParticipant 7, mt_name = ''ann'', mt_authenticated = True, mt_ip = None\<rparr>
           None None None) \<lparr>mr_states = [], mr_reports = [], mr_events = []\<rparr>))) 100 (Some 7) None True)"
proof -
  let ?sn = "\<lparr>sn_identity = SanctionUser 7 None, sn_reason = None, sn_applied_by = 9\<rparr>"
    and ?ev = "moderation_event_new 5 0 TextMute (9, ''mod'')
      \<lparr>mt_id = TargetParticipant 7, mt_name = ''ann'', mt_authenticated = True, mt_ip = None\<rparr> None None None"
    and ?rows = "\<lparr>mr_states = [], mr_reports = [], mr_events = []\<rparr>"
  have id: "sanction_identity_of 7 True None = Inr (sn_identity ?sn)" by (simp add: sanction_identity_of_def)
  have "set_punitive_state 0 1 ?sn Muted True ?ev ?rows = Inr (projr (set_punitive_state 0 1 ?sn Muted True ?ev ?rows))"
    by (simp add: set_punitive_state_def record_event_def moderation_event_new_def Let_def)
  from saved_sanction_is_found [OF id this, THEN conjunct1, rule_format, of 100 True 7 None Muted] show ?thesis by simp
qed

text \<open>
  C13: a ban that is saved keeps exactly the banned identity out: looking up any identity
  afterwards finds it banned until the ban's expiry if it is the banned one, and as before
  otherwise, and no sanction changes. Lifting the ban of an account clears it.
\<close>

theorem saved_ban_is_found:
  assumes "sanction_identity_of i authenticated ip = Inr (sn_identity sn)"
    and "persist_ban now fresh sn expires event rows = Inr rows'"
    and "remove_user_ban now' event_id u name actor rows' = (result, rows'')"
  shows "(\<forall>j a jp. is_banned (mr_states rows') later (if a then Some j else None) jp a
       = (if sanction_key_for j a jp = sanction_key_for i authenticated ip
          then (case expires of None \<Rightarrow> True | Some e \<Rightarrow> later < e)
          else is_banned (mr_states rows) later (if a then Some j else None) jp a))
     \<and> (\<forall>j a jp. load_punitive_state (mr_states rows') later (if a then Some j else None) jp a
       = load_punitive_state (mr_states rows) later (if a then Some j else None) jp a)
     \<and> \<not> is_banned (mr_states rows'') later (Some u) uip True"
proof -
  have rows: "mr_states rows' = write_ban fresh sn expires (mr_states rows)"
    using assms(2) record_event_states by (fastforce simp: persist_ban_def)
  note found = saved_state_write [OF assms(1), of fresh "''banned''" expires "mr_states rows", folded write_ban_def]
  have "punitive_value (load_punitive_state (mr_states rows') later (if a then Some j else None) jp a) k
      = punitive_value (load_punitive_state (mr_states rows) later (if a then Some j else None) jp a) k" for j a jp k
    unfolding load_punitive_state_value by (simp add: saved_punitive_def rows found)
  then have "load_punitive_state (mr_states rows') later (if a then Some j else None) jp a
      = load_punitive_state (mr_states rows) later (if a then Some j else None) jp a" for j a jp
    by (rule punitive_state_eqI)
  moreover have "\<not> list_ex (user_ban u) (mr_states rows'')"
    using assms(3) by (auto simp: remove_user_ban_def list_ex_iff dest!: record_event_states split: if_splits sum.splits)
      (auto simp: record_event_def Let_def moderation_event_new_def)
  then have "\<not> is_banned (mr_states rows'') later (Some u) uip True"
    by (auto simp: is_banned_def state_exists_def list_ex_iff row_binds_def user_ban_def query_ip_def)
  moreover have "is_banned (mr_states rows') later (if a then Some j else None) jp a
      = (if sanction_key_for j a jp = sanction_key_for i authenticated ip
         then (case expires of None \<Rightarrow> True | Some e \<Rightarrow> later < e)
         else is_banned (mr_states rows) later (if a then Some j else None) jp a)" for j a jp
    unfolding is_banned_def state_exists_key by (simp add: rows found)
  ultimately show ?thesis by blast
qed

theorem saved_ban_is_found_witness:
  "\<exists>rows rows'. persist_ban 0 1 \<lparr>sn_identity = SanctionUser 7 None, sn_reason = None, sn_applied_by = 9\<rparr> (Some 50)
        (moderation_event_new 5 0 Ban (9, ''mod'') \<lparr>mt_id = TargetParticipant 7, mt_name = ''ann'', mt_authenticated = True, mt_ip = None\<rparr>
           None (Some 50) None) \<lparr>mr_states = [], mr_reports = [], mr_events = []\<rparr> = Inr rows
     \<and> is_banned (mr_states rows) 49 (Some 7) None True
     \<and> remove_user_ban 2 6 7 None (9, ''mod'') rows = (Inr True, rows') \<and> \<not> is_banned (mr_states rows') 49 (Some 7) None True"
proof -
  let ?sn = "\<lparr>sn_identity = SanctionUser 7 None, sn_reason = None, sn_applied_by = 9\<rparr>"
    and ?ev = "moderation_event_new 5 0 Ban (9, ''mod'')
      \<lparr>mt_id = TargetParticipant 7, mt_name = ''ann'', mt_authenticated = True, mt_ip = None\<rparr> None (Some 50) None"
  have id: "sanction_identity_of 7 True None = Inr (sn_identity ?sn)" by (simp add: sanction_identity_of_def)
  obtain rows where rows: "persist_ban 0 1 ?sn (Some 50) ?ev \<lparr>mr_states = [], mr_reports = [], mr_events = []\<rparr> = Inr rows"
    "list_ex (user_ban 7) (mr_states rows)"
    by (simp add: persist_ban_def record_event_def moderation_event_new_def write_ban_def write_state_def upsert_def user_ban_def Let_def)
  then obtain rows' where rows': "remove_user_ban 2 6 7 None (9, ''mod'') rows = (Inr True, rows')"
    by (simp add: remove_user_ban_def record_event_def moderation_event_new_def Let_def)
  note found = saved_ban_is_found [OF id rows(1) rows', of 49]
  have "is_banned (mr_states rows) 49 (Some 7) None True" using found [THEN conjunct1, rule_format, of True 7 None] by simp
  then show ?thesis using rows(1) rows' found by blast
qed

end
