(* ===== verification/Chat_Delivery.thy ===== *)
theory Chat_Delivery
  imports Moderation_Ops
begin

text \<open>
  Sending a chat message (\<^verbatim>\<open>src/room/social.rs\<close>, \<^verbatim>\<open>handle_chat_command\<close> to
  \<^verbatim>\<open>finish_chat_attempt\<close>): who may speak to whom, what a reply may quote, and how receipts and the
  sequence watermark of a membership make a retried message be delivered at most once. A message
  that is not saved is processed in one turn of the room's lock; a saved one is prepared, stored
  while the room is released, and finished. The ICU tables, the serialised size of a message, the
  identifier parser, fresh identifiers, clock readings and the state of the outbound queues are
  arguments.
\<close>

section \<open>Who sees what\<close>

definition visible :: "history_entry \<Rightarrow> participant \<Rightarrow> bool" where
  "visible entry viewer =
     (if he_sequence entry < ps_joined_sequence (pt_social viewer) then False
      else if ce_recipient_id (he_message entry) \<noteq> None then
        he_sender_session entry = pt_media_session_id viewer
        \<or> he_recipient_session entry = Some (pt_media_session_id viewer)
      else ce_participant_id (he_message entry) \<notin> set (ps_ignored (pt_social viewer)))"

definition can_private_message :: "participant \<Rightarrow> participant \<Rightarrow> bool" where
  "can_private_message sender recipient \<longleftrightarrow>
     pt_id sender \<noteq> pt_id recipient \<and> ps_allow_private_messages (pt_social recipient)
     \<and> pt_id sender \<notin> set (ps_ignored (pt_social recipient))
     \<and> pt_id recipient \<notin> set (ps_ignored (pt_social sender))"

definition chat_allowed :: "room \<Rightarrow> participant \<Rightarrow> bool" where
  \<comment> \<open>the negation of the refusal every chat operation starts with\<close>
  "chat_allowed room sender \<longleftrightarrow>
     \<not> (is_some_and (\<lambda>s. \<not> rs_allow_chat s) (rm_settings room)
        \<or> \<not> can_chat (pt_punitive sender) (pt_role sender) (is_some_and rs_moderated (rm_settings room)))"

definition can_start_account_conversation :: "(chan \<Rightarrow> bool) \<Rightarrow> room \<Rightarrow> participant_id \<Rightarrow> participant_id \<Rightarrow> bool" where
  "can_start_account_conversation closed room sender_id recipient_id =
     (case (tget (rm_participants room) sender_id, tget (rm_participants room) recipient_id) of
        (Some sender, Some recipient) \<Rightarrow>
          pt_authenticated sender \<and> pt_authenticated recipient
          \<and> ps_connected (pt_social sender) \<and> ps_connected (pt_social recipient)
          \<and> \<not> closed (pt_sender sender) \<and> \<not> closed (pt_sender recipient)
          \<and> chat_allowed room sender \<and> can_private_message sender recipient
      | _ \<Rightarrow> False)"

definition keeps_history :: "room \<Rightarrow> bool" where
  "keeps_history room \<longleftrightarrow> rm_persisted room \<and> is_some_and (\<lambda>s. rs_history_retention_days s > 0) (rm_settings room)"

section \<open>Replies\<close>

definition reply_reference :: "chat_entry \<Rightarrow> participant \<Rightarrow> participant_id option \<Rightarrow> chat_reply_ref outcome" where
  "reply_reference message sender recipient_id =
     (if ce_removed_at message \<noteq> None then Inl (not_found ''That message has been removed'')
      else if \<not> (case (recipient_id, ce_recipient_id message) of
                   (None, None) \<Rightarrow> True
                 | (Some to_id, Some other) \<Rightarrow>
                     to_id \<in> {ce_participant_id message, other} \<and> pt_id sender \<in> {ce_participant_id message, other}
                 | _ \<Rightarrow> False)
        then Inl (invalid ''Reply within the conversation the message belongs to'')
      else Inr \<lparr>cq_message_id = ce_message_id message, cq_participant_id = ce_participant_id message,
                cq_participant_name = ce_participant_name message, cq_excerpt = quote_excerpt (ce_content message)\<rparr>)"

definition quote_reply ::
  "history_entry list \<Rightarrow> participant \<Rightarrow> participant_id option \<Rightarrow> message_id \<Rightarrow> chat_reply_ref outcome" where
  "quote_reply history sender recipient_id message_id =
     (case find (\<lambda>entry. ce_message_id (he_message entry) = message_id \<and> visible entry sender) (rev history) of
        None \<Rightarrow> Inl (not_found ''That message is no longer available to reply to'')
      | Some original \<Rightarrow> reply_reference (he_message original) sender recipient_id)"

definition saved_public_reply :: "chat_entry \<Rightarrow> participant \<Rightarrow> chat_reply_ref outcome" where
  "saved_public_reply message sender =
     (if ce_recipient_id message \<noteq> None \<or> ce_participant_id message \<in> set (ps_ignored (pt_social sender))
      then Inl (not_found ''That message is no longer available to reply to'')
      else reply_reference message sender None)"

definition resolve_reply ::
  "history_entry list \<Rightarrow> participant \<Rightarrow> participant_id option \<Rightarrow> message_id option \<Rightarrow> chat_entry option \<Rightarrow>
     chat_reply_ref option outcome" where
  \<comment> \<open>the \<^verbatim>\<open>reply_to\<close> match of \<^verbatim>\<open>prepare_chat_attempt_with_saved_reply\<close>\<close>
  "resolve_reply history sender recipient_id reply_to saved_reply =
     (case reply_to of
        None \<Rightarrow> Inr None
      | Some i \<Rightarrow>
          (case quote_reply history sender recipient_id i of
             Inr reply \<Rightarrow> Inr (Some reply)
           | Inl e \<Rightarrow>
               (case saved_reply of
                  Some original \<Rightarrow>
                    if recipient_id = None \<and> ce_message_id original = i
                    then map_sum id Some (saved_public_reply original sender) else Inl e
                | None \<Rightarrow> Inl e)))"

section \<open>Attempts\<close>

definition MAX_CHAT_SEQUENCE :: u64 where "MAX_CHAT_SEQUENCE = 9007199254740991"
definition MAX_MESSAGE_FILES :: nat where "MAX_MESSAGE_FILES = 4"

definition valid_ids :: "uuid list \<Rightarrow> bool" where
  "valid_ids ids \<longleftrightarrow> length ids \<le> MAX_MESSAGE_FILES \<and> distinct ids"

record chat_attempt =
  at_content :: string
  at_attachment_ids :: "uuid list"
  at_client_message_id :: "string option"
  at_recipient_id :: "participant_id option"
  at_sequence :: "u64 option"
  at_retry_session :: "string option"
  at_reply_to :: "message_id option"

record prepared_chat =
  pc_message :: chat_entry
  pc_attachment_ids :: "uuid list"
  pc_sender_session :: uuid
  pc_sender_authenticated :: bool
  pc_recipient :: "(string \<times> uuid \<times> chan) option"
  pc_sequence :: "u64 option"
  pc_receipt_bytes :: nat
  pc_now :: instant
  pc_persist :: bool
  pc_durable :: bool

record chat_env =
  cv_icu :: icu
  cv_size :: size_of
  cv_parse_uuid :: "string \<Rightarrow> uuid option"
  cv_accepts :: "chan \<Rightarrow> bool"
  cv_now :: instant
  cv_wall :: date_time
  cv_message_id :: message_id
  cv_client_id :: string

text \<open>The commands of a socket as attempts; any other command is refused.\<close>

definition chat_attempt_of :: "client_message \<Rightarrow> chat_attempt outcome" where
  "chat_attempt_of command =
     (case command of
        CmdChatMessage content attachment_ids client_message_id sequence reply_to \<Rightarrow>
          Inr \<lparr>at_content = content, at_attachment_ids = attachment_ids, at_client_message_id = client_message_id,
               at_recipient_id = None, at_sequence = sequence, at_retry_session = None, at_reply_to = reply_to\<rparr>
      | CmdPrivateMessage target content attachment_ids client_message_id sequence reply_to \<Rightarrow>
          Inr \<lparr>at_content = content, at_attachment_ids = attachment_ids, at_client_message_id = Some client_message_id,
               at_recipient_id = Some target, at_sequence = sequence, at_retry_session = None, at_reply_to = reply_to\<rparr>
      | CmdRetryChatMessage m \<Rightarrow>
          Inr \<lparr>at_content = rc_content m, at_attachment_ids = rc_attachment_ids m,
               at_client_message_id = Some (rc_client_message_id m), at_recipient_id = rc_target_participant_id m,
               at_sequence = Some (rc_sequence m), at_retry_session = Some (rc_chat_session_id m),
               at_reply_to = rc_reply_to m\<rparr>
      | _ \<Rightarrow> Inl (invalid ''Invalid chat command''))"

section \<open>Answers\<close>

definition send :: "chat_env \<Rightarrow> chan \<Rightarrow> server_message \<Rightarrow> unit outcome \<times> effect list" where
  "send env sender message =
     (if cv_accepts env sender then Inr () else Inl (rate_limited ''Connection is busy; please retry''),
      [Send sender message])"

definition acknowledge_chat :: "chan \<Rightarrow> chat_entry \<Rightarrow> effect list" where
  "acknowledge_chat sender message = [Send sender (MsgMessageAck (ce_client_message_id message) message)]"

definition answer_unknown :: "chat_env \<Rightarrow> chan \<Rightarrow> string \<Rightarrow> chat_retry_reason \<Rightarrow> room \<Rightarrow> 'a option reply" where
  \<comment> \<open>the closure \<^verbatim>\<open>unknown\<close>, with the \<^verbatim>\<open>map(|()| None)\<close> its callers apply\<close>
  "answer_unknown env sender client_message_id reason room =
     (let (result, sent) = send env sender (MsgMessageRetryResult client_message_id Unknown reason) in
      (map_sum id (\<lambda>_. None) result, room, sent))"

definition chat_persistence_failure :: "chat_env \<Rightarrow> chan \<Rightarrow> string \<Rightarrow> room_error \<Rightarrow> unit outcome \<times> effect list" where
  "chat_persistence_failure env sender client_message_id error =
     (case error of
        Refused r \<Rightarrow> (Inl (refused r), [])
      | Database _ \<Rightarrow>
          if persistence_is_indeterminate error
          then (Inr (), snd (send env sender (MsgMessageRetryResult client_message_id Unknown StorageUnconfirmed)))
          else (Inl (SocialFailure CodeRequestFailed ''Message could not be saved; try again''), []))"

section \<open>Preparing an attempt\<close>

text \<open>The same client identifier with another text, other files, another reply or recipient.\<close>

definition conflicts_with :: "chat_entry \<Rightarrow> chat_attempt \<Rightarrow> bool" where
  "conflicts_with existing a \<longleftrightarrow>
     (ce_removed_at existing = None \<and> ce_edited_at existing = None
        \<and> (ce_content existing \<noteq> at_content a \<or> replied_to existing \<noteq> at_reply_to a))
     \<or> (ce_removed_at existing = None \<and> map ca_id (ce_attachments existing) \<noteq> at_attachment_ids a)
     \<or> ce_recipient_id existing \<noteq> at_recipient_id a"

definition attempt_refusal :: "icu \<Rightarrow> chat_attempt \<Rightarrow> string \<Rightarrow> failure option" where
  \<comment> \<open>the checks before the room is looked at; the client identifier is given or fresh\<close>
  "attempt_refusal u a client_message_id =
     (if (trim (at_content a) = [] \<and> at_attachment_ids a = []) \<or> length (at_content a) > 4096
        then Some (invalid message_length_error)
      else if \<not> is_plain_text u (at_content a)
        then Some (invalid ''Message contains hidden formatting characters'')
      else if \<not> valid_ids (at_attachment_ids a) then Some (invalid ''Attach at most four different files'')
      else if \<not> valid_correlation_id client_message_id then Some (invalid ''Invalid message ID'')
      else if is_some_and (\<lambda>n. n = 0 \<or> n > MAX_CHAT_SEQUENCE) (at_sequence a)
        then Some (invalid ''Invalid chat attempt'')
      else None)"

definition reserve_chat :: "instant \<Rightarrow> room \<Rightarrow> bool \<times> room" where
  "reserve_chat now room =
     (let (ok, w) = reserve now (rm_chat_broadcasts room) in (ok, room\<lparr>rm_chat_broadcasts := w\<rparr>))"

text \<open>
  The second half, once the attempt is known to be new: the recipient, the quote, then the size of
  the confirmation and the room's budget.
\<close>

definition admit_message ::
  "chat_env \<Rightarrow> chan \<Rightarrow> participant \<Rightarrow> chat_attempt \<Rightarrow> (string \<times> uuid \<times> chan) option \<Rightarrow> chat_entry \<Rightarrow> room \<Rightarrow>
     prepared_chat option reply" where
  "admit_message env expected_sender sender a recipient message room =
     (case cv_size env message of
        None \<Rightarrow> (Inl (Bail ''serde_json''), room, [])
      | Some receipt_bytes \<Rightarrow>
          if receipt_bytes > CHAT_RECEIPT_BYTES then
            (if at_retry_session a \<noteq> None
             then answer_unknown env expected_sender (ce_client_message_id message) Capacity room
             else (Inl (invalid ''Chat confirmation exceeds its size limit''), room, []))
          else (let (ok, room') = (if recipient = None then reserve_chat (cv_now env) room else (True, room)) in
                if \<not> ok then (Inl (rate_limited ''Room chat rate limit exceeded''), room', [])
                else (Inr (Some
                  \<lparr>pc_message = message, pc_attachment_ids = at_attachment_ids a,
                   pc_sender_session = pt_media_session_id sender, pc_sender_authenticated = pt_authenticated sender,
                   pc_recipient = recipient, pc_sequence = at_sequence a, pc_receipt_bytes = receipt_bytes,
                   pc_now = cv_now env,
                   pc_persist = (case at_recipient_id a of
                      Some i \<Rightarrow> pt_authenticated sender \<and> is_some_and pt_authenticated (tget (rm_participants room') i)
                    | None \<Rightarrow> keeps_history room'),
                   pc_durable = False\<rparr>), room', [])))"

definition find_recipient :: "participant \<Rightarrow> chat_attempt \<Rightarrow> room \<Rightarrow> (string \<times> uuid \<times> chan) option outcome" where
  "find_recipient sender a room =
     (case at_recipient_id a of
        None \<Rightarrow> Inr None
      | Some i \<Rightarrow>
          (case tget (rm_participants room) i of
             None \<Rightarrow> Inl (unavailable ''Private message unavailable'')
           | Some recipient \<Rightarrow>
               if can_private_message sender recipient
               then Inr (Some (pt_name recipient, pt_media_session_id recipient, pt_sender recipient))
               else Inl (unavailable ''Private message unavailable'')))"

definition new_message ::
  "chat_env \<Rightarrow> participant_id \<Rightarrow> participant \<Rightarrow> string \<Rightarrow> chat_attempt \<Rightarrow> (string \<times> uuid \<times> chan) option \<Rightarrow>
     chat_reply_ref option \<Rightarrow> chat_entry" where
  "new_message env sender_id sender client_message_id a recipient reply_to =
     \<lparr>ce_message_id = cv_message_id env, ce_client_message_id = client_message_id,
      ce_participant_id = sender_id, ce_participant_name = pt_name sender,
      ce_recipient_id = at_recipient_id a, ce_recipient_name = map_option fst recipient,
      ce_account_conversation = None, ce_content = at_content a, ce_attachments = [],
      ce_sent_at = cv_wall env, ce_removed_at = None, ce_revision = 0, ce_edited_at = None,
      ce_chat_style = pt_chat_style sender, ce_reply_to = reply_to, ce_reactions = []\<rparr>"

definition compose_chat ::
  "chat_env \<Rightarrow> participant_id \<Rightarrow> chan \<Rightarrow> participant \<Rightarrow> string \<Rightarrow> chat_attempt \<Rightarrow> chat_entry option \<Rightarrow> room \<Rightarrow>
     prepared_chat option reply" where
  "compose_chat env sender_id expected_sender sender client_message_id a saved_reply room =
     attempt (find_recipient sender a room) room (\<lambda>recipient.
     attempt (resolve_reply (so_history (rm_social room)) sender (at_recipient_id a) (at_reply_to a) saved_reply) room (\<lambda>reply_to.
       admit_message env expected_sender sender a recipient
         (new_message env sender_id sender client_message_id a recipient reply_to) room))"

definition same_attempt :: "uuid \<Rightarrow> string \<Rightarrow> uuid \<Rightarrow> chat_entry \<Rightarrow> bool" where
  "same_attempt sender_session client_message_id session message \<longleftrightarrow>
     session = sender_session \<and> ce_client_message_id message = client_message_id"

definition prepare_chat_attempt ::
  "chat_env \<Rightarrow> participant_id \<Rightarrow> chan \<Rightarrow> chat_attempt \<Rightarrow> chat_entry option \<Rightarrow> room \<Rightarrow> prepared_chat option reply" where
  "prepare_chat_attempt env sender_id expected_sender a saved_reply room0 =
     (let client_message_id = (case at_client_message_id a of Some c \<Rightarrow> c | None \<Rightarrow> cv_client_id env);
          room = room0\<lparr>rm_social := prune_receipts (cv_now env) (rm_social room0)\<rparr> in
      case attempt_refusal (cv_icu env) a client_message_id of
        Some e \<Rightarrow> (Inl e, room0, [])
      | None \<Rightarrow>
        attempt (ensure_live room0) room0 (\<lambda>_.
        attempt (participant_for_sender room sender_id expected_sender) room (\<lambda>sender.
          if at_attachment_ids a \<noteq> [] \<and> \<not> pt_authenticated sender
            then (Inl (forbidden ''Sign in to attach files''), room, [])
          else if is_some_and (\<lambda>s. cv_parse_uuid env s \<noteq> Some (ps_chat_session_id (pt_social sender))) (at_retry_session a)
            then answer_unknown env expected_sender client_message_id SessionChanged room
          else (case find (\<lambda>r. same_attempt (pt_media_session_id sender) client_message_id (cp_sender_session r) (cp_message r))
                       (so_receipts (rm_social room)) of
            Some existing \<Rightarrow>
              if conflicts_with (cp_message existing) a \<or> cp_sequence existing \<noteq> at_sequence a then
                (if at_retry_session a = None then (Inl (invalid ''Message ID was already used''), room, [])
                 else answer_unknown env expected_sender client_message_id RetryConflict room)
              else (Inr None, room, acknowledge_chat expected_sender (cp_message existing))
          | None \<Rightarrow>
            if is_some_and (\<lambda>n. n \<le> ps_chat_high_water (pt_social sender)) (at_sequence a) then
              answer_unknown env expected_sender client_message_id
                (if at_sequence a = Some (ps_chat_high_water (pt_social sender)) then ReceiptExpired else SequenceSuperseded) room
            else if at_retry_session a \<noteq> None \<and> at_recipient_id a \<noteq> None
              then answer_unknown env expected_sender client_message_id RecipientUnconfirmed room
            else if \<not> chat_allowed room sender then (Inl (forbidden ''You are not allowed to chat''), room, [])
            else (case find (\<lambda>h. same_attempt (pt_media_session_id sender) client_message_id (he_sender_session h) (he_message h))
                         (so_history (rm_social room)) of
              Some existing \<Rightarrow>
                if conflicts_with (he_message existing) a then (Inl (invalid ''Message ID was already used''), room, [])
                else (Inr None, room, acknowledge_chat expected_sender (he_message existing))
            | None \<Rightarrow> compose_chat env sender_id expected_sender sender client_message_id a saved_reply room)))))"

section \<open>Finishing an attempt\<close>

definition chat_received :: "chat_entry \<Rightarrow> server_message" where
  "chat_received m = MsgChatReceived (ce_participant_id m) (ce_participant_name m) (ce_content m) (ce_attachments m)
     (ce_message_id m) (ce_client_message_id m) (ce_sent_at m) (ce_removed_at m) (ce_revision m) (ce_edited_at m)
     (ce_chat_style m) (ce_reply_to m)"

definition deliver_chat :: "chat_env \<Rightarrow> participant_id \<Rightarrow> prepared_chat \<Rightarrow> room \<Rightarrow> unit outcome \<times> effect list" where
  "deliver_chat env sender_id prepared room =
     (case pc_recipient prepared of
        Some (_, _, recipient_sender) \<Rightarrow>
          (let (delivered, sent) = send env recipient_sender (MsgPrivateMessageReceived (pc_message prepared)) in
           (if pc_durable prepared then Inr () else delivered, sent))
      | None \<Rightarrow>
          (Inr (), map (\<lambda>p. Send (pt_sender p) (chat_received (pc_message prepared)))
             (filter (\<lambda>p. pt_id p \<noteq> sender_id \<and> sender_id \<notin> set (ps_ignored (pt_social p)))
               (values_of (rm_participants room)))))"

definition advance_watermark :: "participant_id \<Rightarrow> u64 option \<Rightarrow> room \<Rightarrow> room" where
  "advance_watermark sender_id sequence room =
     (case sequence of
        None \<Rightarrow> room
      | Some n \<Rightarrow> room\<lparr>rm_participants := tmod sender_id
          (\<lambda>p. p\<lparr>pt_social := (pt_social p)\<lparr>ps_chat_high_water := n\<rparr>\<rparr>) (rm_participants room)\<rparr>)"

definition finish_chat_attempt ::
  "chat_env \<Rightarrow> participant_id \<Rightarrow> chan \<Rightarrow> prepared_chat \<Rightarrow> room \<Rightarrow> unit reply" where
  "finish_chat_attempt env sender_id expected_sender prepared room =
     (case deliver_chat env sender_id prepared room of
        (Inl e, sent) \<Rightarrow> (Inl e, room, sent)
      | (Inr _, sent) \<Rightarrow>
          (case make_receipt_room (pc_sender_session prepared) (pc_receipt_bytes prepared) (rm_social room) of
             None \<Rightarrow> (Inl (Bail ''attempt to subtract with overflow''), room, sent) \<comment> \<open>a panic\<close>
           | Some social \<Rightarrow>
               (let receipt = \<lparr>cp_sender_session = pc_sender_session prepared, cp_sequence = pc_sequence prepared,
                      cp_accepted_at = pc_now prepared, cp_bytes = pc_receipt_bytes prepared, cp_message = pc_message prepared\<rparr>;
                    room1 = advance_watermark sender_id (pc_sequence prepared) (room\<lparr>rm_social := push_receipt receipt social\<rparr>);
                    room2 = room1\<lparr>rm_social := remember (cv_size env) (pc_sender_session prepared)
                      (map_option (fst \<circ> snd) (pc_recipient prepared)) (pc_sender_authenticated prepared)
                      (pc_message prepared) (rm_social room1)\<rparr> in
                (Inr (), room2, sent @ acknowledge_chat expected_sender (pc_message prepared)))))"

definition process_chat_attempt :: "chat_env \<Rightarrow> participant_id \<Rightarrow> chan \<Rightarrow> chat_attempt \<Rightarrow> room \<Rightarrow> unit reply" where
  "process_chat_attempt env sender_id expected_sender a room =
     (case prepare_chat_attempt env sender_id expected_sender a None room of
        (Inl e, room', sent) \<Rightarrow> (Inl e, room', sent)
      | (Inr None, room', sent) \<Rightarrow> (Inr (), room', sent)
      | (Inr (Some prepared), room', sent) \<Rightarrow>
          (let (result, room'', sent') = finish_chat_attempt env sender_id expected_sender prepared room' in
           (result, room'', sent @ sent')))"

section \<open>Submitting an attempt\<close>

text \<open>
  A saved message waits for the room's control, possibly looks its quoted message up, and is
  stored; each of these releases the room. What the rest of the server does to the room meanwhile
  and what the database answers are arguments, \<^const>\<open>None\<close> standing for a deadline that passed.
\<close>

record submit_env =
  su_chat :: chat_env
  su_pool :: bool
  su_gate :: control_gate
  su_mapped :: bool
  su_lookup :: "(room_error + chat_entry option) option"
  su_stored :: "(room_error + chat_entry) option"
  su_bound :: "(room_error + chat_attachment list) option"
  su_waiting :: "room \<Rightarrow> room"
  su_looking :: "room \<Rightarrow> room"
  su_storing :: "room \<Rightarrow> room"

definition bound_again :: "participant_id \<Rightarrow> chan \<Rightarrow> room \<Rightarrow> (participant \<Rightarrow> 'a reply) \<Rightarrow> 'a reply" where
  \<comment> \<open>after an await: the room is live and the sender still owns its membership\<close>
  "bound_again sender_id expected_sender room k =
     attempt (ensure_live room) room (\<lambda>_. attempt (participant_for_sender room sender_id expected_sender) room k)"

definition save_chat ::
  "submit_env \<Rightarrow> participant_id \<Rightarrow> chan \<Rightarrow> prepared_chat \<Rightarrow> string \<Rightarrow> (room_error + 'w) option \<Rightarrow>
     ('w \<Rightarrow> prepared_chat) \<Rightarrow> room \<Rightarrow> unit reply" where
  "save_chat env sender_id expected_sender prepared no_pool write saved room =
     (if \<not> su_pool env then (Inl (unavailable no_pool), room, [])
      else (case persist_room (su_mapped env) write (su_storing env room) of
              (Inl e, room1, sent) \<Rightarrow>
                (let (result, told) = chat_persistence_failure (su_chat env) expected_sender
                       (ce_client_message_id (pc_message prepared)) e in
                 (result, room1, sent @ told))
            | (Inr w, room1, sent) \<Rightarrow>
                (case cv_size (su_chat env) (pc_message (saved w)) of
                   None \<Rightarrow> (Inl (Bail ''serde_json''), room1, sent)
                 | Some n \<Rightarrow>
                     (let (result, room2, told) = bound_again sender_id expected_sender room1 (\<lambda>_.
                            finish_chat_attempt (su_chat env) sender_id expected_sender
                              ((saved w)\<lparr>pc_receipt_bytes := n\<rparr>) room1) in
                      (result, room2, sent @ told)))))"

definition store_chat_attempt ::
  "submit_env \<Rightarrow> participant_id \<Rightarrow> chan \<Rightarrow> chat_attempt \<Rightarrow> chat_entry option \<Rightarrow> room \<Rightarrow> unit reply" where
  "store_chat_attempt env sender_id expected_sender a saved_reply room =
     (case prepare_chat_attempt (su_chat env) sender_id expected_sender a saved_reply room of
        (Inl e, room', sent) \<Rightarrow> (Inl e, room', sent)
      | (Inr None, room', sent) \<Rightarrow> (Inr (), room', sent)
      | (Inr (Some prepared), room', sent) \<Rightarrow>
          (let (result, room'', sent') =
                 (if pc_persist prepared
                  then save_chat env sender_id expected_sender prepared ''History unavailable'' (su_stored env)
                         (\<lambda>message. prepared\<lparr>pc_message := message, pc_durable := True\<rparr>) room'
                  else if pc_attachment_ids prepared \<noteq> []
                  then save_chat env sender_id expected_sender prepared ''Attachments unavailable'' (su_bound env)
                         (\<lambda>files. prepared\<lparr>pc_message := (pc_message prepared)\<lparr>ce_attachments := files\<rparr>\<rparr>) room'
                  else finish_chat_attempt (su_chat env) sender_id expected_sender prepared room') in
           (result, room'', sent @ sent')))"

definition look_up_reply ::
  "submit_env \<Rightarrow> participant_id \<Rightarrow> chan \<Rightarrow> chat_attempt \<Rightarrow> room \<Rightarrow> chat_entry option reply" where
  "look_up_reply env sender_id expected_sender a room =
     (case at_reply_to a of
        Some i \<Rightarrow>
          if at_recipient_id a = None \<and> keeps_history room then
            attempt (participant_for_sender room sender_id expected_sender) room (\<lambda>actor.
              if is_ok (quote_reply (so_history (rm_social room)) actor None i) then (Inr None, room, [])
              else if \<not> su_pool env then (Inl (unavailable ''History unavailable''), room, [])
              else (let room' = su_looking env room in
                    case su_lookup env of
                      None \<Rightarrow> (Inl (SocialFailure CodeTimedOut ''Chat history timed out''), room', [])
                    | Some (Inl e) \<Rightarrow> (Inl (Bail (error_text e)), room', [])
                    | Some (Inr saved) \<Rightarrow> bound_again sender_id expected_sender room' (\<lambda>_. (Inr saved, room', []))))
          else (Inr None, room, [])
      | None \<Rightarrow> (Inr None, room, []))"

definition saves_chat :: "submit_env \<Rightarrow> participant_id \<Rightarrow> chat_attempt \<Rightarrow> room \<Rightarrow> bool" where
  "saves_chat env sender_id a room \<longleftrightarrow>
     su_pool env \<and>
     (case at_recipient_id a of
        Some i \<Rightarrow> is_some_and pt_authenticated (tget (rm_participants room) sender_id)
                  \<and> is_some_and pt_authenticated (tget (rm_participants room) i)
      | None \<Rightarrow> keeps_history room)"

definition submit_chat_attempt ::
  "submit_env \<Rightarrow> participant_id \<Rightarrow> chan \<Rightarrow> chat_attempt \<Rightarrow> room \<Rightarrow> unit reply" where
  "submit_chat_attempt env sender_id expected_sender a room =
     (if \<not> saves_chat env sender_id a room \<and> at_attachment_ids a = []
      then process_chat_attempt (su_chat env) sender_id expected_sender a room
      else run_room_control (su_gate env) (\<lambda>room.
             (case look_up_reply env sender_id expected_sender a room of
                (Inl e, room', sent) \<Rightarrow> (Inl e, room', sent)
              | (Inr saved, room', sent) \<Rightarrow>
                  (let (result, room'', sent') = store_chat_attempt env sender_id expected_sender a saved room' in
                   (result, room'', sent @ sent')))) (su_waiting env room))"

definition handle_chat_command :: "submit_env \<Rightarrow> participant_id \<Rightarrow> chan \<Rightarrow> client_message \<Rightarrow> room \<Rightarrow> unit reply" where
  "handle_chat_command env sender_id expected_sender command room =
     attempt (chat_attempt_of command) room (\<lambda>a. submit_chat_attempt env sender_id expected_sender a room)"

section \<open>Typing\<close>

definition TYPING_INTERVAL :: duration where "TYPING_INTERVAL = from_secs 2"

definition relay_typing ::
  "instant \<Rightarrow> participant_id \<Rightarrow> chan \<Rightarrow> participant_id option \<Rightarrow> room \<Rightarrow> unit reply" where
  "relay_typing now sender_id expected_sender target room =
     attempt (participant_for_sender room sender_id expected_sender) room (\<lambda>sender.
       let relay = chat_allowed room sender
             \<and> \<not> is_some_and (\<lambda>last. duration_since now last < TYPING_INTERVAL) (ps_last_typing (pt_social sender));
           target_accepts = is_some_and (\<lambda>t. t \<noteq> sender_id \<and> t \<notin> set (ps_ignored (pt_social sender))
             \<and> is_some_and (\<lambda>p. ps_allow_private_messages (pt_social p) \<and> sender_id \<notin> set (ps_ignored (pt_social p)))
                 (tget (rm_participants room) t)) target in
       if \<not> relay then (Inr (), room, [])
       else (let room' = room\<lparr>rm_participants := tmod sender_id
                   (\<lambda>p. p\<lparr>pt_social := (pt_social p)\<lparr>ps_last_typing := Some now\<rparr>\<rparr>) (rm_participants room)\<rparr>;
                 event = MsgParticipantTyping sender_id target in
             (Inr (), room',
              (case target of
                 Some t \<Rightarrow>
                   (case tget (rm_participants room') t of
                      Some recipient \<Rightarrow> if target_accepts then [Send (pt_sender recipient) event] else []
                    | None \<Rightarrow> [])
               | None \<Rightarrow>
                   map (\<lambda>p. Send (pt_sender p) event)
                     (filter (\<lambda>p. pt_id p \<noteq> sender_id \<and> sender_id \<notin> set (ps_ignored (pt_social p)))
                       (values_of (rm_participants room')))))))"

end
