(* ===== verification/Chat_Delivery_Safety.thy ===== *)
theory Chat_Delivery_Safety
  imports Chat_Delivery Live_Steps
begin

text \<open>
  What the chat operations do, case by case: an attempt is answered or prepared, a prepared one is
  refused or accepted. They are quiet steps of the room, and what they send is an answer on the
  sender's own connection or a delivery to the message's audience.
\<close>

section \<open>What preparing does\<close>

abbreviation pruned :: "chat_env \<Rightarrow> room \<Rightarrow> room" where
  "pruned env r \<equiv> r\<lparr>rm_social := prune_receipts (cv_now env) (rm_social r)\<rparr>"

abbreviation client_id :: "chat_env \<Rightarrow> chat_attempt \<Rightarrow> string" where
  "client_id env a \<equiv> (case at_client_message_id a of Some c \<Rightarrow> c | None \<Rightarrow> cv_client_id env)"

definition own_answer :: "chan \<Rightarrow> effect \<Rightarrow> bool" where
  "own_answer c e \<longleftrightarrow> (\<exists>x m. e = Send c (MsgMessageAck x m)) \<or> (\<exists>x u y. e = Send c (MsgMessageRetryResult x u y))"

lemma own_answer_simps [simp]:
  "own_answer c (Send ch (MsgMessageAck x m)) \<longleftrightarrow> ch = c" "own_answer c (Send ch (MsgMessageRetryResult x u y)) \<longleftrightarrow> ch = c"
  by (auto simp: own_answer_def)

definition fresh_attempt :: "chat_env \<Rightarrow> participant_id \<Rightarrow> chan \<Rightarrow> chat_attempt \<Rightarrow> participant \<Rightarrow> room \<Rightarrow> bool" where
  "fresh_attempt env i c a sender r \<longleftrightarrow>
     attempt_refusal (cv_icu env) a (client_id env a) = None \<and> participant_for_sender r i c = Inr sender
     \<and> \<not> (\<exists>x \<in> set (so_receipts (rm_social r)).
            same_attempt (pt_media_session_id sender) (client_id env a) (cp_sender_session x) (cp_message x))
     \<and> \<not> is_some_and (\<lambda>n. n \<le> ps_chat_high_water (pt_social sender)) (at_sequence a) \<and> chat_allowed r sender"

lemma find_None_ex: "find P xs = None \<longleftrightarrow> \<not> (\<exists>x \<in> set xs. P x)"
  by (auto simp: find_None_iff)

lemma answer_unknown_cases:
  assumes "answer_unknown env c x reason r = (res, r', sent)"
  shows "(\<forall>p. res \<noteq> Inr (Some p)) \<and> r' = r \<and> list_all (own_answer c) sent"
  using assms by (auto simp: answer_unknown_def send_def split: if_splits)

lemma participant_for_sender_pruned [simp]:
  "participant_for_sender (r\<lparr>rm_social := s\<rparr>) i c = participant_for_sender r i c"
  "chat_allowed (r\<lparr>rm_social := s\<rparr>) = chat_allowed r"
  by (simp_all add: participant_for_sender_def ensure_live_def chat_allowed_def fun_eq_iff)

lemma prepare_chat_attempt_cases:
  assumes "prepare_chat_attempt env i c a saved r0 = (res, r, sent)"
  obtains (answered) "\<forall>p. res \<noteq> Inr (Some p)" "r \<in> {r0, pruned env r0}" "list_all (own_answer c) sent"
  | (composed) sender where "fresh_attempt env i c a sender (pruned env r0)"
      "compose_chat env i c sender (client_id env a) a saved (pruned env r0) = (res, r, sent)"
proof -
  note split = prepare_chat_attempt_def Let_def attempt_def
  show ?thesis
  proof (cases "attempt_refusal (cv_icu env) a (client_id env a)")
    case (Some e)
    then show ?thesis using assms by (intro answered) (auto simp: split)
  next
    case ok: None
    show ?thesis
    proof (cases "ensure_live r0")
      case (Inl e)
      then show ?thesis using assms ok by (intro answered) (auto simp: split)
    next
      case live: (Inr u)
      show ?thesis
      proof (cases "participant_for_sender r0 i c")
        case (Inl e)
        then show ?thesis using assms ok live by (intro answered) (auto simp: split)
      next
        case pfs: (Inr sender)
        note known = ok live pfs
        show ?thesis
        proof (cases "fresh_attempt env i c a sender (pruned env r0)
            \<and> compose_chat env i c sender (client_id env a) a saved (pruned env r0) = (res, r, sent)")
          case True
          then show ?thesis using composed by blast
        next
          case False
          have "(\<forall>p. res \<noteq> Inr (Some p)) \<and> r = pruned env r0 \<and> list_all (own_answer c) sent"
            using assms False
            by (auto simp: split known fresh_attempt_def find_None_ex acknowledge_chat_def
                dest!: answer_unknown_cases split: if_splits option.splits)
          then show ?thesis using answered by blast
        qed
      qed
    qed
  qed
qed


definition chat_recipient :: "chat_attempt \<Rightarrow> participant \<Rightarrow> room \<Rightarrow> (string \<times> uuid \<times> chan) option \<Rightarrow> bool" where
  "chat_recipient a sender r recipient =
     (case at_recipient_id a of
        None \<Rightarrow> recipient = None
      | Some t \<Rightarrow> \<exists>q. tget (rm_participants r) t = Some q \<and> can_private_message sender q
                    \<and> recipient = Some (pt_name q, pt_media_session_id q, pt_sender q))"

definition written_by :: "chat_env \<Rightarrow> participant_id \<Rightarrow> chat_attempt \<Rightarrow> chat_entry \<Rightarrow> bool" where
  "written_by env i a m \<longleftrightarrow>
     ce_participant_id m = i \<and> ce_client_message_id m = client_id env a \<and> ce_content m = at_content a
     \<and> ce_recipient_id m = at_recipient_id a \<and> ce_removed_at m = None \<and> ce_edited_at m = None \<and> ce_attachments m = []
     \<and> replied_to m = at_reply_to a"

lemma reply_reference_id: "reply_reference m sender t = Inr q \<Longrightarrow> cq_message_id q = ce_message_id m"
  by (auto simp: reply_reference_def split: if_splits option.splits)

lemma resolve_reply_id:
  assumes "resolve_reply h sender t i saved = Inr q"
  shows "map_option cq_message_id q = i"
proof (cases i)
  case (Some k)
  show ?thesis
  proof (cases "quote_reply h sender t k")
    case (Inl e)
    then obtain m where m: "ce_message_id m = k" "map_sum id Some (saved_public_reply m sender) = Inr q"
      using assms Some by (auto simp: resolve_reply_def split: option.splits if_splits)
    then obtain w where "saved_public_reply m sender = Inr w" "q = Some w" by (cases "saved_public_reply m sender") auto
    then show ?thesis
      using Some m(1) by (auto simp: saved_public_reply_def dest!: reply_reference_id split: if_splits)
  next
    case (Inr w)
    then obtain e where "find (\<lambda>entry. ce_message_id (he_message entry) = k \<and> visible entry sender) (rev h) = Some e"
        "reply_reference (he_message e) sender t = Inr w"
      by (auto simp: quote_reply_def split: option.splits)
    then show ?thesis
      using assms Some Inr by (auto simp: resolve_reply_def find_Some_iff dest!: reply_reference_id)
  qed
qed (use assms in \<open>simp add: resolve_reply_def\<close>)

lemma find_recipient_ok: "find_recipient sender a r = Inr recipient \<Longrightarrow> chat_recipient a sender r recipient"
  by (auto simp: find_recipient_def chat_recipient_def split: option.splits if_splits)

lemma reserve_chat_frame: "reserve_chat now r = (ok, r') \<Longrightarrow> \<exists>w. r' = r\<lparr>rm_chat_broadcasts := w\<rparr>"
  by (auto simp: reserve_chat_def split: prod.splits)

lemma same_broadcasts: "\<exists>w. r = (r :: room)\<lparr>rm_chat_broadcasts := w\<rparr>"
  by (rule exI [of _ "rm_chat_broadcasts r"]) simp

lemma admit_message_cases:
  assumes "admit_message env c sender a recipient m r = (res, r', sent)"
  obtains (answered) w where "\<forall>p. res \<noteq> Inr (Some p)" "r' = r\<lparr>rm_chat_broadcasts := w\<rparr>" "list_all (own_answer c) sent"
  | (prepared) p w where "res = Inr (Some p)" "r' = r\<lparr>rm_chat_broadcasts := w\<rparr>" "sent = []"
      "pc_recipient p = recipient" "pc_message p = m" "cv_size env m = Some (pc_receipt_bytes p)"
      "pc_receipt_bytes p \<le> CHAT_RECEIPT_BYTES" "pc_sequence p = at_sequence a" "pc_now p = cv_now env" "\<not> pc_durable p"
      "pc_sender_session p = pt_media_session_id sender" "pc_attachment_ids p = at_attachment_ids a"
      "pc_sender_authenticated p = pt_authenticated sender"
proof -
  obtain w0 where w0: "r = r\<lparr>rm_chat_broadcasts := w0\<rparr>" using same_broadcasts by blast
  obtain ok r1 where res: "(if recipient = None then reserve_chat (cv_now env) r else (True, r)) = (ok, r1)"
    by (cases "if recipient = None then reserve_chat (cv_now env) r else (True, r)") blast
  obtain w where w: "r1 = r\<lparr>rm_chat_broadcasts := w\<rparr>"
    using res w0 reserve_chat_frame by (metis prod.inject)
  note out = assms [unfolded admit_message_def Let_def res prod.case]
  consider (none) "cv_size env m = None" | (big) n where "cv_size env m = Some n" "n > CHAT_RECEIPT_BYTES"
    | (refused) n where "cv_size env m = Some n" "\<not> n > CHAT_RECEIPT_BYTES" "\<not> ok"
    | (ok) n where "cv_size env m = Some n" "\<not> n > CHAT_RECEIPT_BYTES" "ok"
    by (cases "cv_size env m") auto
  then show ?thesis
  proof cases
    case none
    then show ?thesis using out w0 by (intro answered [of w0]) auto
  next
    case big
    then show ?thesis
      using out w0 answer_unknown_cases [of env c "ce_client_message_id m" Capacity r res r' sent]
      by (intro answered [of w0]) (auto split: if_splits)
  next
    case refused
    then show ?thesis using out w by (intro answered [of w]) auto
  next
    case ok
    then show ?thesis using out w by (intro prepared [of _ w]) auto
  qed
qed

lemma compose_chat_cases:
  assumes "compose_chat env i c sender (client_id env a) a saved r = (res, r', sent)"
  obtains (answered) w where "\<forall>p. res \<noteq> Inr (Some p)" "r' = r\<lparr>rm_chat_broadcasts := w\<rparr>" "list_all (own_answer c) sent"
  | (prepared) p w where "res = Inr (Some p)" "r' = r\<lparr>rm_chat_broadcasts := w\<rparr>" "sent = []"
      "chat_recipient a sender r (pc_recipient p)" "written_by env i a (pc_message p)"
      "cv_size env (pc_message p) = Some (pc_receipt_bytes p)"
      "pc_receipt_bytes p \<le> CHAT_RECEIPT_BYTES" "pc_sequence p = at_sequence a" "pc_now p = cv_now env" "\<not> pc_durable p"
      "pc_sender_session p = pt_media_session_id sender" "pc_attachment_ids p = at_attachment_ids a"
      "pc_sender_authenticated p = pt_authenticated sender"
proof -
  obtain w0 where w0: "r = r\<lparr>rm_chat_broadcasts := w0\<rparr>" using same_broadcasts by blast
  note out = assms [unfolded compose_chat_def attempt_def]
  show ?thesis
  proof (cases "find_recipient sender a r")
    case (Inl e)
    then show ?thesis using out w0 by (intro answered [of w0]) auto
  next
    case to: (Inr recipient)
    show ?thesis
    proof (cases "resolve_reply (so_history (rm_social r)) sender (at_recipient_id a) (at_reply_to a) saved")
      case (Inl e)
      then show ?thesis using out w0 to by (intro answered [of w0]) auto
    next
      case reply: (Inr q)
      let ?m = "new_message env i sender (client_id env a) a recipient q"
      have "admit_message env c sender a recipient ?m r = (res, r', sent)" using out to reply by simp
      then show ?thesis
      proof (cases rule: admit_message_cases)
        case (answered w)
        then show ?thesis by (rule that(1))
      next
        case (prepared p w)
        have written: "written_by env i a (pc_message p)"
          using resolve_reply_id [OF reply] by (simp add: prepared(5) written_by_def new_message_def replied_to_def)
        have rec: "chat_recipient a sender r (pc_recipient p)"
          using find_recipient_ok [OF to] by (simp add: prepared(4))
        have size: "cv_size env (pc_message p) = Some (pc_receipt_bytes p)" using prepared(5,6) by simp
        show ?thesis by (rule that(2) [OF prepared(1-3) rec written size prepared(7-13)])
      qed
    qed
  qed
qed

lemma prepare_answers:
  assumes "prepare_chat_attempt env i c a saved r = (out, r', sent)" and "\<forall>p. out \<noteq> Inr (Some p)"
  shows "list_all (own_answer c) sent"
  using assms(1)
proof (cases rule: prepare_chat_attempt_cases)
  case (composed sender)
  from composed(2) show ?thesis
  proof (cases rule: compose_chat_cases)
    case (prepared p w)
    then show ?thesis using assms(2) by simp
  qed simp
qed simp

lemma prepare_prepares:
  assumes "prepare_chat_attempt env i c a saved r = (Inr (Some p), r', sent)"
  obtains sender w where "fresh_attempt env i c a sender (pruned env r)" "sent = []"
    "r' = (pruned env r)\<lparr>rm_chat_broadcasts := w\<rparr>" "chat_recipient a sender r (pc_recipient p)"
    "written_by env i a (pc_message p)" "pc_receipt_bytes p \<le> CHAT_RECEIPT_BYTES" "pc_sequence p = at_sequence a"
    "pc_now p = cv_now env" "\<not> pc_durable p" "pc_sender_session p = pt_media_session_id sender"
  using assms
proof (cases rule: prepare_chat_attempt_cases)
  case (composed sender)
  from composed(2) show ?thesis
  proof (cases rule: compose_chat_cases)
    case (prepared q w)
    then have "q = p" by simp
    moreover have "chat_recipient a sender r (pc_recipient q)" using prepared(4) by (simp add: chat_recipient_def cong: option.case_cong)
    ultimately show ?thesis using prepared(2,3,5,7-11) composed(1) by (intro that [of sender w]) simp_all
  qed simp
qed simp

section \<open>What finishing does\<close>

lemma tmod_present: "map_of t k = Some v \<Longrightarrow> tmod k f t = tput k (f v) t"
  by (induction t) auto

lemma tmod_absent: "map_of t k = None \<Longrightarrow> tmod k f t = t"
  by (induction t) (auto split: if_splits)

lemma quiet_member_social:
  "quiet r (r\<lparr>rm_participants := tmod i (\<lambda>p. p\<lparr>pt_social := f (pt_social p)\<rparr>) (rm_participants r)\<rparr>)"
proof (cases "tget (rm_participants r) i")
  case None
  then show ?thesis by (simp add: tmod_absent)
next
  case (Some p)
  then show ?thesis by (simp add: tmod_present) (rule quiet_put_member, auto simp: member_calm_def)
qed

lemma quiet_advance: "quiet r (advance_watermark i n r)"
  unfolding advance_watermark_def using quiet_member_social [of r i "\<lambda>s. s\<lparr>ps_chat_high_water := the n\<rparr>"]
  by (cases n) simp_all

lemma advance_watermark_frame [simp]: "rm_social (advance_watermark i n r) = rm_social r"
  by (simp add: advance_watermark_def split: option.splits)

definition receipt_of :: "prepared_chat \<Rightarrow> chat_receipt" where
  "receipt_of p = \<lparr>cp_sender_session = pc_sender_session p, cp_sequence = pc_sequence p, cp_accepted_at = pc_now p,
     cp_bytes = pc_receipt_bytes p, cp_message = pc_message p\<rparr>"

definition accepted_social :: "chat_env \<Rightarrow> prepared_chat \<Rightarrow> room_social \<Rightarrow> room_social" where
  "accepted_social env p s = remember (cv_size env) (pc_sender_session p) (map_option (fst \<circ> snd) (pc_recipient p))
     (pc_sender_authenticated p) (pc_message p) (push_receipt (receipt_of p) s)"

lemma finish_chat_attempt_cases:
  assumes "finish_chat_attempt env i c p r = (res, r', sent)" and "social_wf (rm_social r)"
    and "pc_receipt_bytes p \<le> CHAT_RECEIPT_BYTES"
  obtains (refused) e where "res = Inl e" "r' = r" "deliver_chat env i p r = (Inl e, sent)"
  | (accepted) s d where "res = Inr ()" "deliver_chat env i p r = (Inr (), d)" "sent = d @ acknowledge_chat c (pc_message p)"
      "make_receipt_room (pc_sender_session p) (pc_receipt_bytes p) (rm_social r) = Some s"
      "r' = advance_watermark i (pc_sequence p) (r\<lparr>rm_social := accepted_social env p s\<rparr>)"
proof -
  have "receipts_wf (rm_social r)" using assms(2) by (simp add: social_wf_def)
  from make_receipt_room_wf [OF this, of "receipt_of p"] assms(3)
  obtain s where s: "make_receipt_room (pc_sender_session p) (pc_receipt_bytes p) (rm_social r) = Some s"
    by (auto simp: receipt_of_def)
  have swap: "(advance_watermark i n (r\<lparr>rm_social := x\<rparr>))\<lparr>rm_social := y\<rparr> = advance_watermark i n (r\<lparr>rm_social := y\<rparr>)" for n x y
    by (simp add: advance_watermark_def split: option.splits)
  show ?thesis
  proof (cases "deliver_chat env i p r")
    case (Pair out d)
    show ?thesis
    proof (cases out)
      case (Inl e)
      then show ?thesis using assms(1) Pair by (intro refused [of e]) (auto simp: finish_chat_attempt_def)
    next
      case (Inr u)
      then show ?thesis
        using assms(1) Pair s swap
        by (intro accepted [of d s]) (auto simp: finish_chat_attempt_def Let_def accepted_social_def receipt_of_def)
    qed
  qed
qed

lemma quiet_finish:
  assumes fin: "finish_chat_attempt env i c p r = (res, r', sent)" and "pc_receipt_bytes p \<le> CHAT_RECEIPT_BYTES"
  shows "quiet r r'"
proof (cases "make_receipt_room (pc_sender_session p) (pc_receipt_bytes p) (rm_social r)")
  case None
  then show ?thesis using fin by (auto simp: finish_chat_attempt_def split: prod.splits sum.splits)
next
  case (Some s)
  have "social_wf (accepted_social env p s)" if "social_wf (rm_social r)"
    unfolding accepted_social_def using assms(2) that Some
    by (intro accept_wf [of "rm_social r"]) (simp_all add: receipt_of_def)
  then have step: "quiet r (r\<lparr>rm_social := accepted_social env p s\<rparr>)" by (rule quiet_social)
  have swap: "(advance_watermark i n (r\<lparr>rm_social := x\<rparr>))\<lparr>rm_social := y\<rparr> = advance_watermark i n (r\<lparr>rm_social := y\<rparr>)" for n x y
    by (simp add: advance_watermark_def split: option.splits)
  have "r' = r \<or> r' = advance_watermark i (pc_sequence p) (r\<lparr>rm_social := accepted_social env p s\<rparr>)"
    using fin by (auto simp: finish_chat_attempt_def Let_def Some swap accepted_social_def receipt_of_def split: prod.splits sum.splits)
  then show ?thesis using quiet_trans [OF step quiet_advance] by auto
qed

lemma social_wf_pruned: "social_wf s \<Longrightarrow> social_wf (prune_receipts now s)"
  by (simp add: social_wf_def prune_receipts_wf prune_receipts_history)

lemma quiet_pruned: "quiet r (pruned env r)"
  by (rule quiet_social) (rule social_wf_pruned)

lemma prepare_chat_attempt_frame:
  assumes "prepare_chat_attempt env i c a saved r = (res, r', sent)"
  shows "r' = r \<or> (\<exists>w. r' = (pruned env r)\<lparr>rm_chat_broadcasts := w\<rparr>)"
  using assms
proof (cases rule: prepare_chat_attempt_cases)
  case answered
  then show ?thesis using same_broadcasts [of "pruned env r"] by auto
next
  case (composed sender)
  from composed(2) show ?thesis by (cases rule: compose_chat_cases) auto
qed

lemma prepare_chat_attempt_quiet:
  assumes "prepare_chat_attempt env i c a saved r = (res, r', sent)"
  shows "quiet r r'" "social_wf (rm_social r) \<Longrightarrow> social_wf (rm_social r')" "rm_participants r' = rm_participants r"
  using prepare_chat_attempt_frame [OF assms] quiet_trans [OF quiet_pruned quiet_frame(1)] social_wf_pruned by auto

lemma prepared_bytes:
  "prepare_chat_attempt env i c a saved r = (Inr (Some p), r', sent) \<Longrightarrow> pc_receipt_bytes p \<le> CHAT_RECEIPT_BYTES"
  by (erule prepare_prepares)

lemma process_chat_attempt_quiet:
  assumes "process_chat_attempt env i c a r = (res, r', sent)"
  shows "quiet r r'"
proof -
  obtain out r1 s1 where prep: "prepare_chat_attempt env i c a None r = (out, r1, s1)" by (cases rule: prod_cases3)
  note q = prepare_chat_attempt_quiet [OF prep]
  show ?thesis
  proof (cases "\<exists>p. out = Inr (Some p)")
    case False
    then show ?thesis using assms q(1) by (auto simp: process_chat_attempt_def prep split: sum.splits option.splits)
  next
    case True
    then obtain p where p: "out = Inr (Some p)" by blast
    obtain out2 r2 s2 where fin: "finish_chat_attempt env i c p r1 = (out2, r2, s2)" by (cases rule: prod_cases3)
    have "quiet r1 r2" using quiet_finish [OF fin] prepared_bytes [of env i c a None r p] prep p by blast
    then show ?thesis using assms q(1) quiet_trans by (auto simp: process_chat_attempt_def prep p fin)
  qed
qed

lemma relay_typing_quiet: "relay_typing now i c t r = (res, r', sent) \<Longrightarrow> quiet r r'"
  unfolding relay_typing_def Let_def
  by (erule quiet_attempt) (auto simp: quiet_member_social [where f = "\<lambda>s. s\<lparr>ps_last_typing := Some now\<rparr>"] split: if_splits)

section \<open>Audience\<close>

definition is_delivery :: "effect \<Rightarrow> bool" where
  "is_delivery e = (case e of Send _ (MsgChatReceived _ _ _ _ _ _ _ _ _ _ _ _) \<Rightarrow> True
     | Send _ (MsgPrivateMessageReceived _) \<Rightarrow> True | _ \<Rightarrow> False)"

definition audience :: "room \<Rightarrow> participant \<Rightarrow> chat_attempt \<Rightarrow> participant list" where
  "audience r sender a =
     (case at_recipient_id a of
        None \<Rightarrow> filter (\<lambda>p. pt_id p \<noteq> pt_id sender \<and> pt_id sender \<notin> set (ps_ignored (pt_social p))) (values_of (rm_participants r))
      | Some t \<Rightarrow> (case tget (rm_participants r) t of
                    Some q \<Rightarrow> if can_private_message sender q then [q] else [] | None \<Rightarrow> []))"

definition delivery_of :: "chat_attempt \<Rightarrow> chat_entry \<Rightarrow> server_message" where
  "delivery_of a m = (if at_recipient_id a = None then chat_received m else MsgPrivateMessageReceived m)"

lemma is_delivery_simps [simp]:
  "is_delivery (Send ch (chat_received m))" "is_delivery (Send ch (MsgPrivateMessageReceived m))"
  "\<not> is_delivery (Send ch (MsgMessageAck x m))" "\<not> is_delivery (Send ch (MsgMessageRetryResult x u y))"
  by (simp_all add: is_delivery_def chat_received_def)

lemma own_answer_no_delivery: "own_answer c e \<Longrightarrow> \<not> is_delivery e"
  by (auto simp: own_answer_def)

lemma answers_no_delivery: "list_all (own_answer c) sent \<Longrightarrow> filter is_delivery sent = []"
  using own_answer_no_delivery by (fastforce simp: list_all_iff filter_empty_conv)

lemma participant_for_sender_ok:
  "participant_for_sender r i c = Inr p \<longleftrightarrow>
     \<not> rm_deleting r \<and> tget (rm_participants r) i = Some p \<and> pt_sender p = c"
  by (auto simp: participant_for_sender_def ensure_live_def split: option.splits if_splits)

lemma deliver_chat_audience:
  assumes "deliver_chat env i p r = (out, sent)" and "chat_recipient a sender r0 (pc_recipient p)"
    and "rm_participants r = rm_participants r0" and "pt_id sender = i"
  shows "sent = map (\<lambda>q. Send (pt_sender q) (delivery_of a (pc_message p))) (audience r0 sender a)"
  using assms
  by (auto simp: deliver_chat_def send_def chat_recipient_def audience_def delivery_of_def Let_def split: option.splits)

lemma finish_sent:
  assumes "finish_chat_attempt env i c p r = (res, r', sent)"
  shows "\<exists>out d. deliver_chat env i p r = (out, d) \<and> (sent = d \<or> sent = d @ acknowledge_chat c (pc_message p))"
proof (cases "deliver_chat env i p r")
  case (Pair out d)
  then show ?thesis using assms
    by (auto simp: finish_chat_attempt_def Let_def split: sum.splits option.splits)
qed

end
