(* ===== verification/Room_System.thy ===== *)
theory Room_System
  imports Live_Joins Durable_Moderation Chat_Delivery_Safety
begin

text \<open>
  One live room with everything that happens to it at once. A cell holds the room, the saved
  moderation rows, the operation that holds the room's control with the write it awaits, the joins
  between their policy snapshot and their commit, and the producer closings in flight. Every
  critical section of the operations modelled in the component theories is a step; the order of
  the steps is free, except where the code takes the control lock.
\<close>

section \<open>Operations in flight\<close>

datatype (plugins only: code size) pending =
  Sanctioning sanction_plan
  | Kicking removal_plan
  | Banning removal_plan
  | Unbanning participant_id participant_id "string \<times> bool"
  | Changing_role participant_id participant_id role role_plan
  | Hashing participant_id chan settings_patch bool
  | Changing_settings "string option option" settings_plan
  | Changing_topic participant_id string bool
  | Admitting participant_id bool

text \<open>A join after its snapshot, with what it has looked up so far.\<close>

record join_attempt =
  ja_request :: join_request
  ja_snapshot :: join_snapshot
  ja_taken :: nat
  ja_banned :: "bool option"
  ja_punitive :: "punitive_state option"

text \<open>
  \<open>c_written\<close> is the answer a write left for the operation in control, with the rows from before
  it. \<open>c_bumps\<close> counts the changes of the policy revision, which itself wraps, and \<open>ja_taken\<close> is
  that count at a join's snapshot; no step reads either. \<open>c_used\<close> lists the producer identifiers the media
  server has handed out.
\<close>

record cell =
  c_room :: room
  c_rows :: moderation_rows
  c_time :: date_time
  c_pool :: bool
  c_pending :: "pending option"
  c_written :: "(moderation_rows \<times> (room_error + bool) option) option"
  c_joins :: "join_attempt list"
  c_closings :: "(participant_id \<times> producer_id list) list"
  c_used :: "producer_id list"
  c_bumps :: nat

definition put_room :: "room \<Rightarrow> cell \<Rightarrow> cell" where
  "put_room r c =
     c\<lparr>c_room := r,
       c_bumps := c_bumps c + (if rm_policy_revision r = rm_policy_revision (c_room c) then 0 else 1)\<rparr>"

definition finished :: "room \<Rightarrow> cell \<Rightarrow> cell" where
  "finished r c = (put_room r c)\<lparr>c_pending := None, c_written := None\<rparr>"

section \<open>Writes\<close>

text \<open>Whether an operation awaits a write to the moderation rows before it publishes.\<close>

fun needs_write :: "bool \<Rightarrow> pending \<Rightarrow> bool" where
  "needs_write pool (Sanctioning p) \<longleftrightarrow>
     pool \<and> sq_persisted p \<and> sq_moderator_authenticated p
     \<and> \<not> isl (sanction_identity_of (sp_target (sq_publication p)) (sp_authenticated (sq_publication p)) (sp_ip (sq_publication p)))"
| "needs_write pool (Kicking p) \<longleftrightarrow> pool \<and> rq_persisted p"
| "needs_write pool (Banning p) \<longleftrightarrow>
     pool \<and> rq_persisted p \<and> rq_moderator_authenticated p
     \<and> \<not> isl (sanction_identity_of (rq_target p) (rp_authenticated (rq_publication p)) (rp_ip (rq_publication p)))"
| "needs_write pool (Unbanning m t plan) \<longleftrightarrow> pool \<and> snd plan"
| "needs_write pool _ \<longleftrightarrow> False"

definition one_transaction :: "moderation_rows \<Rightarrow> room_error + moderation_rows \<Rightarrow> (room_error + bool) \<times> moderation_rows" where
  "one_transaction rows result = (case result of Inl e \<Rightarrow> (Inl e, rows) | Inr rows' \<Rightarrow> (Inr True, rows'))"

definition event_sanction :: "sanction_identity \<Rightarrow> moderation_event \<Rightarrow> sanction" where
  "event_sanction identity event =
     \<lparr>sn_identity = identity, sn_reason = me_reason event, sn_applied_by = me_actor_id event\<rparr>"

text \<open>The transaction each operation runs, if the database runs it to its end.\<close>

fun row_write :: "date_time \<Rightarrow> uuid \<Rightarrow> string option \<Rightarrow> pending \<Rightarrow> moderation_rows \<Rightarrow> (room_error + bool) \<times> moderation_rows" where
  "row_write now fresh name (Sanctioning p) rows =
     (let pub = sq_publication p in
      case sanction_identity_of (sp_target pub) (sp_authenticated pub) (sp_ip pub) of
        Inl e \<Rightarrow> (Inl e, rows)
      | Inr identity \<Rightarrow> one_transaction rows
          (set_punitive_state now fresh (event_sanction identity (sq_event p)) (sp_kind pub) (sp_enabled pub) (sq_event p) rows))"
| "row_write now fresh name (Kicking p) rows = one_transaction rows (persist_event now (rq_event p) rows)"
| "row_write now fresh name (Banning p) rows =
     (case sanction_identity_of (rq_target p) (rp_authenticated (rq_publication p)) (rp_ip (rq_publication p)) of
        Inl e \<Rightarrow> (Inl e, rows)
      | Inr identity \<Rightarrow> one_transaction rows
          (persist_ban now fresh (event_sanction identity (rq_event p)) (me_expires_at (rq_event p)) (rq_event p) rows))"
| "row_write now fresh name (Unbanning m t plan) rows = remove_user_ban now fresh t name (m, fst plan) rows"
| "row_write now fresh name _ rows = (Inr True, rows)"

text \<open>
  How an awaited write ends. What the code treats as a definite rejection left the rows alone;
  after any other failure, or no answer in time, the transaction may or may not have happened.
\<close>

definition write_ends ::
  "room_error + bool \<Rightarrow> moderation_rows \<Rightarrow> moderation_rows \<Rightarrow> (room_error + bool) option \<Rightarrow> moderation_rows \<Rightarrow> bool" where
  "write_ends result before new answer after \<longleftrightarrow>
     (answer = Some result \<and> after = new)
     \<or> (\<exists>e. answer = Some (Inl e) \<and> after = before)
     \<or> (answer = None \<or> (\<exists>e. answer = Some (Inl e) \<and> persistence_is_indeterminate e)) \<and> after = new"

definition answered :: "('w control_env \<Rightarrow> (room_error + bool) option \<Rightarrow> bool) \<Rightarrow> 'w control_env \<Rightarrow> pending \<Rightarrow> cell \<Rightarrow> bool" where
  \<comment> \<open>a live room is in the manager's map, and the operation sees the answer to its own write\<close>
  "answered fits env p c \<longleftrightarrow>
     ce_pool env = c_pool c \<and> (rm_deleting (c_room c) \<or> ce_mapped env)
     \<and> (if needs_write (c_pool c) p then \<exists>before answer. c_written c = Some (before, answer) \<and> fits env answer
        else c_written c = None)"

definition unit_answer :: "unit control_env \<Rightarrow> (room_error + bool) option \<Rightarrow> bool" where
  "unit_answer env answer \<longleftrightarrow> ce_write env = map_option (map_sum id (\<lambda>_. ())) answer"

definition bool_answer :: "bool control_env \<Rightarrow> (room_error + bool) option \<Rightarrow> bool" where
  "bool_answer env answer \<longleftrightarrow> ce_write env = answer"

definition looked_up :: "'a option \<Rightarrow> room_error + 'a" where
  "looked_up x = (case x of Some v \<Rightarrow> Inr v | None \<Rightarrow> Inl (Database PoolTimedOut))"

section \<open>Steps outside control, or within one critical section\<close>

inductive meanwhile :: "room \<Rightarrow> room \<Rightarrow> bool" where
  disconnects: "mark_participant_disconnected closed draining in_time i c r = (r', sent) \<Longrightarrow> meanwhile r r'"
| rebinds: "rebind_participant_sender closed draining i subject c c' r = (res, r', sent) \<Longrightarrow> meanwhile r r'"
| leaves: "remove_participant_inner closed i c r = (gone, r', sent) \<Longrightarrow> meanwhile r r'"
| evicts: "evict_empty_room mapped r = (gone, r') \<Longrightarrow> meanwhile r r'"
| join_fails: "release_failed_join mapped r = (gone, r') \<Longrightarrow> meanwhile r r'"
| join_reserved: "meanwhile r (r\<lparr>rm_pending_joins := Suc (rm_pending_joins r)\<rparr>)"
| denies: "deny_from_lobby now m c t reason r = (res, r', sent) \<Longrightarrow> meanwhile r r'"
| asks_voice: "request_voice (env :: unit control_env) i c r = (res, r', sent) \<Longrightarrow> meanwhile r r'"
| reserves_mutation: "reserve_media_mutation_for_sender now i c k r = (res, r', sent) \<Longrightarrow> meanwhile r r'"
| reserves_pause: "reserve_producer_pause_mutation_for_sender now i c k paused r = (res', r', sent) \<Longrightarrow> meanwhile r r'"
| reserves_control: "reserve_media_control_ipc_for_sender now i c r = (res, r', sent) \<Longrightarrow> meanwhile r r'"
| refunds_mutation: "meanwhile r (refund_media_mutation now r)"
| refunds_control: "meanwhile r (refund_media_control_ipc now r)"
| pauses: "commit_pause i c session k paused r = (res, r', sent) \<Longrightarrow> meanwhile r r'"
| talks: "social_step sz (rm_social r) social \<Longrightarrow> meanwhile r (r\<lparr>rm_social := social\<rparr>)"
| chat_budget: "reserve now (rm_chat_broadcasts r) = (ok, w) \<Longrightarrow> meanwhile r (r\<lparr>rm_chat_broadcasts := w\<rparr>)"
| chats: "process_chat_attempt chat i c a r = (res, r', sent) \<Longrightarrow> meanwhile r r'"
| prepares_chat: "prepare_chat_attempt chat i c a saved r = (out, r', sent) \<Longrightarrow> meanwhile r r'"
| finishes_chat: "pc_receipt_bytes p \<le> CHAT_RECEIPT_BYTES \<Longrightarrow> finish_chat_attempt chat i c p r = (res, r', sent) \<Longrightarrow>
     meanwhile r r'"
| types: "relay_typing now i c t r = (res, r', sent) \<Longrightarrow> meanwhile r r'"

section \<open>Steps of a cell\<close>

text \<open>Operations that find the control free, authorize and plan.\<close>

inductive take_control :: "cell \<Rightarrow> cell \<Rightarrow> bool" where
  plans_sanction: "c_pending c = None \<Longrightarrow>
     plan_sanction (env :: unit control_env) m ch t kind enabled reason (c_room c) = (res1, r, sent) \<Longrightarrow>
     take_control c ((put_room r c)\<lparr>c_pending := (case res1 of Inr (Some p) \<Rightarrow> Some (Sanctioning p) | _ \<Rightarrow> None)\<rparr>)"
| plans_kick: "c_pending c = None \<Longrightarrow>
     plan_kick (env :: unit control_env) m ch t reason report (c_room c) = (res2, r, sent) \<Longrightarrow>
     take_control c ((put_room r c)\<lparr>c_pending := (case res2 of Inr p \<Rightarrow> Some (Kicking p) | _ \<Rightarrow> None)\<rparr>)"
| plans_ban: "c_pending c = None \<Longrightarrow>
     plan_ban (env :: unit control_env) m ch t reason duration report (c_room c) = (res2, r, sent) \<Longrightarrow>
     take_control c ((put_room r c)\<lparr>c_pending := (case res2 of Inr p \<Rightarrow> Some (Banning p) | _ \<Rightarrow> None)\<rparr>)"
| plans_unban: "c_pending c = None \<Longrightarrow>
     plan_unban (benv :: bool control_env) m ch t (c_room c) = (res3, r, sent) \<Longrightarrow>
     take_control c ((put_room r c)\<lparr>c_pending := (case res3 of Inr p \<Rightarrow> Some (Unbanning m t p) | _ \<Rightarrow> None)\<rparr>)"
| plans_role: "c_pending c = None \<Longrightarrow>
     plan_role (env :: unit control_env) m ch t new_role (c_room c) = (res4, r, sent) \<Longrightarrow>
     take_control c ((put_room r c)\<lparr>c_pending := (case res4 of Inr (Some p) \<Rightarrow> Some (Changing_role m t new_role p) | _ \<Rightarrow> None)\<rparr>)"
| begins_settings: "c_pending c = None \<Longrightarrow>
     begin_settings now' m ch patch (c_room c) = (res5, r, sent) \<Longrightarrow>
     take_control c ((put_room r c)\<lparr>c_pending := (case res5 of Inr reserved \<Rightarrow> Some (Hashing m ch patch reserved) | _ \<Rightarrow> None)\<rparr>)"
| hash_fails: "c_pending c = Some (Hashing m ch patch reserved) \<Longrightarrow> settings_hash hashed patch = Inl e \<Longrightarrow>
     take_control c (finished (c_room c) c)"
| plans_settings: "c_pending c = Some (Hashing m ch patch reserved) \<Longrightarrow> settings_hash hashed patch = Inr hash \<Longrightarrow>
     plan_settings now' m ch patch reserved (c_room c) = (res6, r, sent) \<Longrightarrow>
     take_control c ((put_room r c)\<lparr>c_pending := (case res6 of Inr (Some p) \<Rightarrow> Some (Changing_settings hash p) | _ \<Rightarrow> None)\<rparr>)"
| plans_topic: "c_pending c = None \<Longrightarrow>
     plan_topic now' m ch topic (c_room c) = (res7, r, sent) \<Longrightarrow>
     take_control c ((put_room r c)\<lparr>c_pending := (case res7 of Inr (Some p) \<Rightarrow> Some (Changing_topic m topic p) | _ \<Rightarrow> None)\<rparr>)"
| plans_admission: "c_pending c = None \<Longrightarrow>
     plan_admission closed now' maximum t (c_room c) = (res5, r, sent) \<Longrightarrow>
     take_control c ((put_room r c)\<lparr>c_pending := (case res5 of Inr a \<Rightarrow> Some (Admitting t a) | _ \<Rightarrow> None)\<rparr>)"

text \<open>Operations that publish what they planned, once their write was answered.\<close>

inductive release_control :: "cell \<Rightarrow> cell \<Rightarrow> bool" where
  finishes_sanction: "c_pending c = Some (Sanctioning p1) \<Longrightarrow> answered unit_answer env (Sanctioning p1) c \<Longrightarrow>
     finish_sanction env p1 (c_room c) = (out1, r, sent) \<Longrightarrow> release_control c (finished r c)"
| finishes_kick: "c_pending c = Some (Kicking p2) \<Longrightarrow> answered unit_answer env (Kicking p2) c \<Longrightarrow>
     finish_kick env p2 (c_room c) = (out2, r, sent) \<Longrightarrow> release_control c (finished r c)"
| finishes_ban: "c_pending c = Some (Banning p2) \<Longrightarrow> answered unit_answer env (Banning p2) c \<Longrightarrow>
     finish_ban env p2 (c_room c) = (out3, r, sent) \<Longrightarrow> release_control c (finished r c)"
| finishes_unban: "c_pending c = Some (Unbanning m t plan) \<Longrightarrow> answered bool_answer benv (Unbanning m t plan) c \<Longrightarrow>
     finish_unban benv m t plan (c_room c) = (out4, r, sent) \<Longrightarrow> release_control c (finished r c)"
| finishes_role: "c_pending c = Some (Changing_role m t new_role p4) \<Longrightarrow>
     finish_role env m t new_role p4 (c_room c) = (out5, r, sent) \<Longrightarrow> release_control c (finished r c)"
| finishes_settings: "c_pending c = Some (Changing_settings hash p6) \<Longrightarrow>
     finish_settings env hash p6 (c_room c) = (out5, r, sent) \<Longrightarrow> release_control c (finished r c)"
| finishes_topic: "c_pending c = Some (Changing_topic m topic persisted) \<Longrightarrow>
     finish_topic env m topic persisted (c_room c) = (out4, r, sent) \<Longrightarrow> release_control c (finished r c)"
| admission_fails: "c_pending c = Some (Admitting t a) \<Longrightarrow> release_control c (finished (c_room c) c)"
| admits: "c_pending c = Some (Admitting t a) \<Longrightarrow>
     commit_admission closed draining session token authorize pf t (c_room c) = (out4, r, sent) \<Longrightarrow>
     release_control c (finished r c)"

text \<open>Joins: the snapshot, the two look-ups in the saved rows in any order, the commit.\<close>

inductive join_step :: "cell \<Rightarrow> cell \<Rightarrow> bool" where
  join_reads_policy: "c_pending c = None \<Longrightarrow>
     join_step c (c\<lparr>c_joins := \<lparr>ja_request = req, ja_snapshot = join_snapshot_of (c_room c), ja_taken = c_bumps c,
                                ja_banned = None, ja_punitive = None\<rparr> # c_joins c\<rparr>)"
| join_reads_bans: "c_joins c = before @ ja # after \<Longrightarrow> req = ja_request ja \<Longrightarrow>
     banned = is_banned (mr_states (c_rows c)) (c_time c) (user_uuid req) (jq_client_ip req) (jq_authenticated req) \<Longrightarrow>
     join_step c (c\<lparr>c_joins := before @ ja\<lparr>ja_banned := Some banned\<rparr> # after\<rparr>)"
| join_reads_sanctions: "c_joins c = before @ ja # after \<Longrightarrow> req = ja_request ja \<Longrightarrow>
     punitive = load_punitive_state (mr_states (c_rows c)) (c_time c) (user_uuid req) (jq_client_ip req) (jq_authenticated req) \<Longrightarrow>
     join_step c (c\<lparr>c_joins := before @ ja\<lparr>ja_punitive := Some punitive\<rparr> # after\<rparr>)"
| join_gives_up: "c_joins c = before @ ja # after \<Longrightarrow> join_step c (c\<lparr>c_joins := before @ after\<rparr>)"
| join_commits: "c_pending c = None \<Longrightarrow> c_joins c = before @ ja # after \<Longrightarrow>
     je_banned je = looked_up (ja_banned ja) \<Longrightarrow> je_punitive je = looked_up (ja_punitive ja) \<Longrightarrow>
     join_authorize je (ja_request ja) prechecked (ja_snapshot ja) = Inr grant \<Longrightarrow>
     join_commit je (ja_request ja) (ja_snapshot ja) grant pf (c_room c) = Some (out8, r, sent) \<Longrightarrow>
     join_step c ((put_room r c)\<lparr>c_joins := before @ after\<rparr>)"

text \<open>Producers. The media server never hands out an identifier twice.\<close>

inductive producer_step :: "cell \<Rightarrow> cell \<Rightarrow> bool" where
  produces: "k \<notin> set (c_used c) \<Longrightarrow> commit_producer i ch session mkind source k (c_room c) = (out9, r, sent) \<Longrightarrow>
     producer_step c ((put_room r c)\<lparr>c_used := k # c_used c\<rparr>)"
| begins_close: "reserve_media_mutation_for_sender now' i ch (Some k) (c_room c) = (Inr t0, r, sent) \<Longrightarrow>
     producer_step c ((put_room r c)\<lparr>c_closings := (i, [k]) # c_closings c\<rparr>)"
| begins_close_cam: "c_pending c = None \<Longrightarrow> close_cam_plan (env :: unit control_env) m ch t (c_room c) = (res10, r, sent) \<Longrightarrow>
     producer_step c ((put_room r c)\<lparr>c_closings := (case res10 of Inr (ks, _) \<Rightarrow> (t, ks) # c_closings c | _ \<Rightarrow> c_closings c)\<rparr>)"
| closes: "(i, [k]) \<in> set (c_closings c) \<Longrightarrow> commit_close i ch session k (c_room c) = (out4, r, sent) \<Longrightarrow>
     producer_step c (put_room r c)"
| closes_cam: "(t, ks) \<in> set (c_closings c) \<Longrightarrow> close_cam_commit t session ks (c_room c) = (out4, r, sent) \<Longrightarrow>
     producer_step c (put_room r c)"

inductive room_step :: "cell \<Rightarrow> cell \<Rightarrow> bool" where
  passes: "c_time c \<le> now \<Longrightarrow> room_step c (c\<lparr>c_time := now\<rparr>)"
| otherwise_changes: "meanwhile (c_room c) r \<Longrightarrow> room_step c (put_room r c)"
| writes: "c_pending c = Some p \<Longrightarrow> c_written c = None \<Longrightarrow> needs_write (c_pool c) p \<Longrightarrow>
     row_write (c_time c) fresh name p (c_rows c) = (result, new) \<Longrightarrow> write_ends result (c_rows c) new answer rows \<Longrightarrow>
     room_step c (c\<lparr>c_rows := rows, c_written := Some (c_rows c, answer)\<rparr>)"
| takes: "take_control c c' \<Longrightarrow> room_step c c'"
| releases: "release_control c c' \<Longrightarrow> room_step c c'"
| joins: "join_step c c' \<Longrightarrow> room_step c c'"
| media: "producer_step c c' \<Longrightarrow> room_step c c'"

text \<open>A room just created, before anybody is in it; only bans expire among the saved rows.\<close>

definition lasting :: "moderation_rows \<Rightarrow> bool" where
  "lasting rows \<longleftrightarrow> list_all (\<lambda>r. sw_state r = ''banned'' \<or> sw_expires r = None) (mr_states rows)"

definition new_cell :: "cell \<Rightarrow> bool" where
  "new_cell c \<longleftrightarrow>
     (\<exists>room_id settings persisted hash. c_room c = new_with_observers room_id settings persisted hash)
     \<and> lasting (c_rows c) \<and> c_pending c = None \<and> c_written c = None \<and> c_joins c = [] \<and> c_closings c = []
     \<and> c_used c = [] \<and> c_bumps c = 0"

end
