(* ===== verification/Live_Records.thy ===== *)
theory Live_Records
  imports Live_Joins
begin

text \<open>
  What the changes to a live room do to the two tables joins and closings rely on: the sanctions
  kept under identities, and who owns which producer.
\<close>

section \<open>Owners of producers\<close>

definition owners_within :: "room \<Rightarrow> room \<Rightarrow> bool" where
  "owners_within r r' \<longleftrightarrow>
     (\<forall>k i. tget (rm_producer_to_participant r') k = Some i \<longrightarrow> tget (rm_producer_to_participant r) k = Some i)"

lemma owners_refl [simp]: "owners_within r r"
  by (simp add: owners_within_def)

lemma owners_same: "rm_producer_to_participant r' = rm_producer_to_participant r \<Longrightarrow> owners_within r r'"
  by (simp add: owners_within_def)

lemma owners_trans: "owners_within a b \<Longrightarrow> owners_within b c \<Longrightarrow> owners_within a c"
  by (simp add: owners_within_def)

lemma shrinks_owners:
  assumes "room_wf r" and "shrinks r r'"
  shows "owners_within r r'"
  unfolding owners_within_def
proof (intro allI impI)
  fix k i assume "tget (rm_producer_to_participant r') k = Some i"
  then obtain p' where p': "tget (rm_participants r') i = Some p'" "contains_key (pt_producers p') k"
    using shrinksD(1) [OF assms(2,1)] by (auto simp: room_wf_defs)
  from shrinksD(2) [OF assms(2) p'(1)] p'(2) obtain p where
    "tget (rm_participants r) i = Some p" "contains_key (pt_producers p) k"
    by (fastforce simp: member_calm_def contains_key_def)
  then show "tget (rm_producer_to_participant r) k = Some i" using assms(1) by (auto simp: room_wf_defs)
qed

lemma owners_bump [simp]: "owners_within r (bump_policy r') = owners_within r r'"
  by (simp add: owners_within_def bump_policy_def)

section \<open>Publications\<close>

lemma publish_sanction_records:
  assumes safe: "room_safe r" and V: "sanctions_follow (stored_sanction r) r" and covers: "sanction_covers pub r"
    and "publish_sanction closed pub r = (vs, r', sent)"
  shows "stored_sanction r' = after_sanction pub (stored_sanction r)"
proof -
  define key where "key = sanction_key_for (sp_target pub) (sp_authenticated pub) (sp_ip pub)"
  define a where "a = apply_punitive_to_cohort (sp_participants pub) (sp_lobby pub) key (sp_kind pub) (sp_enabled pub) r"
  note wf = room_safe_wf [OF safe]
  have wf1: "room_wf (snd a)" unfolding a_def by (rule apply_punitive_wf [OF wf])
  obtain v2 r2 s2 where r2: "(if sp_kind pub = CamBanned \<and> sp_enabled pub
       then revoke_each ''Camera access revoked by moderator'' (sp_participants pub) (snd a) else ([], snd a, [])) = (v2, r2, s2)"
    by (cases rule: prod_cases3)
  have r': "r' = bump_policy r2"
    using assms(4) r2 [unfolded a_def key_def] by (simp add: publish_sanction_def Let_def split_beta)
  have "shrinks (snd a) r2"
    using r2 revoke_each_effect(1) [OF wf1, of _ _ _ r2 _ UNIV]
    by (auto simp: authorized_except_def shrinks_def split: if_splits)
  then have "stored_sanction r' = stored_sanction (snd a)"
    using shrinks_stored by (simp add: r' bump_policy_def stored_sanction_def fun_eq_iff)
  moreover have "stored_sanction (snd a) k kind = after_sanction pub (stored_sanction r) k kind" for k kind
    using cohort_follows(1) [OF V wf covers key_def, of kind] cohort_value [of r "sp_participants pub" "sp_lobby pub" key kind]
      apply_punitive_stored [of "sp_participants pub" "sp_lobby pub" key "sp_kind pub" "sp_enabled pub" r k kind]
    by (auto simp: a_def after_sanction_def key_def apply_punitive_to_cohort_def Let_def punitive_value_set)
  ultimately show ?thesis by (simp add: fun_eq_iff)
qed

lemma publish_sanction_owners:
  assumes safe: "room_safe r" and "publish_sanction closed pub r = (vs, r', sent)"
  shows "owners_within r r'"
proof -
  define key where "key = sanction_key_for (sp_target pub) (sp_authenticated pub) (sp_ip pub)"
  define a where "a = apply_punitive_to_cohort (sp_participants pub) (sp_lobby pub) key (sp_kind pub) (sp_enabled pub) r"
  have wf1: "room_wf (snd a)" unfolding a_def by (rule apply_punitive_wf [OF room_safe_wf [OF safe]])
  obtain v2 r2 s2 where r2: "(if sp_kind pub = CamBanned \<and> sp_enabled pub
       then revoke_each ''Camera access revoked by moderator'' (sp_participants pub) (snd a) else ([], snd a, [])) = (v2, r2, s2)"
    by (cases rule: prod_cases3)
  have r': "r' = bump_policy r2"
    using assms(2) r2 [unfolded a_def key_def] by (simp add: publish_sanction_def Let_def split_beta)
  have "shrinks (snd a) r2"
    using r2 revoke_each_effect(1) [OF wf1, of _ _ _ r2 _ UNIV]
    by (auto simp: authorized_except_def shrinks_def split: if_splits)
  from shrinks_owners [OF wf1 this] show ?thesis
    by (simp add: r') (simp add: owners_within_def a_def apply_punitive_to_cohort_def Let_def)
qed

text \<open>Policy changes that revoke what is no longer allowed.\<close>

lemma revoke_records:
  assumes "room_wf q" and "rm_producer_to_participant q = rm_producer_to_participant r" and "rm_sanctions q = rm_sanctions r"
    and "revoke_unauthorized_producers f reason q = (vs, r', sent)"
  shows "owners_within r r'" "stored_sanction r' = stored_sanction r"
proof -
  note sh = revoke_shrinks [OF assms(1,4)]
  show "owners_within r r'" using shrinks_owners [OF assms(1) sh] assms(2) by (simp add: owners_within_def)
  show "stored_sanction r' = stored_sanction r"
    using shrinksD(4) [OF sh] assms(3) by (simp add: stored_sanction_def fun_eq_iff)
qed

lemma publish_role_records:
  assumes "room_wf r" and "publish_role closed t new_role m r = (vs, r', sent)"
  shows "owners_within r r'" "stored_sanction r' = stored_sanction r"
proof -
  define q where "q = bump_policy (set_member_role_in t new_role r)"
  have "room_wf q" using assms(1) by (simp add: q_def) (auto simp: set_member_role_in_def room_wf_defs)
  moreover have "rm_producer_to_participant q = rm_producer_to_participant r" "rm_sanctions q = rm_sanctions r"
    by (simp_all add: q_def bump_policy_def set_member_role_in_def)
  moreover obtain v2 s2 where "revoke_unauthorized_producers (Some t) ''Role no longer permits this producer'' q = (v2, r', s2)"
    using assms(2) by (auto simp: publish_role_def Let_def q_def split: prod.splits)
  ultimately show "owners_within r r'" "stored_sanction r' = stored_sanction r" by (rule revoke_records)+
qed

lemma publish_settings_records:
  assumes "room_wf r" and "publish_settings updated h r = (res, r', sent)"
  shows "owners_within r r'" "stored_sanction r' = stored_sanction r"
proof -
  define q where "q = bump_policy (r\<lparr>rm_password_hash := keep h (rm_password_hash r), rm_settings := Some updated\<rparr>)"
  have q: "room_wf q" "rm_producer_to_participant q = rm_producer_to_participant r" "rm_sanctions q = rm_sanctions r"
    using assms(1) by (simp_all add: q_def) (simp_all add: bump_policy_def)
  consider "r' = r" | v2 s2 where "revoke_unauthorized_producers None ''Room policy no longer permits this producer'' q = (v2, r', s2)"
    using assms(2) by (auto simp: publish_settings_def attempt_def Let_def q_def split: prod.splits sum.splits)
  then show "owners_within r r'" "stored_sanction r' = stored_sanction r"
    by (cases; use revoke_records [OF q] in auto)+
qed

lemma publish_topic_records:
  assumes "publish_topic m topic r = (res, r', sent)"
  shows "owners_within r r'" "stored_sanction r' = stored_sanction r"
  using assms by (auto simp: publish_topic_def attempt_def Let_def owners_within_def stored_sanction_def fun_eq_iff split: sum.splits)

section \<open>Arrivals and producers\<close>

lemma join_commit_records:
  assumes "join_commit env req snap grant pf r = Some (res, r', sent)"
  shows "owners_within r r'" "stored_sanction r key kind \<Longrightarrow> stored_sanction r' key kind"
proof -
  have "rm_producer_to_participant r' = rm_producer_to_participant r
      \<and> (stored_sanction r key kind \<longrightarrow> stored_sanction r' key kind)"
    using assms
  proof (cases rule: join_commit_cases)
    case (Refused e)
    then show ?thesis by (auto simp: prune_expired_bans_def Let_def stored_sanction_def)
  next
    case (Admitted q k s name role)
    let ?q = "with_sanction k s q"
    have q: "rm_producer_to_participant ?q = rm_producer_to_participant r" "stored_sanction q = stored_sanction r"
      by (simp_all add: Admitted(1) with_sanction_def prune_expired_bans_def Let_def stored_sanction_def fun_eq_iff)
    have "stored_sanction ?q key kind" if "stored_sanction q key kind"
      using that by (auto simp: with_sanction_def stored_sanction_def is_some_and_def Admitted(7) merge_punitive_value
          split: option.splits)
    moreover have "rm_producer_to_participant r' = rm_producer_to_participant ?q \<and> stored_sanction r' = stored_sanction ?q"
      using Admitted(8) by (auto simp: complete_locked_def stored_sanction_def fun_eq_iff
          dest!: sym [of "(res, r', sent)"] enter_lobby_room enter_room_room split: if_splits)
    ultimately show ?thesis using q by simp
  qed
  then show "owners_within r r'" "stored_sanction r key kind \<Longrightarrow> stored_sanction r' key kind" by (auto simp: owners_same)
qed

lemma commit_admission_records:
  assumes "commit_admission closed draining session token authorize pf t r = (res, r', sent)"
  shows "owners_within r r'" "stored_sanction r' = stored_sanction r"
  using assms unfolding commit_admission_def attempt_def Let_def
  by (auto simp: owners_within_def stored_sanction_def fun_eq_iff split: sum.splits option.splits if_splits prod.splits)

lemma commit_producer_records:
  assumes "commit_producer i c session kind source k r = (res, r', sent)"
  shows "no_newcomers r r'" "stored_sanction r' = stored_sanction r"
    and "tget (rm_producer_to_participant r') l = Some j \<Longrightarrow> l = k \<or> tget (rm_producer_to_participant r) l = Some j"
  using assms
  by (auto simp: commit_producer_def Let_def add_producer_def no_newcomers_def stored_sanction_def fun_eq_iff
      split: sum.splits if_splits option.splits)

end
