(* ===== verification/Moderation_Outcomes.thy ===== *)
theory Moderation_Outcomes
  imports Live_Records Durable_Moderation
begin

text \<open>
  What the moderation operations of \<^verbatim>\<open>src/room/manager/moderation_ops.rs\<close> achieve when they
  succeed, and what a failed write leaves behind.
\<close>

section \<open>Bans\<close>

lemma finish_ban_publishes:
  assumes "finish_ban env plan r = (Inr sessions, r', sent)"
  shows "\<exists>q s1. quiet r q \<and> publish_removal (ce_closed env) (ce_ban_id env) (ce_later env) (ce_wall env) (rq_publication plan) q
     = (sessions, r', s1)"
proof -
  obtain res q s where save: "save_ban env plan r = (res, q, s)" by (cases rule: prod_cases3)
  then obtain u where "res = Inr u" using assms by (cases res) (simp_all add: finish_ban_def)
  then have [simp]: "q = r" using save_ban_done save by blast
  obtain d q1 s1 where d: "(if rq_persisted plan then (Inr (), r, []) else keep_decision (ce_wall env) plan r) = (d, q1, s1)"
    by (cases rule: prod_cases3)
  then have "quiet r q1" using keep_decision_quiet by (auto split: if_splits)
  moreover have "\<exists>s2. publish_removal (ce_closed env) (ce_ban_id env) (ce_later env) (ce_wall env) (rq_publication plan) q1 = (sessions, r', s2)"
    using assms save d \<open>res = Inr u\<close>
    by (auto simp: finish_ban_def publish_planned_ban_def attempt_def split: sum.splits prod.splits)
  ultimately show ?thesis by blast
qed

lemma removed_sessions_ids: "rd_participant_id ` set (removed_sessions ids members) \<subseteq> set ids"
  by (induction ids members rule: removed_sessions.induct) (fastforce split: option.splits)+

lemma publish_ban_effect:
  assumes wf: "room_wf r" and ban: "rp_ban pub" and names: "ban_names key pub r"
    and r': "publish_removal closed b now wall pub r = (ss, r', sent)"
  shows "present r' i = Some (a, ip, s) \<Longrightarrow> sanction_key_for i a ip \<noteq> key"
    and "contains_key (rm_banned_participants r') i \<longleftrightarrow>
           i \<in> set (rp_participants pub) \<union> set (rp_lobby pub) \<or> contains_key (rm_banned_participants r) i"
    and "rd_participant_id ` set ss \<subseteq> set (rp_participants pub)"
proof -
  show "sanction_key_for i a ip \<noteq> key" if here: "present r' i = Some (a, ip, s)"
  proof -
    note gone = publish_removal_present [OF wf r' here]
    from gone(1) show ?thesis
    proof (rule present_member_or_waiting)
      fix p assume "tget (rm_participants r) i = Some p" "a = pt_authenticated p" "ip = pt_ip p"
      then show ?thesis using gone(2) names by (auto simp: ban_names_def)
    next
      fix e assume "tget (rm_lobby r) i = Some e" "a = le_authenticated e" "ip = le_ip e"
      then show ?thesis using gone(3) [OF ban] names by (auto simp: ban_names_def)
    qed
  qed
  show "contains_key (rm_banned_participants r') i \<longleftrightarrow>
      i \<in> set (rp_participants pub) \<union> set (rp_lobby pub) \<or> contains_key (rm_banned_participants r) i"
    using publish_removal_room(4) [OF wf r'] ban remember_ban_keys(1) [of b now wall pub r i] by simp
  have "ss = removed_sessions (rp_participants pub) (rm_participants (if rp_ban pub then remember_ban b now wall pub r else r))"
    using r' by (auto simp: publish_removal_def Let_def split: prod.splits)
  then show "rd_participant_id ` set ss \<subseteq> set (rp_participants pub)" using removed_sessions_ids by simp
qed

lemma ban_names_keeps:
  assumes "ban_names key pub r" and "no_newcomers r r'"
  shows "ban_names key pub r'"
  using assms(1) unfolding ban_names_def
  by (auto dest!: no_newcomersD(1) [OF assms(2)] no_newcomersD(2) [OF assms(2)])

lemma plan_ban_target:
  assumes wf: "room_wf r" and plan: "plan_ban env m ch t reason duration report r = (Inr p, r1, s1)"
  obtains md target where "participant_for_sender r m ch = Inr md" "tget (rm_participants r) t = Some target"
    "rq_target p = t" "rq_persisted p = rm_persisted r1" "rp_ban (rq_publication p)" "t \<in> set (rp_participants (rq_publication p))"
    "rp_authenticated (rq_publication p) = pt_authenticated target" "rp_ip (rq_publication p) = pt_ip target"
    "ban_names (sanction_key_for t (pt_authenticated target) (pt_ip target)) (rq_publication p) r"
    "\<And>i. i \<in> set (rp_participants (rq_publication p)) \<Longrightarrow>
       \<exists>q. tget (rm_participants r) i = Some q \<and> can_moderate (pt_role md) (pt_role q)"
proof -
  obtain md target :: participant and ids lids where d: "participant_for_sender r m ch = Inr md"
    "tget (rm_participants r) t = Some target" "moderation_cohort r t (pt_role md) = Inr ids"
    "guest_ip_lobby_cohort r (pt_authenticated target) (pt_ip target) (pt_role md) = Inr lids"
    and pub: "rq_publication p = \<lparr>rp_ban = True, rp_participants = ids, rp_lobby = lids, rp_authenticated = pt_authenticated target,
       rp_ip = pt_ip target, rp_name = pt_name target, rp_reason = reason, rp_duration_seconds = duration\<rparr>"
    using plan_ban_steps(2) [OF plan refl] by blast
  have "rq_target p = t" "rq_persisted p = rm_persisted r1"
    using plan unfolding plan_ban_def attempt_def Let_def by (auto split: sum.splits option.splits if_splits prod.splits)
  moreover have "ban_names (sanction_key_for t (pt_authenticated target) (pt_ip target)) (rq_publication p) r"
    using cohort_members [OF wf d(2,3)] cohort_waiting [OF wf d(2,4)] by (simp add: ban_names_def pub)
  moreover have "t \<in> set ids" using cohort_members [OF wf d(2,3,2)] by simp
  ultimately show thesis using d(1,2) moderation_cohort_ids(2) [OF d(2,3)] by (intro that) (simp_all add: pub)
qed

text \<open>
  C5: when a ban succeeds, nobody of the banned identity is left in the room or its lobby,
  whoever arrived or left while the ban was saved; the target is on the ban list; and every
  session the ban ended belongs to a member the moderator outranks.
\<close>

theorem ban_removes_identity:
  assumes safe: "room_safe r"
    and others: "\<forall>q. room_safe q \<longrightarrow> room_safe (ce_others env q) \<and> no_newcomers q (ce_others env q)"
    and ban: "ban_participant_controlled env m ch t reason duration report r = (Inr sessions, r', sent)"
  shows "\<exists>moderator target. participant_for_sender r m ch = Inr moderator \<and> tget (rm_participants r) t = Some target
     \<and> identity_is_banned r' t (pt_authenticated target) (pt_ip target)
     \<and> (\<forall>i a ip s. present r' i = Some (a, ip, s) \<longrightarrow>
          sanction_key_for i a ip \<noteq> sanction_key_for t (pt_authenticated target) (pt_ip target))
     \<and> (\<forall>session \<in> set sessions. \<exists>p. tget (rm_participants r) (rd_participant_id session) = Some p
          \<and> can_moderate (pt_role moderator) (pt_role p))"
proof -
  note wf = room_safe_wf [OF safe]
  obtain res r1 s1 where plan: "plan_ban env m ch t reason duration report r = (res, r1, s1)" by (cases rule: prod_cases3)
  then obtain p where p: "res = Inr p" and fin: "finish_ban env p (ce_others env r1) = (Inr sessions, r', sent)"
    using ban by (cases res) (simp_all add: ban_participant_controlled_def)
  obtain md target where d: "participant_for_sender r m ch = Inr md" "tget (rm_participants r) t = Some target"
    and ban: "rp_ban (rq_publication p)" and t: "t \<in> set (rp_participants (rq_publication p))"
    and names: "ban_names (sanction_key_for t (pt_authenticated target) (pt_ip target)) (rq_publication p) r"
    and outranked: "\<And>i. i \<in> set (rp_participants (rq_publication p)) \<Longrightarrow>
       \<exists>q. tget (rm_participants r) i = Some q \<and> can_moderate (pt_role md) (pt_role q)"
    using plan_ban_target [OF wf plan [unfolded p]] by metis
  obtain q s2 where q: "quiet (ce_others env r1) q"
    and out: "publish_removal (ce_closed env) (ce_ban_id env) (ce_later env) (ce_wall env) (rq_publication p) q = (sessions, r', s2)"
    using finish_ban_publishes [OF fin] by blast
  have sh: "shrinks (ce_others env r1) q" using q by (simp add: quiet_def calm_def)
  note p1 = plan_ban_safe(1,2) [OF safe plan]
  have "ban_names (sanction_key_for t (pt_authenticated target) (pt_ip target)) (rq_publication p) q"
    using names others p1 shrinks_no_newcomers [OF sh] by (meson ban_names_keeps)
  note eff = publish_ban_effect [OF _ ban this out]
  have wfq: "room_wf q" using others p1(1) shrinksD(1) [OF sh] room_safe_wf by blast
  have "identity_is_banned r' t (pt_authenticated target) (pt_ip target)"
    using eff(2) [OF wfq, of t] t by (simp add: identity_is_banned_def)
  moreover have "\<exists>q. tget (rm_participants r) (rd_participant_id session) = Some q \<and> can_moderate (pt_role md) (pt_role q)"
    if "session \<in> set sessions" for session
    using outranked eff(3) [OF wfq] that by blast
  ultimately show ?thesis using d eff(1) [OF wfq] by blast
qed

definition calm_env :: "unit control_env" where
  \<comment> \<open>no channel closed, no database, nothing else happening\<close>
  "calm_env = \<lparr>ce_closed = \<lambda>_. False, ce_now = 0, ce_later = 0, ce_wall = 0, ce_event_id = 5, ce_ban_id = 6, ce_pool = False,
     ce_mapped = True, ce_write = None, ce_others = \<lambda>r. r\<rparr>"

lemma sample_room_safe: "room_safe sample_room"
proof -
  have "present sample_room i = Some (a, ip, s) \<Longrightarrow> s = punitive_default" for i a ip s
    by (auto simp: present_def sample_room_def sample_member_def new_with_observers_def split: if_splits)
  moreover have "\<not> identity_is_banned sample_room i a ip" for i a ip
    by (simp add: identity_is_banned_def sample_room_def new_with_observers_def contains_key_def is_some_and_def split: option.splits)
  moreover have "\<not> punitive_value punitive_default kind" for kind by (cases kind) (simp_all add: punitive_default_def)
  ultimately show ?thesis using sample_room_wf by (fastforce simp: room_safe_def ban_safe_def sanctions_recorded_def)
qed

text \<open>The owner of the sample room and the member they act on.\<close>

lemma sample_authority:
  "participant_for_sender sample_room 1 10 = Inr (sample_member 1 Owner [(11, camera)])"
  "tget (rm_participants sample_room) 2 = Some (sample_member 2 User [(22, camera)])"
  "moderation_cohort sample_room 2 Owner = Inr [2]" "guest_ip_lobby_cohort sample_room True None Owner = Inr []"
  by (simp_all add: participant_for_sender_def ensure_live_def sample_room_def new_with_observers_def sample_member_def
      moderation_cohort_def cohort_ids_def guest_ip_lobby_cohort_def can_moderate_def
      less_eq_role_def less_role_def Let_def)

lemma sample_budgets:
  "reserve_ban 0 (rm_social sample_room) = (Inr (), rm_social sample_room)"
  "\<exists>w. reserve_admin 0 sample_room = (True, sample_room\<lparr>rm_admin_mutations := w\<rparr>)"
  by (simp_all add: reserve_ban_def reserve_admin_def reserve_def sample_room_def new_with_observers_def social_default_def retain_def
      MAX_RUNTIME_BANS_def sliding_window_new_def MAX_ROOM_ADMIN_MUTATIONS_PER_WINDOW_def Let_def)

lemma sample_ban:
  "\<exists>sessions r' sent. ban_participant_controlled calm_env 1 10 2 None None None sample_room = (Inr sessions, r', sent)"
proof -
  obtain w where w: "reserve_admin 0 sample_room = (True, sample_room\<lparr>rm_admin_mutations := w\<rparr>)" using sample_budgets(2) by blast
  have same: "sample_room\<lparr>rm_social := rm_social sample_room\<rparr> = sample_room" by simp
  have fields: "rm_deleting sample_room = False" "rm_persisted sample_room = False" by (simp_all add: sample_room_def new_with_observers_def)
  obtain plan where plan: "plan_ban calm_env 1 10 2 None None None sample_room = (Inr plan, sample_room\<lparr>rm_admin_mutations := w\<rparr>, [])"
    and "\<not> rq_persisted plan" "rq_report plan = None"
    using w by (auto simp: plan_ban_def is_some_and_def attempt_def sample_authority sample_budgets(1) same calm_env_def sample_member_def
        fields simp del: One_nat_def)
  then have "\<not> isl (fst (finish_ban calm_env plan (sample_room\<lparr>rm_admin_mutations := w\<rparr>)))"
    by (simp add: finish_ban_def save_ban_def publish_planned_ban_def attempt_def ensure_live_def fields keep_decision_def split: prod.splits)
  moreover obtain res q s where "finish_ban calm_env plan (sample_room\<lparr>rm_admin_mutations := w\<rparr>) = (res, q, s)"
    by (cases rule: prod_cases3)
  ultimately show ?thesis using plan by (cases res) (simp_all add: ban_participant_controlled_def calm_env_def)
qed

theorem ban_removes_identity_witness:
  "\<exists>sessions r' sent. ban_participant_controlled calm_env 1 10 2 None None None sample_room = (Inr sessions, r', sent)
     \<and> identity_is_banned r' 2 True None \<and> \<not> (\<exists>ip s. present r' 2 = Some (True, ip, s))"
proof -
  obtain sessions r' sent where ban: "ban_participant_controlled calm_env 1 10 2 None None None sample_room = (Inr sessions, r', sent)"
    using sample_ban by blast
  have others: "\<forall>q. room_safe q \<longrightarrow> room_safe (ce_others calm_env q) \<and> no_newcomers q (ce_others calm_env q)"
    by (simp add: calm_env_def)
  have target: "pt_authenticated (sample_member 2 User [(22, camera)])" "pt_ip (sample_member 2 User [(22, camera)]) = None"
    by (simp_all add: sample_member_def)
  from ban_removes_identity [OF sample_room_safe others ban]
  have "identity_is_banned r' 2 True None \<and> \<not> (\<exists>ip s. present r' 2 = Some (True, ip, s))"
    by (auto simp: sample_authority(2) target sanction_key_for_eq)
  then show ?thesis using ban by blast
qed

section \<open>Sanctions\<close>

lemma finish_sanction_publishes:
  assumes "finish_sanction env plan r = (Inr (changed, revoked), r', sent)"
  shows "\<exists>q s1. quiet r q \<and> publish_sanction (ce_closed env) (sq_publication plan) q = (revoked, r', s1)"
proof -
  obtain res q s where save: "save_sanction env plan r = (res, q, s)" by (cases rule: prod_cases3)
  then obtain u where "res = Inr u" using assms by (cases res) (simp_all add: finish_sanction_def)
  then have [simp]: "q = r" using save_sanction_done save by blast
  define q1 where "q1 = (if sq_persisted plan then r else r\<lparr>rm_social := record_moderation_event (sq_event plan) (rm_social r)\<rparr>)"
  have "quiet r q1" by (auto simp: q1_def intro: quiet_social)
  moreover have "\<exists>s2. publish_sanction (ce_closed env) (sq_publication plan) q1 = (revoked, r', s2)"
    using assms save \<open>res = Inr u\<close>
    by (auto simp: finish_sanction_def publish_planned_sanction_def attempt_def q1_def Let_def split: sum.splits prod.splits)
  ultimately show ?thesis by blast
qed

lemma publish_sanction_effect:
  assumes wf: "room_wf r" and covers: "sanction_covers pub r" and "publish_sanction closed pub r = (vs, r', sent)"
    and key: "key = sanction_key_for (sp_target pub) (sp_authenticated pub) (sp_ip pub)"
  shows "present r' i = Some (a, ip, s) \<Longrightarrow> sanction_key_for i a ip = key \<Longrightarrow> punitive_value s (sp_kind pub) = sp_enabled pub"
    and "sp_kind pub = CamBanned \<Longrightarrow> sp_enabled pub \<Longrightarrow> tget (rm_participants r') i = Some p \<Longrightarrow>
       sanction_key_for i (pt_authenticated p) (pt_ip p) = key \<Longrightarrow> member_authorized r' p"
proof -
  define a where "a = apply_punitive_to_cohort (sp_participants pub) (sp_lobby pub) key (sp_kind pub) (sp_enabled pub) r"
  have wf1: "room_wf (snd a)" unfolding a_def by (rule apply_punitive_wf [OF wf])
  obtain v2 r2 s2 where r2: "(if sp_kind pub = CamBanned \<and> sp_enabled pub
       then revoke_each ''Camera access revoked by moderator'' (sp_participants pub) (snd a) else ([], snd a, [])) = (v2, r2, s2)"
    by (cases rule: prod_cases3)
  have r': "r' = bump_policy r2"
    using assms(3) r2 [unfolded a_def key] by (simp add: publish_sanction_def Let_def split_beta)
  have all: "authorized_except UNIV (snd a)" by (simp add: authorized_except_def)
  have sh: "shrinks (snd a) r2"
    using r2 revoke_each_effect(1) [OF wf1 _ all, of _ _ _ r2] by (auto simp: shrinks_def split: if_splits)
  have pres: "present r' = present r2" by (simp add: r' present_def bump_policy_def fun_eq_iff)
  show "punitive_value s (sp_kind pub) = sp_enabled pub" if "present r' i = Some (b, ip, s)" "sanction_key_for i b ip = key" for i b ip s
  proof -
    from shrinks_present [OF sh wf1] that(1) have "present (snd a) i = Some (b, ip, s)" by (simp add: pres)
    then have "s = fst a"
      using apply_punitive_present [OF covers key, of "sp_kind pub" "sp_enabled pub" i] that(2) by (auto simp: a_def)
    then show ?thesis by (simp add: a_def apply_punitive_to_cohort_def Let_def punitive_value_set)
  qed
  show "member_authorized r' p" if cam: "sp_kind pub = CamBanned" "sp_enabled pub" and p: "tget (rm_participants r') i = Some p"
    "sanction_key_for i (pt_authenticated p) (pt_ip p) = key" for i p
  proof -
    have p2: "tget (rm_participants r2) i = Some p" using p(1) by (simp add: r' bump_policy_def)
    have "authorized_except (UNIV - set (sp_participants pub)) r2"
      using r2 cam revoke_each_effect(2) [OF wf1 _ all] by simp
    moreover obtain q where "tget (rm_participants (snd a)) i = Some q" "member_calm q p" using shrinksD(2) [OF sh p2] by blast
    then have "i \<in> set (sp_participants pub)"
      using covers p(2) unfolding a_def apply_punitive_members
      by (fastforce simp: sanction_covers_def Let_def key member_calm_def split: if_splits)
    ultimately have "member_authorized r2 p" using p2 by (simp add: authorized_except_def)
    then show ?thesis using record_allowed_cong [of r' r2 p p] by (simp add: member_authorized_def r' bump_policy_def)
  qed
qed

text \<open>
  C6: when a camera ban succeeds, everybody of the target's identity in the room or its lobby is
  camera banned and none of them has a video producer left, whoever arrived or published while
  the ban was saved.
\<close>

theorem cam_ban_stops_video:
  assumes safe: "room_safe r"
    and others: "\<forall>q. room_safe q \<longrightarrow> room_safe (ce_others env q) \<and> no_newcomers q (ce_others env q)"
    and ban: "update_punitive_state_controlled env m ch t CamBanned True reason r = (Inr (True, revoked), r', sent)"
  shows "\<exists>target. tget (rm_participants r) t = Some target
     \<and> (\<forall>i a ip s. present r' i = Some (a, ip, s) \<longrightarrow>
          sanction_key_for i a ip = sanction_key_for t (pt_authenticated target) (pt_ip target) \<longrightarrow> cam_banned s)
     \<and> (\<forall>i p k x. tget (rm_participants r') i = Some p \<longrightarrow>
          sanction_key_for i (pt_authenticated p) (pt_ip p) = sanction_key_for t (pt_authenticated target) (pt_ip target) \<longrightarrow>
          tget (pt_producers p) k = Some x \<longrightarrow> pr_kind x \<noteq> Video)"
proof -
  obtain res r1 s1 where plan: "plan_sanction env m ch t CamBanned True reason r = (res, r1, s1)" by (cases rule: prod_cases3)
  obtain p where p: "res = Inr (Some p)" and fin: "finish_sanction env p (ce_others env r1) = (Inr (True, revoked), r', sent)"
    using ban plan by (auto simp: update_punitive_state_controlled_def split: sum.splits option.splits)
  obtain target ids lids where target: "tget (rm_participants r) t = Some target"
    and pub: "sq_publication p = \<lparr>sp_target = t, sp_participants = ids, sp_lobby = lids,
          sp_authenticated = pt_authenticated target, sp_ip = pt_ip target, sp_kind = CamBanned, sp_enabled = True\<rparr>"
    using plan_sanction_steps(2) [OF plan p] by blast
  let ?key = "sanction_key_for t (pt_authenticated target) (pt_ip target)"
  note p1 = plan_sanction_safe [OF safe plan]
  obtain q s2 where q: "quiet (ce_others env r1) q" and out: "publish_sanction (ce_closed env) (sq_publication p) q = (revoked, r', s2)"
    using finish_sanction_publishes [OF fin] by blast
  have sh: "shrinks (ce_others env r1) q" using q by (simp add: quiet_def calm_def)
  have covers: "sanction_covers (sq_publication p) q"
    using p1(1) p1(3) [OF p] others shrinks_no_newcomers [OF sh] by (meson sanction_covers_keeps)
  have wf: "room_wf q" using others p1(1) shrinksD(1) [OF sh] room_safe_wf by blast
  note eff = publish_sanction_effect [OF wf covers out, unfolded pub sanction_publication.simps, OF refl]
  have banned: "cam_banned s" if "present r' i = Some (a, ip, s)" "sanction_key_for i a ip = ?key" for i a ip s
    using eff(1) [OF that] by simp
  have "pr_kind x \<noteq> Video" if m: "tget (rm_participants r') i = Some m" "sanction_key_for i (pt_authenticated m) (pt_ip m) = ?key"
    and x: "tget (pt_producers m) k = Some x" for i m k x
  proof -
    have "present r' i = Some (pt_authenticated m, pt_ip m, pt_punitive m)" using m(1) by (simp add: present_def)
    then have "cam_banned (pt_punitive m)" using banned m(2) by blast
    moreover have "record_allowed r' m x" using eff(2) [OF _ _ m] x by (simp add: member_authorized_def)
    ultimately show ?thesis
      by (auto simp: record_allowed_def producer_allowed_without_capacity_def can_produce_def is_some_and_def split: option.splits)
  qed
  then show ?thesis using target banned by blast
qed

lemma sample_cam_ban:
  "\<exists>revoked r' sent. update_punitive_state_controlled calm_env 1 10 2 CamBanned True None sample_room = (Inr (True, revoked), r', sent)"
proof -
  obtain w where w: "reserve_admin 0 sample_room = (True, sample_room\<lparr>rm_admin_mutations := w\<rparr>)" using sample_budgets(2) by blast
  have fields: "rm_deleting sample_room = False" "rm_persisted sample_room = False" by (simp_all add: sample_room_def new_with_observers_def)
  have "\<not> punitive_cohort_matches sample_room [2] [] (KeyUser 2) CamBanned True"
    by (simp add: punitive_cohort_matches_def sample_room_def new_with_observers_def sample_member_def punitive_default_def is_some_and_def)
  then obtain plan where plan: "plan_sanction calm_env 1 10 2 CamBanned True None sample_room
      = (Inr (Some plan), sample_room\<lparr>rm_admin_mutations := w\<rparr>, [])" and "\<not> sq_persisted plan"
    using w by (auto simp: plan_sanction_def is_some_and_def attempt_def sample_authority calm_env_def sample_member_def
        fields sanction_key_for_def simp del: One_nat_def)
  then have "\<not> isl (fst (finish_sanction calm_env plan (sample_room\<lparr>rm_admin_mutations := w\<rparr>)))"
    by (simp add: finish_sanction_def save_sanction_def publish_planned_sanction_def attempt_def ensure_live_def fields Let_def
        split: prod.splits)
  moreover obtain res q s where "finish_sanction calm_env plan (sample_room\<lparr>rm_admin_mutations := w\<rparr>) = (res, q, s)"
    by (cases rule: prod_cases3)
  ultimately show ?thesis using plan
    by (cases res) (auto simp: update_punitive_state_controlled_def calm_env_def finish_sanction_def split: sum.splits prod.splits)
qed

theorem cam_ban_stops_video_witness:
  "\<exists>revoked r' sent. update_punitive_state_controlled calm_env 1 10 2 CamBanned True None sample_room = (Inr (True, revoked), r', sent)
     \<and> \<not> (\<exists>s. present r' 2 = Some (True, None, s) \<and> \<not> cam_banned s)"
proof -
  obtain revoked r' sent where ban: "update_punitive_state_controlled calm_env 1 10 2 CamBanned True None sample_room
      = (Inr (True, revoked), r', sent)" using sample_cam_ban by blast
  have others: "\<forall>q. room_safe q \<longrightarrow> room_safe (ce_others calm_env q) \<and> no_newcomers q (ce_others calm_env q)"
    by (simp add: calm_env_def)
  have target: "pt_authenticated (sample_member 2 User [(22, camera)])" "pt_ip (sample_member 2 User [(22, camera)]) = None"
    by (simp_all add: sample_member_def)
  from cam_ban_stops_video [OF sample_room_safe others ban] have "\<not> (\<exists>s. present r' 2 = Some (True, None, s) \<and> \<not> cam_banned s)"
    by (auto simp: sample_authority(2) target)
  then show ?thesis using ban by blast
qed

section \<open>Failed writes\<close>

lemma persist_room_fails:
  assumes "persist_room mapped w r = (Inl e, r', sent)" and "mapped" "\<not> rm_deleting r"
  shows "r' = r \<and> sent = [] \<and> w = Some (Inl e) \<and> \<not> persistence_is_indeterminate e
     \<or> rm_deleting r' \<and> rm_participants r' = [] \<and> rm_lobby r' = [] \<and> rm_producer_to_participant r' = []"
  using assms
  by (auto simp: persist_room_def Let_def quarantine_room_def clear_membership_def bump_policy_def
      split: option.splits sum.splits if_splits)

definition unpublished :: "room \<Rightarrow> 'a reply \<Rightarrow> bool" where
  "unpublished r reply \<longleftrightarrow>
     (case reply of (out, r', sent) \<Rightarrow>
        isl out \<and> (r' = r \<and> sent = [] \<or> rm_deleting r' \<and> rm_participants r' = [] \<and> rm_lobby r' = []))"

lemma unpublished_persist:
  assumes "ce_mapped env" and "\<not> rm_deleting r" and "\<forall>u. ce_write env \<noteq> Some (Inr u)"
    and "persist_room (ce_mapped env) (ce_write env) r = (res, r', sent)"
  shows "isl res \<and> (r' = r \<and> sent = [] \<or> rm_deleting r' \<and> rm_participants r' = [] \<and> rm_lobby r' = [])"
  using assms persist_room_fails [OF _ assms(1,2), of "ce_write env"] persist_room_keeps [of "ce_mapped env" "ce_write env" r]
  by (cases res) auto

lemma unpublished_save:
  assumes "ce_mapped env" and "\<not> rm_deleting r" and "\<forall>u. ce_write env \<noteq> Some (Inr u)"
    and "save_for_identity env none auth i a ip report r = (res, r', sent)"
  shows "isl res \<and> (r' = r \<and> sent = [] \<or> rm_deleting r' \<and> rm_participants r' = [] \<and> rm_lobby r' = [])"
proof -
  obtain x q s where x: "persist_room (ce_mapped env) (ce_write env) r = (x, q, s)" by (cases rule: prod_cases3)
  from unpublished_persist [OF assms(1-3) x] assms(4) show ?thesis
    by (cases x) (auto simp: save_for_identity_def x split: if_splits sum.splits)
qed

text \<open>
  C9: a sanction, ban, kick, role, settings or topic change of a persisted room whose write does
  not succeed is reported as an error, and either leaves the room exactly as it was and tells
  nobody, or closes the room and empties it. In no case is a decision published without having
  been saved.
\<close>

theorem failed_write_publishes_nothing:
  assumes "ce_mapped env" and "\<not> rm_deleting r" and "\<forall>u. ce_write env \<noteq> Some (Inr u)"
  shows "(sq_persisted plan \<longrightarrow> unpublished r (finish_sanction env plan r))
     \<and> (rq_persisted removal \<longrightarrow> unpublished r (finish_ban env removal r) \<and> unpublished r (finish_kick env removal r))
     \<and> (rl_persisted rp \<longrightarrow> unpublished r (finish_role env m t new_role rp r))
     \<and> (sg_persisted change \<longrightarrow> unpublished r (finish_settings env hash change r))
     \<and> unpublished r (finish_topic env m topic True r)"
proof -
  obtain x q s where x: "persist_room (ce_mapped env) (ce_write env) r = (x, q, s)" by (cases rule: prod_cases3)
  note fails = unpublished_persist [OF assms x]
  note save = unpublished_save [OF assms]
  have "sq_persisted plan \<Longrightarrow> unpublished r (finish_sanction env plan r)"
    unfolding unpublished_def finish_sanction_def save_sanction_def by (auto dest!: save split: prod.splits sum.splits)
  moreover have "rq_persisted removal \<Longrightarrow> unpublished r (finish_ban env removal r)"
    unfolding unpublished_def finish_ban_def save_ban_def by (auto dest!: save split: prod.splits sum.splits)
  moreover have "rq_persisted removal \<Longrightarrow> unpublished r (finish_kick env removal r)"
    using fails by (cases x) (auto simp: unpublished_def finish_kick_def record_kick_def x)
  moreover have "rl_persisted rp \<Longrightarrow> unpublished r (finish_role env m t new_role rp r)"
    using fails by (cases x) (auto simp: unpublished_def finish_role_def save_role_def x)
  moreover have "sg_persisted change \<Longrightarrow> unpublished r (finish_settings env hash change r)"
    using fails by (cases x) (auto simp: unpublished_def finish_settings_def save_change_def x)
  moreover have "unpublished r (finish_topic env m topic True r)"
    using fails by (cases x) (auto simp: unpublished_def finish_topic_def save_change_def x)
  ultimately show ?thesis by blast
qed

theorem failed_write_publishes_nothing_witness:
  "unpublished sample_room (finish_topic (calm_env\<lparr>ce_pool := True, ce_write := Some (Inl (Database PoolTimedOut))\<rparr>) 1 ''news'' True
     sample_room)"
proof -
  let ?env = "calm_env\<lparr>ce_pool := True, ce_write := Some (Inl (Database PoolTimedOut))\<rparr>"
  have "ce_mapped ?env" "\<not> rm_deleting sample_room" "\<forall>u. ce_write ?env \<noteq> Some (Inr u)"
    by (simp_all add: calm_env_def sample_room_def new_with_observers_def)
  from failed_write_publishes_nothing [OF this, where m = 1 and topic = "''news''"] show ?thesis by blast
qed

text \<open>
  C14: a kick in a persisted room that names a report the room does not have is answered ``Report
  not found'', the answer for a caller's mistake; but the room is closed and everybody in it and
  in its lobby is gone, as after a write with an unknown outcome.
\<close>

theorem unknown_report_closes_room:
  assumes "plan_kick env m ch t reason (Some report) r = (Inr plan, r1, [])"
    and "rm_persisted r" and "ce_pool env" and "ce_mapped env" and "\<not> rm_deleting (ce_others env r1)"
    and "find_report (mr_reports rows) report = None"
    and "ce_write env = Some (map_sum id (\<lambda>_. ()) (persist_event now (rq_event plan) rows))"
  shows "\<exists>r' sent. kick_participant env m ch t reason (Some report) r = (Inl (Bail ''Report not found''), r', sent)
     \<and> rm_deleting r' \<and> rm_participants r' = [] \<and> rm_lobby r' = []"
proof -
  have plan: "me_report_id (rq_event plan) = Some report" "rq_persisted plan"
    using assms(1,2) plan_kick_quiet [OF assms(1)] unfolding plan_kick_def attempt_def Let_def
    by (auto simp: moderation_event_new_def quiet_def calm_def policy_same_def split: sum.splits option.splits if_splits prod.splits)
  then have w: "ce_write env = Some (Inl (Database RowNotFound))"
    using assms(6,7) by (simp add: persist_event_def record_event_def)
  obtain e r' sent where "persist_room True (ce_write env) (ce_others env r1) = (Inl e, r', sent)"
      "e = Database RowNotFound" "rm_deleting r'" "rm_participants r' = []" "rm_lobby r' = []"
    using assms(5) by (auto simp: w persist_room_def quarantine_room_def clear_membership_def bump_policy_def Let_def)
  then show ?thesis using plan(2) assms(1,3,4) by (auto simp: kick_participant_def finish_kick_def record_kick_def)
qed

definition kick_env :: "unit control_env" where
  "kick_env = calm_env\<lparr>ce_pool := True, ce_write := Some (Inl (Database RowNotFound))\<rparr>"

theorem unknown_report_closes_room_witness:
  "\<exists>r' sent. kick_participant kick_env 1 10 2 None (Some 77) (sample_room\<lparr>rm_persisted := True\<rparr>)
       = (Inl (Bail ''Report not found''), r', sent) \<and> rm_deleting r' \<and> rm_participants r' = [] \<and> rm_lobby r' = []"
proof -
  let ?r = "sample_room\<lparr>rm_persisted := True\<rparr>"
  obtain plan r1 where plan: "plan_kick kick_env 1 10 2 None (Some 77) ?r = (Inr plan, r1, [])"
    and live: "\<not> rm_deleting r1" and event: "me_report_id (rq_event plan) = Some 77"
    by (simp add: plan_kick_def attempt_def kick_env_def calm_env_def participant_for_sender_def ensure_live_def sample_room_def
        new_with_observers_def sample_member_def can_moderate_def less_eq_role_def less_role_def reserve_admin_def reserve_def
        sliding_window_new_def MAX_ROOM_ADMIN_MUTATIONS_PER_WINDOW_def moderation_event_new_def Let_def)
  let ?rows = "\<lparr>mr_states = [], mr_reports = [], mr_events = []\<rparr>"
  have "ce_write kick_env = Some (map_sum id (\<lambda>_. ()) (persist_event 0 (rq_event plan) ?rows))"
    by (simp add: kick_env_def calm_env_def persist_event_def record_event_def find_report_def event)
  from unknown_report_closes_room [OF plan _ _ _ _ _ this] live show ?thesis
    by (simp add: kick_env_def calm_env_def find_report_def)
qed

end
