(* ===== verification/Room_System_Safety.thy ===== *)
theory Room_System_Safety
  imports Room_System Moderation_Outcomes
begin

text \<open>
  What a live room promises at every moment of every interleaving: nobody banned is present, the
  sanctions people carry are the saved ones, and every producer is one the room allows. The proof
  follows the policy revision: a join that looked up old rows meets a new revision at its commit.
\<close>

section \<open>What the writes do to the rows\<close>

definition removal_key :: "removal_plan \<Rightarrow> sanction_key" where
  "removal_key p = sanction_key_for (rq_target p) (rp_authenticated (rq_publication p)) (rp_ip (rq_publication p))"

definition row_effect :: "pending \<Rightarrow> state_row list \<Rightarrow> state_row list \<Rightarrow> bool" where
  "row_effect p s s' \<longleftrightarrow>
     (\<forall>t key kind. saved_punitive s' t key kind =
        (case p of Sanctioning q \<Rightarrow> after_sanction (sq_publication q) (saved_punitive s t) key kind
         | _ \<Rightarrow> saved_punitive s t key kind))
     \<and> (\<forall>t key. saved_state s' t key ''banned'' \<longrightarrow>
          saved_state s t key ''banned'' \<or> (case p of Banning q \<Rightarrow> key = removal_key q | _ \<Rightarrow> False))"

lemma one_transaction_result:
  "one_transaction rows result = (Inr v, new) \<Longrightarrow> result = Inr new"
  "one_transaction rows result = (Inl e, new) \<Longrightarrow> new = rows"
  by (auto simp: one_transaction_def split: sum.splits)

lemma row_write_fails: "row_write now fresh name p rows = (Inl e, new) \<Longrightarrow> new = rows"
  by (cases p) (auto simp: Let_def remove_user_ban_def dest: one_transaction_result(2) split: sum.splits if_splits)

lemma saved_state_less: "set s' \<subseteq> set s \<Longrightarrow> saved_state s' t key st \<Longrightarrow> saved_state s t key st"
  by (auto simp: saved_state_def list_ex_iff)

lemma saved_punitive_unban: "saved_punitive (filter (\<lambda>r. \<not> user_ban u r) s) t key kind = saved_punitive s t key kind"
  by (auto simp: saved_punitive_def saved_state_def list_ex_iff user_ban_def) (metis punitive_as_db_str_eq(2))

lemma row_write_effect:
  assumes "row_write now fresh name p rows = (Inr v, new)"
  shows "row_effect p (mr_states rows) (mr_states new)"
proof (cases p)
  case (Sanctioning q)
  let ?pub = "sq_publication q"
  obtain identity where id: "sanction_identity_of (sp_target ?pub) (sp_authenticated ?pub) (sp_ip ?pub) = Inr identity"
    and w: "set_punitive_state now fresh (event_sanction identity (sq_event q)) (sp_kind ?pub) (sp_enabled ?pub) (sq_event q) rows = Inr new"
    using assms Sanctioning by (auto simp: Let_def dest: one_transaction_result(1) split: sum.splits)
  have "mr_states new = write_punitive_state fresh (event_sanction identity (sq_event q)) (sp_kind ?pub) (sp_enabled ?pub) (mr_states rows)"
    using w record_event_states by (fastforce simp: set_punitive_state_def)
  then show ?thesis
    using saved_state_punitive [of "sp_target ?pub" "sp_authenticated ?pub" "sp_ip ?pub" "event_sanction identity (sq_event q)"] id
    by (auto simp: row_effect_def Sanctioning saved_punitive_def after_sanction_def event_sanction_def
        punitive_as_db_str_eq(2) [symmetric])
next
  case (Banning q)
  let ?pub = "rq_publication q"
  obtain identity where id: "sanction_identity_of (rq_target q) (rp_authenticated ?pub) (rp_ip ?pub) = Inr identity"
    and w: "persist_ban now fresh (event_sanction identity (rq_event q)) (me_expires_at (rq_event q)) (rq_event q) rows = Inr new"
    using assms Banning by (auto dest: one_transaction_result(1) split: sum.splits)
  have "mr_states new = write_ban fresh (event_sanction identity (rq_event q)) (me_expires_at (rq_event q)) (mr_states rows)"
    using w record_event_states by (fastforce simp: persist_ban_def)
  then show ?thesis
    using saved_state_write [of "rq_target q" "rp_authenticated ?pub" "rp_ip ?pub" "event_sanction identity (rq_event q)"] id
    by (auto simp: row_effect_def Banning saved_punitive_def removal_key_def event_sanction_def write_ban_def split: if_splits)
next
  case (Unbanning m t plan)
  then have "mr_states new = mr_states rows \<or> mr_states new = filter (\<lambda>r. \<not> user_ban t r) (mr_states rows)"
    using assms by (auto simp: remove_user_ban_def dest: record_event_states split: if_splits sum.splits)
  then show ?thesis using saved_state_less [of "filter (\<lambda>r. \<not> user_ban t r) (mr_states rows)" "mr_states rows"]
    by (auto simp: row_effect_def Unbanning saved_punitive_unban)
next
  case (Kicking q)
  then show ?thesis
    using assms record_event_states by (fastforce simp: row_effect_def persist_event_def dest: one_transaction_result(1))
qed (use assms in \<open>auto simp: row_effect_def\<close>)

lemma lasting_write_state:
  assumes "lasting rows" and "state = ''banned'' \<or> expires = None"
  shows "lasting (rows\<lparr>mr_states := write_state fresh sn state expires (mr_states rows)\<rparr>)"
  using assms by (auto simp: lasting_def write_state_def upsert_def list_all_iff row_of_def)

lemma lasting_write:
  assumes "lasting rows" and "row_write now fresh name p rows = (result, new)"
  shows "lasting new"
proof (cases result)
  case (Inl e)
  then show ?thesis using row_write_fails assms by blast
next
  case (Inr v)
  have ev: "lasting r" if "record_event now event cap q = Inr r" "lasting q" for event cap q r
    using record_event_states [OF that(1)] that(2) by (simp add: lasting_def)
  have drop: "lasting (rows\<lparr>mr_states := filter P (mr_states rows)\<rparr>)" for P
    using assms(1) by (auto simp: lasting_def list_all_iff)
  note wr = assms(2) [unfolded Inr]
  show ?thesis
  proof (cases p)
    case (Sanctioning q)
    then show ?thesis
      using wr drop lasting_write_state [OF assms(1)]
      by (auto simp: Let_def set_punitive_state_def write_punitive_state_def intro: ev
          dest!: one_transaction_result(1) split: sum.splits if_splits)
  next
    case (Kicking q)
    then show ?thesis using wr assms(1) by (auto simp: persist_event_def intro: ev dest!: one_transaction_result(1))
  next
    case (Banning q)
    then show ?thesis
      using wr lasting_write_state [OF assms(1)]
      by (auto simp: persist_ban_def write_ban_def intro: ev dest!: one_transaction_result(1) split: sum.splits)
  next
    case (Unbanning m t plan)
    then show ?thesis using wr drop assms(1) by (auto simp: remove_user_ban_def intro: ev split: if_splits sum.splits)
  qed (use wr assms(1) in auto)
qed

lemma saved_punitive_lasting:
  "lasting rows \<Longrightarrow> saved_punitive (mr_states rows) t key kind = saved_punitive (mr_states rows) t' key kind"
  by (auto simp: lasting_def saved_punitive_def saved_state_def list_all_iff list_ex_iff unexpired_row_def split: option.splits)
    (metis option.distinct(1) punitive_as_db_str_eq(2))+

lemma saved_ban_expires: "t \<le> t' \<Longrightarrow> saved_state s t' key st \<Longrightarrow> saved_state s t key st"
  by (fastforce simp: saved_state_def list_ex_iff unexpired_row_def split: option.splits)

section \<open>The invariant\<close>

text \<open>
  Between a sanction's or ban's write and its publication the room still answers for the rows
  from before the write.
\<close>

fun settled_rows :: "pending option \<Rightarrow> (moderation_rows \<times> (room_error + bool) option) option \<Rightarrow> moderation_rows \<Rightarrow> state_row list" where
  "settled_rows (Some (Sanctioning _)) (Some (before, _)) rows = mr_states before"
| "settled_rows (Some (Banning _)) (Some (before, _)) rows = mr_states before"
| "settled_rows _ _ rows = mr_states rows"

definition settled :: "cell \<Rightarrow> state_row list" where
  "settled c = settled_rows (c_pending c) (c_written c) (c_rows c)"

definition recorded :: "cell \<Rightarrow> sanction_key \<Rightarrow> punitive_kind \<Rightarrow> bool" where
  "recorded c = (if rm_persisted (c_room c) then saved_punitive (settled c) (c_time c) else stored_sanction (c_room c))"

definition banned :: "cell \<Rightarrow> sanction_key \<Rightarrow> bool" where
  "banned c key \<longleftrightarrow> rm_persisted (c_room c) \<and> saved_state (settled c) (c_time c) key ''banned''"

definition request_key :: "join_request \<Rightarrow> sanction_key" where
  "request_key req = sanction_key_for (jq_participant_id req) (jq_authenticated req) (jq_client_ip req)"

definition join_current :: "cell \<Rightarrow> join_attempt \<Rightarrow> bool" where
  \<comment> \<open>what a join read under the present revision still holds\<close>
  "join_current c ja \<longleftrightarrow>
     js_persisted (ja_snapshot ja) = rm_persisted (c_room c)
     \<and> js_policy_revision (ja_snapshot ja) = of_nat (ja_taken ja) \<and> ja_taken ja \<le> c_bumps c
     \<and> (ja_taken ja = c_bumps c \<longrightarrow> mr_states (c_rows c) = settled c \<longrightarrow>
          (\<forall>s kind. ja_punitive ja = Some s \<longrightarrow>
             punitive_value s kind = saved_punitive (settled c) (c_time c) (request_key (ja_request ja)) kind)
          \<and> (ja_banned ja = Some False \<longrightarrow> \<not> saved_state (settled c) (c_time c) (request_key (ja_request ja)) ''banned''))"

definition plan_current :: "cell \<Rightarrow> bool" where
  "plan_current c \<longleftrightarrow>
     (case c_pending c of
        None \<Rightarrow> c_written c = None
      | Some (Sanctioning p) \<Rightarrow> sanction_covers (sq_publication p) (c_room c) \<and> sq_persisted p = rm_persisted (c_room c)
      | Some (Kicking p) \<Rightarrow> \<not> rp_ban (rq_publication p)
      | Some (Banning p) \<Rightarrow>
          rp_ban (rq_publication p) \<and> removal_covers (rq_publication p) (c_room c)
          \<and> ban_names (removal_key p) (rq_publication p) (c_room c) \<and> rq_persisted p = rm_persisted (c_room c)
      | Some (Hashing _ _ _ _) \<Rightarrow> c_written c = None
      | _ \<Rightarrow> True)"

definition write_known :: "cell \<Rightarrow> bool" where
  "write_known c \<longleftrightarrow>
     (\<forall>p before answer. c_pending c = Some p \<longrightarrow> c_written c = Some (before, answer) \<longrightarrow>
        lasting before
        \<and> (\<forall>v. answer = Some (Inr v) \<longrightarrow> row_effect p (mr_states before) (mr_states (c_rows c)))
        \<and> (\<forall>e. answer = Some (Inl e) \<longrightarrow> \<not> persistence_is_indeterminate e \<longrightarrow> mr_states (c_rows c) = mr_states before))"

definition producers_known :: "cell \<Rightarrow> bool" where
  "producers_known c \<longleftrightarrow>
     (\<forall>k i. tget (rm_producer_to_participant (c_room c)) k = Some i \<longrightarrow> k \<in> set (c_used c))
     \<and> (\<forall>i ks k j. (i, ks) \<in> set (c_closings c) \<longrightarrow> k \<in> set ks \<longrightarrow>
          k \<in> set (c_used c) \<and> (tget (rm_producer_to_participant (c_room c)) k = Some j \<longrightarrow> j = i))"

definition sound :: "cell \<Rightarrow> bool" where
  "sound c \<longleftrightarrow>
     rm_policy_revision (c_room c) = of_nat (c_bumps c) \<and> lasting (c_rows c)
     \<and> promise (recorded c) (banned c) (c_room c)
     \<and> list_all (join_current c) (c_joins c) \<and> plan_current c \<and> write_known c \<and> producers_known c"

lemma soundD:
  assumes "sound c"
  shows "rm_policy_revision (c_room c) = of_nat (c_bumps c)" "lasting (c_rows c)" "promise (recorded c) (banned c) (c_room c)"
    "list_all (join_current c) (c_joins c)" "plan_current c" "write_known c" "producers_known c"
  using assms by (simp_all add: sound_def)

lemma promise_wf: "promise V B r \<Longrightarrow> room_wf r" "promise V B r \<Longrightarrow> room_safe r"
  by (simp_all add: promise_def room_safe_wf)

lemma promise_fewer_bans: "promise V B r \<Longrightarrow> (\<And>key. B' key \<Longrightarrow> B key) \<Longrightarrow> promise V B' r"
  unfolding promise_def bans_follow_def by blast

section \<open>Steps that leave the rows alone\<close>

definition close_to :: "room \<Rightarrow> room \<Rightarrow> bool" where
  "close_to r r' \<longleftrightarrow>
     rm_persisted r' = rm_persisted r \<and> rm_policy_revision r' \<in> {rm_policy_revision r, rm_policy_revision r + 1}
     \<and> (\<not> rm_persisted r \<longrightarrow> stored_sanction r' = stored_sanction r)"

lemma put_room_simps [simp]:
  "c_room (put_room r c) = r" "c_rows (put_room r c) = c_rows c" "c_time (put_room r c) = c_time c"
  "c_pool (put_room r c) = c_pool c" "c_pending (put_room r c) = c_pending c" "c_written (put_room r c) = c_written c"
  "c_joins (put_room r c) = c_joins c" "c_closings (put_room r c) = c_closings c" "c_used (put_room r c) = c_used c"
  "settled (put_room r c) = settled c"
  by (simp_all add: put_room_def settled_def)

lemma put_room_bumps: "n \<le> c_bumps c \<Longrightarrow> n \<le> c_bumps (put_room r c) \<and> (n = c_bumps (put_room r c) \<longrightarrow> n = c_bumps c)"
  by (auto simp: put_room_def)

lemma close_to_revision:
  "close_to (c_room c) r \<Longrightarrow> rm_policy_revision (c_room c) = of_nat (c_bumps c) \<Longrightarrow>
     rm_policy_revision r = of_nat (c_bumps (put_room r c))"
  by (auto simp: close_to_def put_room_def add.commute)

lemma close_to_records:
  "close_to (c_room c) r \<Longrightarrow> recorded (put_room r c) = recorded c \<and> banned (put_room r c) = banned c"
  by (auto simp: close_to_def recorded_def banned_def fun_eq_iff)

lemma close_to_joins:
  "close_to (c_room c) r \<Longrightarrow> list_all (join_current c) (c_joins c) \<Longrightarrow> list_all (join_current (put_room r c)) (c_joins c)"
proof -
  assume "close_to (c_room c) r"
  then have "join_current c ja \<Longrightarrow> join_current (put_room r c) ja" for ja
    using put_room_bumps [of "ja_taken ja" c r] unfolding join_current_def put_room_simps close_to_def by blast
  then show "list_all (join_current c) (c_joins c) \<Longrightarrow> list_all (join_current (put_room r c)) (c_joins c)"
    by (auto simp: list_all_iff)
qed

lemma plan_current_keeps:
  assumes "plan_current c" and "no_newcomers (c_room c) r" and "rm_persisted r = rm_persisted (c_room c)"
  shows "plan_current (put_room r c)"
  using assms sanction_covers_keeps [OF _ assms(2)] removal_covers_keeps [OF _ assms(2)] ban_names_keeps [OF _ assms(2)]
  by (auto simp: plan_current_def split: option.splits pending.splits)

lemma producers_known_keeps:
  "producers_known c \<Longrightarrow> owners_within (c_room c) r \<Longrightarrow> producers_known (put_room r c)"
  unfolding producers_known_def owners_within_def put_room_simps by blast

lemma sound_put:
  assumes "sound c" and "close_to (c_room c) r" and "promise (recorded c) (banned c) r"
    and "plan_current (put_room r c)" and "owners_within (c_room c) r"
  shows "sound (put_room r c)"
  using soundD [OF assms(1)] close_to_revision [OF assms(2)] close_to_records [OF assms(2)] close_to_joins [OF assms(2)]
    producers_known_keeps [OF _ assms(5)] assms(3,4)
  by (simp add: sound_def write_known_def)

lemma calm_close: "calm r r' \<Longrightarrow> close_to r r'"
  by (auto simp: calm_def policy_same_def close_to_def dest: shrinks_stored)

lemma sound_calm:
  assumes "sound c" and "calm (c_room c) r"
  shows "sound (put_room r c)"
proof -
  note p = soundD(3) [OF assms(1)]
  have sh: "shrinks (c_room c) r" using assms(2) by (simp add: calm_def)
  show ?thesis
  proof (rule sound_put [OF assms(1) calm_close [OF assms(2)] calm_promise [OF assms(2) p]])
    show "plan_current (put_room r c)"
      using soundD(5) [OF assms(1)] shrinks_no_newcomers [OF sh] calm_close [OF assms(2)]
      by (simp add: plan_current_keeps close_to_def)
    show "owners_within (c_room c) r" by (rule shrinks_owners [OF promise_wf(1) [OF p] sh])
  qed
qed

lemmas quiet_ops =
  mark_participant_disconnected_quiet rebind_participant_sender_quiet remove_participant_inner_quiet deny_from_lobby_quiet
  request_voice_quiet reserve_media_mutation_quiet reserve_pause_quiet reserve_media_control_quiet commit_pause_quiet refunds_quiet
  process_chat_attempt_quiet prepare_chat_attempt_quiet(1) quiet_finish relay_typing_quiet

lemma meanwhile_calm: "meanwhile r r' \<Longrightarrow> calm r r'"
proof (induction rule: meanwhile.induct)
  case (talks sz r social)
  then show ?case by (intro calm_social) (rule social_step_wf)
qed (blast intro: quiet_ops [THEN quiet_calm] evict_empty_room_calm release_failed_join_calm calm_frame)+

section \<open>Taking and releasing control\<close>

lemma sound_frame:
  assumes "sound c" and "c_room c' = c_room c" "c_rows c' = c_rows c" "c_time c' = c_time c" "c_bumps c' = c_bumps c"
    "c_joins c' = c_joins c" "c_closings c' = c_closings c" "c_used c' = c_used c" "settled c' = settled c"
    and "plan_current c'" "write_known c'"
  shows "sound c'"
proof -
  have "recorded c' = recorded c" "banned c' = banned c" "join_current c' = join_current c" "producers_known c' = producers_known c"
    by (simp_all add: fun_eq_iff recorded_def banned_def join_current_def producers_known_def assms(2-9))
  then show ?thesis using soundD [OF assms(1)] assms by (simp add: sound_def)
qed

lemma sound_pending:
  assumes "sound c" and "c_pending c = None" and "plan_current (c\<lparr>c_pending := p\<rparr>)"
  shows "sound (c\<lparr>c_pending := p\<rparr>)"
proof -
  have w: "c_written c = None" using soundD(5) [OF assms(1)] assms(2) by (simp add: plan_current_def)
  then have "settled (c\<lparr>c_pending := p\<rparr>) = settled c" using assms(2) by (simp add: settled_def)
  then show ?thesis using assms(3) w by (intro sound_frame [OF assms(1)]) (simp_all add: write_known_def)
qed

lemma sound_plan:
  assumes "sound c" and "c_pending c = None" and "quiet (c_room c) r" and "plan_current ((put_room r c)\<lparr>c_pending := p\<rparr>)"
  shows "sound ((put_room r c)\<lparr>c_pending := p\<rparr>)"
  by (rule sound_pending [OF sound_calm [OF assms(1) quiet_calm [OF assms(3)]]]) (use assms(2,4) in simp_all)

lemma sound_release:
  assumes "sound c" and "mr_states (c_rows c) = settled c"
  shows "sound (c\<lparr>c_pending := None, c_written := None\<rparr>)"
proof -
  have "settled (c\<lparr>c_pending := None, c_written := None\<rparr>) = settled c" using assms(2) by (simp add: settled_def)
  then show ?thesis by (intro sound_frame [OF assms(1)]) (simp_all add: write_known_def plan_current_def)
qed

lemma sound_finished_calm:
  "sound c \<Longrightarrow> mr_states (c_rows c) = settled c \<Longrightarrow> calm (c_room c) r \<Longrightarrow> sound (finished r c)"
  unfolding finished_def by (rule sound_release [OF sound_calm]) simp_all

lemma finished_simps [simp]:
  "c_room (finished r c) = r" "c_rows (finished r c) = c_rows c" "c_time (finished r c) = c_time c"
  "c_joins (finished r c) = c_joins c" "settled (finished r c) = mr_states (c_rows c)"
  "c_pending (finished r c) = None" "c_written (finished r c) = None"
  by (simp_all add: finished_def settled_def)

lemma sound_published:
  assumes "sound c" and "rm_persisted r = rm_persisted (c_room c)"
    and rev: "rm_policy_revision r = rm_policy_revision (c_room c) + 1"
    and "promise (recorded (finished r c)) (banned (finished r c)) r" and "owners_within (c_room c) r"
  shows "sound (finished r c)"
proof -
  have bumps: "c_bumps (finished r c) = Suc (c_bumps c)" using rev by (simp add: finished_def put_room_def)
  have "producers_known (finished r c)"
    using producers_known_keeps [OF soundD(7) [OF assms(1)] assms(5)] by (simp add: finished_def producers_known_def)
  moreover have "join_current (finished r c) ja" if "join_current c ja" for ja
    using that assms(2) by (auto simp: join_current_def bumps)
  ultimately show ?thesis
    using soundD [OF assms(1)] assms(4) rev
    by (auto simp: sound_def bumps list_all_iff plan_current_def write_known_def add.commute)
qed

section \<open>Sanctions and bans\<close>

lemma save_settles:
  assumes "sound c" and p: "c_pending c = Some p" and before: "\<And>b w. c_written c = Some (b, w) \<Longrightarrow> settled c = mr_states b"
    and ans: "answered unit_answer env p c"
    and needs: "needs_write (c_pool c) p \<longleftrightarrow> c_pool c \<and> auth \<and> \<not> isl (sanction_identity_of i a ip)"
    and save: "save_for_identity env none auth i a ip report (c_room c) = (res, r, sent)" and live: "\<not> rm_deleting r"
  shows "r = c_room c"
    and "isl res \<Longrightarrow> mr_states (c_rows c) = settled c"
    and "\<not> isl res \<Longrightarrow> row_effect p (settled c) (mr_states (c_rows c))"
proof -
  have pool: "ce_pool env = c_pool c" and mapped: "ce_mapped env \<or> rm_deleting (c_room c)" using ans by (auto simp: answered_def)
  have none: "settled c = mr_states (c_rows c)" if "c_written c = None"
    using that by (cases "(c_pending c, c_written c, c_rows c)" rule: settled_rows.cases) (simp_all add: settled_def)
  have "r = c_room c \<and> (isl res \<longrightarrow> mr_states (c_rows c) = settled c)
      \<and> (\<not> isl res \<longrightarrow> row_effect p (settled c) (mr_states (c_rows c)))"
  proof (cases "needs_write (c_pool c) p")
    case False
    then have "c_written c = None" using ans by (simp add: answered_def)
    moreover have "r = c_room c \<and> isl res"
      using False needs save by (auto simp: save_for_identity_def pool split: if_splits sum.splits)
    ultimately show ?thesis using none by simp
  next
    case True
    then obtain b w where w: "c_written c = Some (b, w)" "ce_write env = map_option (map_sum id (\<lambda>_. ())) w"
      using ans by (auto simp: answered_def unit_answer_def)
    obtain x r1 s1 where x: "persist_room (ce_mapped env) (ce_write env) (c_room c) = (x, r1, s1)" by (cases rule: prod_cases3)
    have r1: "r1 = r" "isl res = isl x"
      using save x True needs by (auto simp: save_for_identity_def pool split: sum.splits if_splits)
    from persist_room_closes [OF x mapped] live r1(1) have "r = c_room c" "ce_write env = Some x"
      "\<forall>e. x = Inl e \<longrightarrow> \<not> persistence_is_indeterminate e" by auto
    moreover have "(\<forall>e. w = Some (Inl e) \<longrightarrow> \<not> persistence_is_indeterminate e \<longrightarrow> mr_states (c_rows c) = settled c)
        \<and> (\<forall>v. w = Some (Inr v) \<longrightarrow> row_effect p (settled c) (mr_states (c_rows c)))"
      using soundD(6) [OF assms(1)] p w(1) before [OF w(1)] by (auto simp: write_known_def)
    moreover obtain y where "w = Some y" "x = map_sum id (\<lambda>_. ()) y" using w(2) \<open>ce_write env = Some x\<close> by (cases w) simp_all
    ultimately show ?thesis using r1(2) by (cases y) auto
  qed
  then show "r = c_room c" "isl res \<Longrightarrow> mr_states (c_rows c) = settled c"
    "\<not> isl res \<Longrightarrow> row_effect p (settled c) (mr_states (c_rows c))" by blast+
qed

lemma settled_before:
  "c_pending c = Some (Sanctioning p) \<or> c_pending c = Some (Banning q) \<Longrightarrow> c_written c = Some (b, w) \<Longrightarrow> settled c = mr_states b"
  by (auto simp: settled_def)

lemma unanswered_settled: "answered fits env p c \<Longrightarrow> \<not> needs_write (c_pool c) p \<Longrightarrow> mr_states (c_rows c) = settled c"
  by (cases "(c_pending c, c_written c, c_rows c)" rule: settled_rows.cases) (simp_all add: settled_def answered_def)

lemma sound_sanctioned:
  assumes sound: "sound c" and p: "c_pending c = Some (Sanctioning p)" and "q = c_room c \<or> quiet (c_room c) q"
    and pub: "publish_sanction closed (sq_publication p) q = (vs, r, sent)"
    and rows: "rm_persisted (c_room c) \<Longrightarrow> row_effect (Sanctioning p) (settled c) (mr_states (c_rows c))"
  shows "sound (finished r c)"
proof -
  let ?pub = "sq_publication p"
  have quiet: "quiet (c_room c) q" using assms(3) by auto
  have covers: "sanction_covers ?pub q"
    using soundD(5) [OF sound] p sanction_covers_keeps [OF _ shrinks_no_newcomers] quiet
    by (simp add: plan_current_def quiet_def calm_def) blast
  have q: "promise (recorded c) (banned c) q" by (rule calm_promise [OF quiet_calm [OF quiet] soundD(3) [OF sound]])
  note eff = publish_sanction_promise [OF q covers pub]
  have same: "rm_persisted q = rm_persisted (c_room c)" "rm_policy_revision q = rm_policy_revision (c_room c)"
    "stored_sanction q = stored_sanction (c_room c)"
    using quiet shrinks_stored by (auto simp: quiet_def calm_def policy_same_def)
  have "recorded (finished r c) = after_sanction ?pub (recorded c)"
  proof (cases "rm_persisted (c_room c)")
    case True
    then show ?thesis using rows eff(3) same by (simp add: recorded_def row_effect_def fun_eq_iff)
  next
    case False
    then have "recorded c = stored_sanction q" by (simp add: recorded_def same)
    then show ?thesis
      using False eff(3) same publish_sanction_records [OF promise_wf(2) [OF q] _ covers pub] q
      by (simp add: recorded_def promise_def)
  qed
  moreover have "banned (finished r c) key \<Longrightarrow> banned c key" for key
    using rows eff(3) same by (auto simp: banned_def row_effect_def)
  ultimately have "promise (recorded (finished r c)) (banned (finished r c)) r"
    using promise_fewer_bans [OF eff(1)] by simp
  moreover have "owners_within (c_room c) r"
    using shrinks_owners [OF promise_wf(1) [OF soundD(3) [OF sound]]] quiet publish_sanction_owners [OF promise_wf(2) [OF q] pub]
    by (auto simp: quiet_def calm_def intro: owners_trans)
  ultimately show ?thesis using eff(2,3) same by (intro sound_published [OF sound]) simp_all
qed

lemma finish_sanction_sound:
  assumes sound: "sound c" and p: "c_pending c = Some (Sanctioning p)" and ans: "answered unit_answer env (Sanctioning p) c"
    and fin: "finish_sanction env p (c_room c) = (out, r, sent)" and live: "\<not> rm_deleting r"
  shows "sound (finished r c)"
proof -
  let ?pub = "sq_publication p"
  have pers: "sq_persisted p = rm_persisted (c_room c)" using soundD(5) [OF sound] p by (simp add: plan_current_def)
  obtain res r1 s1 where save: "save_sanction env p (c_room c) = (res, r1, s1)" by (cases rule: prod_cases3)
  have r1: "\<not> rm_deleting r1"
    using fin save live by (auto simp: finish_sanction_def publish_planned_sanction_def attempt_def ensure_live_def split: sum.splits prod.splits if_splits)
  have st: "r1 = c_room c \<and> (isl res \<longrightarrow> mr_states (c_rows c) = settled c)
      \<and> (\<not> isl res \<longrightarrow> rm_persisted (c_room c) \<longrightarrow> row_effect (Sanctioning p) (settled c) (mr_states (c_rows c)))"
  proof (cases "sq_persisted p")
    case True
    then have "save_for_identity env ''Moderation service is temporarily unavailable'' (sq_moderator_authenticated p)
        (sp_target ?pub) (sp_authenticated ?pub) (sp_ip ?pub) (\<lambda>_. Bail ''Moderation state could not be saved'') (c_room c) = (res, r1, s1)"
      using save by (simp add: save_sanction_def)
    from save_settles [OF sound p settled_before ans _ this r1] True p show ?thesis by simp
  qed (use save pers in \<open>auto simp: save_sanction_def\<close>)
  show ?thesis
  proof (cases res)
    case (Inl e)
    then have "r = c_room c" using fin save st by (simp add: finish_sanction_def)
    then show ?thesis using st Inl sound_finished_calm [OF sound] by simp
  next
    case (Inr u)
    define q where "q = (if sq_persisted p then c_room c
      else (c_room c)\<lparr>rm_social := record_moderation_event (sq_event p) (rm_social (c_room c))\<rparr>)"
    obtain vs s2 where "publish_sanction (ce_closed env) ?pub q = (vs, r, s2)"
      using fin save st Inr r1
      by (auto simp: finish_sanction_def publish_planned_sanction_def attempt_def ensure_live_def q_def Let_def split: prod.splits)
    moreover have "q = c_room c \<or> quiet (c_room c) q" by (auto simp: q_def intro: quiet_social)
    ultimately show ?thesis using sound_sanctioned [OF sound p] st Inr by simp
  qed
qed

lemma sound_banned:
  assumes sound: "sound c" and p: "c_pending c = Some (Banning p)" and quiet: "quiet (c_room c) q"
    and pub: "publish_removal closed b now wall (rq_publication p) q = (ss, r, sent)"
    and rows: "rm_persisted (c_room c) \<Longrightarrow> row_effect (Banning p) (settled c) (mr_states (c_rows c))"
  shows "sound (finished r c)"
proof -
  have sh: "shrinks (c_room c) q" using quiet by (simp add: quiet_def calm_def)
  have pl: "rp_ban (rq_publication p)" "removal_covers (rq_publication p) q" "ban_names (removal_key p) (rq_publication p) q"
    using soundD(5) [OF sound] p removal_covers_keeps [OF _ shrinks_no_newcomers [OF sh]] ban_names_keeps [OF _ shrinks_no_newcomers [OF sh]]
    by (simp_all add: plan_current_def)
  have q: "promise (recorded c) (banned c) q" by (rule calm_promise [OF quiet_calm [OF quiet] soundD(3) [OF sound]])
  note wf = promise_wf(1) [OF q]
  note eff = publish_ban_promise [OF q pl pub] and rest = publish_removal_standing [OF pub] and less = publish_removal_shrinks [OF wf pub]
  have same: "rm_persisted q = rm_persisted (c_room c)" "rm_policy_revision q = rm_policy_revision (c_room c)"
    "stored_sanction r = stored_sanction (c_room c)"
    using quiet shrinks_stored [OF sh] shrinks_stored [OF less] by (auto simp: quiet_def calm_def policy_same_def)
  have "recorded (finished r c) = recorded c"
    using rows rest(2) same by (auto simp: recorded_def row_effect_def fun_eq_iff)
  moreover have "banned (finished r c) key \<Longrightarrow> key = removal_key p \<or> banned c key" for key
    using rows rest(2) same by (auto simp: banned_def row_effect_def)
  ultimately have "promise (recorded (finished r c)) (banned (finished r c)) r"
    using promise_fewer_bans [OF eff] by simp
  moreover have "owners_within (c_room c) r"
    using owners_trans [OF shrinks_owners [OF promise_wf(1) [OF soundD(3) [OF sound]] sh] shrinks_owners [OF wf less]] .
  ultimately show ?thesis using rest same by (intro sound_published [OF sound]) simp_all
qed

lemma finish_ban_sound:
  assumes sound: "sound c" and p: "c_pending c = Some (Banning p)" and ans: "answered unit_answer env (Banning p) c"
    and fin: "finish_ban env p (c_room c) = (out, r, sent)" and live: "\<not> rm_deleting r"
  shows "sound (finished r c)"
proof -
  let ?pub = "rq_publication p"
  have pers: "rq_persisted p = rm_persisted (c_room c)" using soundD(5) [OF sound] p by (simp add: plan_current_def)
  obtain res r1 s1 where save: "save_ban env p (c_room c) = (res, r1, s1)" by (cases rule: prod_cases3)
  have r1: "\<not> rm_deleting r1"
    using fin save live
    by (cases res) (auto simp: finish_ban_def publish_planned_ban_def attempt_def ensure_live_def split: prod.splits if_splits)
  have st: "r1 = c_room c \<and> (isl res \<longrightarrow> mr_states (c_rows c) = settled c)
      \<and> (\<not> isl res \<longrightarrow> rm_persisted (c_room c) \<longrightarrow> row_effect (Banning p) (settled c) (mr_states (c_rows c)))"
  proof (cases "rq_persisted p")
    case True
    then have "save_for_identity env ''Ban service is temporarily unavailable'' (rq_moderator_authenticated p)
        (rq_target p) (rp_authenticated ?pub) (rp_ip ?pub) ban_error (c_room c) = (res, r1, s1)"
      using save by (simp add: save_ban_def)
    from save_settles [OF sound p settled_before ans _ this r1] True p show ?thesis by simp
  qed (use save pers in \<open>auto simp: save_ban_def\<close>)
  show ?thesis
  proof (cases res)
    case (Inl e)
    then have "r = c_room c" using fin save st by (simp add: finish_ban_def)
    then show ?thesis using st Inl sound_finished_calm [OF sound] by simp
  next
    case (Inr u)
    obtain d q s2 where d: "(if rq_persisted p then (Inr (), c_room c, []) else keep_decision (ce_wall env) p (c_room c)) = (d, q, s2)"
      by (cases rule: prod_cases3)
    have quiet: "quiet (c_room c) q" using d keep_decision_quiet by (auto split: if_splits)
    show ?thesis
    proof (cases d)
      case (Inl e)
      then have "r = q" "\<not> rq_persisted p"
        using fin save st \<open>res = Inr u\<close> r1 d
        by (auto simp: finish_ban_def publish_planned_ban_def attempt_def ensure_live_def split: if_splits)
      then show ?thesis
        using sound_finished_calm [OF sound _ quiet_calm [OF quiet]] unanswered_settled [OF ans] by simp
    next
      case (Inr v)
      then obtain ss s3 where
        "publish_removal (ce_closed env) (ce_ban_id env) (ce_later env) (ce_wall env) ?pub q = (ss, r, s3)"
        using fin save st \<open>res = Inr u\<close> r1 d
        by (auto simp: finish_ban_def publish_planned_ban_def attempt_def ensure_live_def split: prod.splits)
      then show ?thesis using sound_banned [OF sound p quiet] st \<open>res = Inr u\<close> by simp
    qed
  qed
qed

section \<open>Other operations under control\<close>

lemma sound_changed:
  assumes "sound c" and "settled c = mr_states (c_rows c)" and "plan_current (put_room r c)"
    and "close_to (c_room c) r" and "promise (recorded c) (banned c) r" and "owners_within (c_room c) r"
  shows "sound (finished r c)"
  unfolding finished_def
  by (rule sound_release [OF sound_put [OF assms(1,4,5,3,6)]]) (use assms(2) in simp)

lemma finish_role_sound:
  assumes sound: "sound c" and p: "c_pending c = Some (Changing_role m t new_role p)"
    and fin: "finish_role env m t new_role p (c_room c) = (out, r, sent)"
  shows "sound (finished r c)"
proof -
  have rows: "settled c = mr_states (c_rows c)" by (simp add: settled_def p)
  note wf = promise_wf(1) [OF soundD(3) [OF sound]]
  consider "calm (c_room c) r" | vs s' where "publish_role (ce_closed env) t new_role m (c_room c) = (vs, r, s')"
    using fin save_role_calm [of env p "c_room c"]
    by (auto simp: finish_role_def publish_planned_role_def attempt_def save_role_def Let_def
        dest!: persist_room_keeps split: prod.splits sum.splits if_splits)
  then show ?thesis
  proof cases
    case 1
    then show ?thesis using sound_finished_calm [OF sound] rows by simp
  next
    case 2
    show ?thesis
      using publish_role_promise [OF soundD(3) [OF sound] 2] publish_role_records [OF wf 2] p
      by (intro sound_changed [OF sound rows]) (auto simp: plan_current_def close_to_def)
  qed
qed

lemma finish_settings_sound:
  assumes sound: "sound c" and p: "c_pending c = Some (Changing_settings hash p)"
    and fin: "finish_settings env hash p (c_room c) = (out, r, sent)"
  shows "sound (finished r c)"
proof -
  have rows: "settled c = mr_states (c_rows c)" by (simp add: settled_def p)
  note wf = promise_wf(1) [OF soundD(3) [OF sound]]
  consider "calm (c_room c) r" | res s' where "publish_settings (sg_updated p) hash (c_room c) = (res, r, s')"
    using fin by (auto simp: finish_settings_def save_change_def dest: persist_room_calm dest!: persist_room_keeps
        split: prod.splits sum.splits if_splits)
  then show ?thesis
  proof cases
    case 1
    then show ?thesis using sound_finished_calm [OF sound] rows by simp
  next
    case 2
    show ?thesis
      using publish_settings_promise [OF soundD(3) [OF sound] 2] publish_settings_records [OF wf 2] p
      by (intro sound_changed [OF sound rows]) (auto simp: plan_current_def close_to_def)
  qed
qed

lemma finish_topic_sound:
  assumes sound: "sound c" and p: "c_pending c = Some (Changing_topic m topic persisted)"
    and fin: "finish_topic env m topic persisted (c_room c) = (out, r, sent)"
  shows "sound (finished r c)"
proof -
  have rows: "settled c = mr_states (c_rows c)" by (simp add: settled_def p)
  consider "calm (c_room c) r" | res s' where "publish_topic m topic (c_room c) = (res, r, s')"
    using fin by (auto simp: finish_topic_def save_change_def dest: persist_room_calm dest!: persist_room_keeps
        split: prod.splits sum.splits if_splits)
  then show ?thesis
  proof cases
    case 1
    then show ?thesis using sound_finished_calm [OF sound] rows by simp
  next
    case 2
    show ?thesis
      using publish_topic_promise [OF soundD(3) [OF sound] 2] publish_topic_records [OF 2] p
      by (intro sound_changed [OF sound rows]) (auto simp: plan_current_def close_to_def)
  qed
qed

lemma admission_sound:
  assumes sound: "sound c" and p: "c_pending c = Some (Admitting t a)"
    and fin: "commit_admission closed draining session token authorize pf t (c_room c) = (out, r, sent)"
  shows "sound (finished r c)"
proof -
  have rows: "settled c = mr_states (c_rows c)" by (simp add: settled_def p)
  show ?thesis
    using commit_admission_promise [OF soundD(3) [OF sound] fin] commit_admission_records [OF fin] p
    by (intro sound_changed [OF sound rows]) (auto simp: plan_current_def close_to_def same_standing_def)
qed

lemma plan_sanction_current:
  assumes "sound c" and "plan_sanction env m ch t kind enabled reason (c_room c) = (Inr (Some p), r, sent)"
  shows "plan_current ((put_room r c)\<lparr>c_pending := Some (Sanctioning p)\<rparr>)"
proof -
  note safe = promise_wf(2) [OF soundD(3) [OF assms(1)]]
  have "sanction_covers (sq_publication p) r" using plan_sanction_safe(3) [OF safe assms(2)] by simp
  moreover have "sq_persisted p = rm_persisted r"
    using plan_sanction_steps(2) [OF assms(2)] quiet_calm [OF plan_sanction_quiet [OF assms(2)]]
    by (auto simp: calm_def policy_same_def)
  ultimately show ?thesis by (simp add: plan_current_def)
qed

lemma plan_ban_current:
  assumes "sound c" and plan: "plan_ban env m ch t reason duration report (c_room c) = (Inr p, r, sent)"
  shows "plan_current ((put_room r c)\<lparr>c_pending := Some (Banning p)\<rparr>)"
proof -
  note safe = promise_wf(2) [OF soundD(3) [OF assms(1)]]
  have sh: "shrinks (c_room c) r" using plan_ban_quiet [OF plan] by (simp add: quiet_def calm_def)
  have "ban_names (removal_key p) (rq_publication p) (c_room c) \<and> rq_persisted p = rm_persisted r \<and> rp_ban (rq_publication p)"
    by (rule plan_ban_target [OF room_safe_wf [OF safe] plan]) (simp add: removal_key_def)
  then show ?thesis
    using plan_ban_safe(3) [OF safe plan] ban_names_keeps [OF _ shrinks_no_newcomers [OF sh]] by (simp add: plan_current_def)
qed

lemma plan_kick_current:
  "plan_kick env m ch t reason report r0 = (Inr p, r, sent) \<Longrightarrow> plan_current (c\<lparr>c_pending := Some (Kicking p)\<rparr>)"
  unfolding plan_kick_def attempt_def Let_def plan_current_def by (auto split: sum.splits option.splits if_splits prod.splits)

section \<open>Writes\<close>

lemma write_ends_cases:
  assumes "row_write now fresh name p rows = (result, new)" and "write_ends result rows new answer rows'"
  shows "rows' = rows \<or> (\<exists>v. result = Inr v \<and> rows' = new)"
    and "answer = Some (Inr v) \<Longrightarrow> row_effect p (mr_states rows) (mr_states rows')"
    and "answer = Some (Inl e) \<Longrightarrow> \<not> persistence_is_indeterminate e \<Longrightarrow> rows' = rows"
  using assms row_write_fails [of now fresh name p rows] row_write_effect [of now fresh name p rows]
  by (cases result; auto simp: write_ends_def)+

lemma write_sound:
  assumes sound: "sound c" and p: "c_pending c = Some p" and none: "c_written c = None" and needs: "needs_write (c_pool c) p"
    and wr: "row_write (c_time c) fresh name p (c_rows c) = (result, new)" and ends: "write_ends result (c_rows c) new answer rows"
  shows "sound (c\<lparr>c_rows := rows, c_written := Some (c_rows c, answer)\<rparr>)" (is "sound ?c")
proof -
  note cases = write_ends_cases [OF wr ends]
  have old: "settled c = mr_states (c_rows c)"
    using none by (cases "(c_pending c, c_written c, c_rows c)" rule: settled_rows.cases) (simp_all add: settled_def)
  have eff: "mr_states rows = mr_states (c_rows c) \<or> row_effect p (mr_states (c_rows c)) (mr_states rows)"
    using cases(1) wr row_write_effect by fastforce
  have holds: "settled ?c = settled c \<or> (\<forall>t key kind. saved_punitive (settled ?c) t key kind = saved_punitive (settled c) t key kind)
      \<and> (\<forall>t key. saved_state (settled ?c) t key ''banned'' \<longrightarrow> saved_state (settled c) t key ''banned'')"
    using eff by (cases p) (auto simp: settled_def p old [unfolded settled_def] none row_effect_def)
  then have "recorded ?c = recorded c" and "banned ?c key \<Longrightarrow> banned c key" for key
    by (auto simp: recorded_def banned_def fun_eq_iff)
  then have "promise (recorded ?c) (banned ?c) (c_room c)" using promise_fewer_bans [OF soundD(3) [OF sound]] by simp
  moreover have "join_current ?c ja" if "join_current c ja" for ja
    using that holds by (auto simp: join_current_def old)
  moreover have "lasting rows" using cases(1) lasting_write [OF soundD(2) [OF sound] wr] soundD(2) [OF sound] by blast
  moreover have "write_known ?c" using cases(2,3) p soundD(2) [OF sound] by (auto simp: write_known_def)
  moreover have "plan_current ?c" using soundD(5) [OF sound] p needs by (cases p) (simp_all add: plan_current_def)
  moreover have "producers_known ?c" using soundD(7) [OF sound] by (simp add: producers_known_def)
  ultimately show ?thesis using soundD [OF sound] by (auto simp: sound_def list_all_iff)
qed

section \<open>Joins\<close>

lemma looked_up_value: "looked_up x = Inr v \<Longrightarrow> x = Some v"
  by (simp add: looked_up_def split: option.splits)

lemma join_authorize_known:
  assumes "join_authorize je req pre snap = Inr grant"
  shows "js_persisted snap \<Longrightarrow> je_banned je = Inr False \<and> je_punitive je = Inr (jg_punitive grant)"
    and "\<not> js_persisted snap \<Longrightarrow> jg_punitive grant = punitive_default"
  using assms
  by (auto simp: join_authorize_def join_ban_check_def join_punitive_def no_access_def split: sum.splits if_splits bool.splits)

lemma granted_knows:
  assumes sound: "sound c" and free: "c_pending c = None" and small: "c_bumps c < 2 ^ 64" and ja: "ja \<in> set (c_joins c)"
    and look: "je_banned je = looked_up (ja_banned ja)" "je_punitive je = looked_up (ja_punitive ja)"
    and grant: "join_authorize je (ja_request ja) pre (ja_snapshot ja) = Inr grant"
    and match: "policy_snapshot_matches (c_room c) (js_policy_revision (ja_snapshot ja))"
  shows "knows (recorded c) (banned c) (request_key (ja_request ja)) grant (c_room c)"
proof -
  have cur: "join_current c ja" using soundD(4) [OF sound] ja by (simp add: list_all_iff)
  have rows: "mr_states (c_rows c) = settled c" using free by (simp add: settled_def)
  have "(of_nat (ja_taken ja) :: u64) = of_nat (c_bumps c)"
    using match cur soundD(1) [OF sound] by (simp add: policy_snapshot_matches_def join_current_def)
  then have "ja_taken ja mod 2 ^ 64 = c_bumps c mod 2 ^ 64" by (simp add: word_of_nat_eq_iff take_bit_eq_mod)
  moreover have "ja_taken ja \<le> c_bumps c" using cur by (simp add: join_current_def)
  ultimately have now: "ja_taken ja = c_bumps c" using small by simp
  have V: "stored_sanction (c_room c) key kind \<Longrightarrow> recorded c key kind" for key kind
    using soundD(3) [OF sound] by (simp add: promise_def sanctions_follow_def)
  show ?thesis
  proof (cases "rm_persisted (c_room c)")
    case True
    then have "js_persisted (ja_snapshot ja)" using cur by (simp add: join_current_def)
    from join_authorize_known(1) [OF grant this] look have "ja_banned ja = Some False" "ja_punitive ja = Some (jg_punitive grant)"
      by (auto dest: looked_up_value)
    then show ?thesis using cur now rows True V by (auto simp: knows_def join_current_def recorded_def banned_def)
  next
    case False
    then have "jg_punitive grant = punitive_default" using cur join_authorize_known(2) [OF grant] by (simp add: join_current_def)
    moreover have "\<not> punitive_value punitive_default kind" for kind by (cases kind) (simp_all add: punitive_default_def)
    ultimately show ?thesis using False by (simp add: knows_def recorded_def banned_def)
  qed
qed

lemma sound_joins:
  assumes "sound c" and "list_all (join_current c) joins"
  shows "sound (c\<lparr>c_joins := joins\<rparr>)"
proof -
  let ?c = "c\<lparr>c_joins := joins\<rparr>"
  have s: "settled ?c = settled c" by (simp add: settled_def)
  then have "recorded ?c = recorded c" "banned ?c = banned c" "join_current ?c = join_current c"
    "producers_known ?c = producers_known c" "write_known ?c = write_known c" "plan_current ?c = plan_current c"
    by (simp_all add: fun_eq_iff recorded_def banned_def join_current_def producers_known_def write_known_def plan_current_def
        cong: option.case_cong pending.case_cong)
  then show ?thesis using soundD [OF assms(1)] assms(2) by (simp add: sound_def)
qed

lemma join_commit_sound:
  assumes sound: "sound c" and free: "c_pending c = None" and small: "c_bumps c < 2 ^ 64" and ja: "ja \<in> set (c_joins c)"
    and look: "je_banned je = looked_up (ja_banned ja)" "je_punitive je = looked_up (ja_punitive ja)"
    and grant: "join_authorize je (ja_request ja) pre (ja_snapshot ja) = Inr grant"
    and commit: "join_commit je (ja_request ja) (ja_snapshot ja) grant pf (c_room c) = Some (out, r, sent)"
  shows "sound (put_room r c)"
proof -
  have known: "policy_snapshot_matches (c_room c) (js_policy_revision (ja_snapshot ja)) \<Longrightarrow>
      knows (recorded c) (banned c) (sanction_key_for (jq_participant_id (ja_request ja)) (jq_authenticated (ja_request ja))
        (jq_client_ip (ja_request ja))) grant (c_room c)"
    using granted_knows [OF sound free small ja look grant] by (simp add: request_key_def)
  note eff = join_commit_promise [OF soundD(3) [OF sound] commit known] and rec = join_commit_records [OF commit]
  have "stored_sanction r = stored_sanction (c_room c)" if "\<not> rm_persisted (c_room c)"
    using that eff(1) rec(2) by (auto simp: fun_eq_iff recorded_def promise_def sanctions_follow_def)
  then have "close_to (c_room c) r" using eff(2) by (simp add: close_to_def same_standing_def)
  then show ?thesis
    using eff(1) rec(1) soundD(5) [OF sound] free by (intro sound_put [OF sound]) (simp_all add: plan_current_def)
qed

lemma new_join_current: "sound c \<Longrightarrow> join_current c
  \<lparr>ja_request = req, ja_snapshot = join_snapshot_of (c_room c), ja_taken = c_bumps c, ja_banned = None, ja_punitive = None\<rparr>"
  by (simp add: join_current_def join_snapshot_of_def sound_def)

lemma join_reads_current:
  assumes "join_current c ja"
  shows "join_current c (ja\<lparr>ja_banned := Some (is_banned (mr_states (c_rows c)) (c_time c) (user_uuid (ja_request ja))
           (jq_client_ip (ja_request ja)) (jq_authenticated (ja_request ja)))\<rparr>)"
    and "join_current c (ja\<lparr>ja_punitive := Some (load_punitive_state (mr_states (c_rows c)) (c_time c) (user_uuid (ja_request ja))
           (jq_client_ip (ja_request ja)) (jq_authenticated (ja_request ja)))\<rparr>)"
  using assms
  by (auto simp: join_current_def is_banned_def user_uuid_def request_key_def state_exists_key load_punitive_state_value)

section \<open>Producers\<close>

lemma commit_producer_sound:
  assumes sound: "sound c" and fresh: "k \<notin> set (c_used c)"
    and commit: "commit_producer i ch session mkind source k (c_room c) = (out, r, sent)"
  shows "sound ((put_room r c)\<lparr>c_used := k # c_used c\<rparr>)" (is "sound ?c")
proof -
  have "tget (rm_producer_to_participant (c_room c)) k = None"
    using soundD(7) [OF sound] fresh by (cases "tget (rm_producer_to_participant (c_room c)) k") (auto simp: producers_known_def)
  note eff = commit_producer_promise [OF soundD(3) [OF sound] this commit] and rec = commit_producer_records [OF commit]
  have close: "close_to (c_room c) r" using eff(2) rec(2) by (simp add: close_to_def same_standing_def)
  have s: "settled ?c = settled c" by (simp add: settled_def put_room_def)
  have same: "recorded ?c = recorded (put_room r c)" "banned ?c = banned (put_room r c)" "join_current ?c = join_current (put_room r c)"
    "write_known ?c = write_known (put_room r c)" "plan_current ?c = plan_current (put_room r c)"
    using s by (simp_all add: fun_eq_iff recorded_def banned_def join_current_def write_known_def plan_current_def
        cong: option.case_cong pending.case_cong)
  have "producers_known ?c"
    using soundD(7) [OF sound] rec(3) fresh unfolding producers_known_def by fastforce
  moreover have "plan_current (put_room r c)"
    using plan_current_keeps [OF soundD(5) [OF sound] rec(1)] eff(2) by (simp add: same_standing_def)
  ultimately show ?thesis
    using soundD [OF sound] close_to_revision [OF close] close_to_records [OF close] close_to_joins [OF close] eff(1)
    by (simp add: sound_def same) (simp add: write_known_def)
qed

lemma sound_closings:
  assumes "sound c" and "\<And>i ks k j. (i, ks) \<in> set cs \<Longrightarrow> k \<in> set ks \<Longrightarrow>
     k \<in> set (c_used c) \<and> (tget (rm_producer_to_participant (c_room c)) k = Some j \<longrightarrow> j = i)"
  shows "sound (c\<lparr>c_closings := cs\<rparr>)"
proof -
  let ?c = "c\<lparr>c_closings := cs\<rparr>"
  have s: "settled ?c = settled c" by (simp add: settled_def)
  then have "recorded ?c = recorded c" "banned ?c = banned c" "join_current ?c = join_current c"
    "write_known ?c = write_known c" "plan_current ?c = plan_current c"
    by (simp_all add: fun_eq_iff recorded_def banned_def join_current_def write_known_def plan_current_def
        cong: option.case_cong pending.case_cong)
  moreover have "producers_known ?c" using soundD(7) [OF assms(1)] assms(2) by (auto simp: producers_known_def)
  ultimately show ?thesis using soundD [OF assms(1)] by (simp add: sound_def)
qed

lemma owned_closing:
  assumes "sound c" and p: "tget (rm_participants (c_room c)) i = Some p" and k: "contains_key (pt_producers p) k"
    and "quiet (c_room c) r"
  shows "k \<in> set (c_used c) \<and> (tget (rm_producer_to_participant r) k = Some j \<longrightarrow> j = i)"
proof -
  have "tget (rm_producer_to_participant (c_room c)) k = Some i"
    using promise_wf(1) [OF soundD(3) [OF assms(1)]] p k by (auto simp: room_wf_defs)
  moreover have "owners_within (c_room c) r"
    using shrinks_owners [OF promise_wf(1) [OF soundD(3) [OF assms(1)]]] assms(4) by (simp add: quiet_def calm_def)
  ultimately show ?thesis using soundD(7) [OF assms(1)] by (fastforce simp: producers_known_def owners_within_def)
qed

lemma begin_close_sound:
  assumes sound: "sound c" and quiet: "quiet (c_room c) r"
    and "tget (rm_participants (c_room c)) i = Some p" and "\<And>k. k \<in> set ks \<Longrightarrow> contains_key (pt_producers p) k"
  shows "sound ((put_room r c)\<lparr>c_closings := (i, ks) # c_closings c\<rparr>)"
proof -
  have "k \<in> set (c_used c) \<and> (tget (rm_producer_to_participant r) k = Some j \<longrightarrow> j = i)" if "k \<in> set ks" for k j
    by (rule owned_closing [OF sound assms(3) assms(4) [OF that] quiet])
  moreover have "producers_known (put_room r c)" by (rule soundD(7) [OF sound_calm [OF sound quiet_calm [OF quiet]]])
  ultimately show ?thesis
    by (intro sound_closings [OF sound_calm [OF sound quiet_calm [OF quiet]]]) (auto simp: producers_known_def)
qed

lemma close_sound:
  assumes "sound c" and "(i, [k]) \<in> set (c_closings c)" and "commit_close i ch session k (c_room c) = (out, r, sent)"
  shows "sound (put_room r c)"
  using soundD(7) [OF assms(1)] assms(2)
  by (intro sound_calm [OF assms(1)] quiet_calm [OF commit_close_quiet [OF _ assms(3)]]) (auto simp: producers_known_def)

lemma close_cam_sound:
  assumes "sound c" and "(t, ks) \<in> set (c_closings c)" and "close_cam_commit t session ks (c_room c) = (out, r, sent)"
  shows "sound (put_room r c)"
  using soundD(7) [OF assms(1)] assms(2)
  by (intro sound_calm [OF assms(1)] quiet_calm [OF close_cam_commit_quiet [OF _ assms(3)]]) (auto simp: producers_known_def)

section \<open>Time and the start\<close>

lemma passes_sound:
  assumes sound: "sound c" and "c_time c \<le> now"
  shows "sound (c\<lparr>c_time := now\<rparr>)" (is "sound ?c")
proof -
  have s: "settled ?c = settled c" by (simp add: settled_def)
  have "lasting (c_rows c)" "write_known c" using soundD [OF sound] by simp_all
  then obtain rows where rows: "lasting rows" "settled c = mr_states rows"
    by (cases "(c_pending c, c_written c, c_rows c)" rule: settled_rows.cases) (auto simp: settled_def write_known_def)
  have V: "saved_punitive (settled c) now key kind = saved_punitive (settled c) (c_time c) key kind" for key kind
    unfolding rows(2) by (rule saved_punitive_lasting [OF rows(1)])
  have B: "saved_state (settled c) now key ''banned'' \<Longrightarrow> saved_state (settled c) (c_time c) key ''banned''" for key
    using saved_ban_expires [OF assms(2)] .
  have "recorded ?c = recorded c" using V by (simp add: recorded_def s fun_eq_iff)
  moreover have "banned ?c key \<Longrightarrow> banned c key" for key using B by (simp add: banned_def s)
  ultimately have "promise (recorded ?c) (banned ?c) (c_room c)" using promise_fewer_bans [OF soundD(3) [OF sound]] by simp
  moreover have "join_current ?c ja" if "join_current c ja" for ja using that V B by (auto simp: join_current_def s)
  moreover have "write_known ?c = write_known c" "plan_current ?c = plan_current c" "producers_known ?c = producers_known c"
    by (simp_all add: write_known_def plan_current_def producers_known_def cong: option.case_cong pending.case_cong)
  ultimately show ?thesis using soundD [OF sound] by (auto simp: sound_def list_all_iff)
qed

section \<open>A closing room stays closing\<close>

lemma closing_frame: "calm r r' \<Longrightarrow> rm_deleting r \<Longrightarrow> rm_deleting r'" "quiet r r' \<Longrightarrow> rm_deleting r \<Longrightarrow> rm_deleting r'"
  by (simp_all add: quiet_def calm_def policy_same_def)

lemma closing_finish:
  assumes "rm_deleting r"
  shows "finish_sanction env p1 r = (out1, r', sent) \<Longrightarrow> rm_deleting r'"
    and "finish_kick env p2 r = (out2, r', sent) \<Longrightarrow> rm_deleting r'"
    and "finish_ban env p2 r = (out3, r', sent) \<Longrightarrow> rm_deleting r'"
    and "finish_unban benv m t plan r = (out4, r', sent) \<Longrightarrow> rm_deleting r'"
    and "finish_role env m t new_role p4 r = (out5, r', sent) \<Longrightarrow> rm_deleting r'"
    and "finish_settings env hash p6 r = (out5, r', sent) \<Longrightarrow> rm_deleting r'"
    and "finish_topic env m topic persisted r = (out4, r', sent) \<Longrightarrow> rm_deleting r'"
proof -
  show "finish_sanction env p1 r = (out1, r', sent) \<Longrightarrow> rm_deleting r'"
    using closing_frame(1) [OF save_for_identity_calm assms]
    by (auto simp: finish_sanction_def publish_planned_sanction_def save_sanction_def attempt_def ensure_live_def assms
        split: sum.splits prod.splits if_splits)
  show "finish_kick env p2 r = (out2, r', sent) \<Longrightarrow> rm_deleting r'"
    using closing_frame(1) [OF record_kick_calm assms] publish_removal_standing(2)
    by (fastforce simp: finish_kick_def split: sum.splits prod.splits list.splits)
  show "finish_ban env p2 r = (out3, r', sent) \<Longrightarrow> rm_deleting r'"
    using closing_frame(1) [OF save_for_identity_calm assms]
    by (auto simp: finish_ban_def publish_planned_ban_def save_ban_def attempt_def ensure_live_def assms
        split: sum.splits prod.splits if_splits)
  show "finish_unban benv m t plan r = (out4, r', sent) \<Longrightarrow> rm_deleting r'"
    using closing_frame(1) [OF finish_unban_calm assms] by blast
  show "finish_role env m t new_role p4 r = (out5, r', sent) \<Longrightarrow> rm_deleting r'"
    using closing_frame(1) [OF save_role_calm assms]
    by (auto simp: finish_role_def publish_planned_role_def attempt_def ensure_live_def split: sum.splits prod.splits)
  show "finish_settings env hash p6 r = (out5, r', sent) \<Longrightarrow> rm_deleting r'"
    using closing_frame(1) [OF save_change_calm assms]
    by (auto simp: finish_settings_def publish_settings_def attempt_def ensure_live_def split: sum.splits prod.splits)
  show "finish_topic env m topic persisted r = (out4, r', sent) \<Longrightarrow> rm_deleting r'"
    using closing_frame(1) [OF save_change_calm assms]
    by (auto simp: finish_topic_def publish_topic_def attempt_def ensure_live_def split: sum.splits prod.splits)
qed

lemma closing_commit:
  assumes "rm_deleting r"
  shows "join_commit je req snap grant pf r = Some (out, r', sent) \<Longrightarrow> rm_deleting r'"
    and "commit_admission closed draining session token authorize pf t r = (out4, r', sent) \<Longrightarrow> rm_deleting r'"
    and "commit_producer i ch session mkind source k r = (out9, r', sent) \<Longrightarrow> rm_deleting r'"
    and "commit_close i ch session k r = (out4, r', sent) \<Longrightarrow> rm_deleting r'"
    and "close_cam_commit t session ks r = (out4, r', sent) \<Longrightarrow> rm_deleting r'"
  using assms
  by (auto simp: join_commit_def policy_snapshot_matches_def commit_admission_def commit_producer_def commit_close_def
      close_cam_commit_def forget_producer_def attempt_def ensure_live_def Let_def split: sum.splits if_splits option.splits)

lemmas plan_ops_quiet =
  plan_sanction_quiet plan_kick_quiet plan_ban_quiet plan_unban_quiet plan_role_quiet begin_settings_quiet plan_settings_quiet
  plan_topic_quiet plan_admission_quiet close_cam_plan_quiet reserve_media_mutation_quiet

lemma step_closing: "room_step c c' \<Longrightarrow> rm_deleting (c_room c) \<Longrightarrow> rm_deleting (c_room c')"
proof (induction rule: room_step.induct)
  case (takes c c')
  then show ?case by induction (simp_all add: finished_def, (blast dest: plan_ops_quiet closing_frame(2))+)
next
  case (releases c c')
  then show ?case by induction (simp_all add: finished_def, (blast dest: closing_finish closing_commit)+)
next
  case (joins c c')
  then show ?case by induction (simp_all, (blast dest: closing_commit)+)
next
  case (media c c')
  then show ?case by induction (simp_all, (blast dest: closing_commit plan_ops_quiet closing_frame(2))+)
qed (simp_all, blast dest: meanwhile_calm closing_frame(1))

lemma step_bumps: "room_step c c' \<Longrightarrow> c_bumps c \<le> c_bumps c'"
  by (auto simp: put_room_def finished_def elim!: room_step.cases take_control.cases release_control.cases join_step.cases
      producer_step.cases)

section \<open>Every step\<close>

lemma new_room_promise: "promise V B (new_with_observers i st persisted hash)"
proof -
  let ?r = "new_with_observers i st persisted hash"
  have "present ?r = (\<lambda>_. None)" "\<not> stored_sanction ?r key kind" for key kind
    by (simp_all add: new_with_observers_def present_def stored_sanction_def is_some_and_def fun_eq_iff)
  moreover have "media_ok ?r"
    by (simp add: media_ok_def producers_authorized_def within_broadcaster_limit_def broadcaster_count_def new_with_observers_def
        values_of_def)
  ultimately show ?thesis
    by (simp add: promise_def room_safe_def room_wf_new ban_safe_def sanctions_recorded_def sanctions_follow_def bans_follow_def)
qed

lemma new_cell_sound: "new_cell c \<Longrightarrow> sound c"
proof -
  assume new: "new_cell c"
  then have "promise (recorded c) (banned c) (c_room c)" using new_room_promise by (auto simp: new_cell_def)
  then show ?thesis
    using new by (auto simp: new_cell_def sound_def plan_current_def write_known_def producers_known_def new_with_observers_def)
qed

lemma sound_plan_or_none:
  assumes "sound c" and "c_pending c = None" and "quiet (c_room c) r"
    and "\<And>x. p = Some x \<Longrightarrow> plan_current ((put_room r c)\<lparr>c_pending := Some x\<rparr>)"
  shows "sound ((put_room r c)\<lparr>c_pending := p\<rparr>)"
proof (rule sound_plan [OF assms(1-3)])
  show "plan_current ((put_room r c)\<lparr>c_pending := p\<rparr>)"
    using assms(2,4) soundD(5) [OF assms(1)] by (cases p) (simp_all add: plan_current_def)
qed

lemma hashed_sound:
  assumes "sound c" and "c_pending c = Some (Hashing m ch patch reserved)" and "quiet (c_room c) r"
    and "p = None \<or> (\<exists>hash q. p = Some (Changing_settings hash q))" and "c_written c = None"
  shows "sound ((put_room r c)\<lparr>c_pending := p\<rparr>)"
proof -
  have "sound (put_room r c)" by (rule sound_calm [OF assms(1) quiet_calm [OF assms(3)]])
  moreover have "settled ((put_room r c)\<lparr>c_pending := p\<rparr>) = settled (put_room r c)"
    using assms(2,4) by (auto simp: settled_def)
  ultimately show ?thesis
    using assms(4,5) by (elim sound_frame) (auto simp: plan_current_def write_known_def)
qed

lemma take_control_sound:
  assumes "take_control c c'" and sound: "sound c"
  shows "sound c'"
  using assms(1)
proof cases
  case (plans_sanction env m ch t kind enabled reason res1 r sent)
  show ?thesis unfolding plans_sanction(1)
    by (rule sound_plan_or_none [OF sound plans_sanction(2) plan_sanction_quiet [OF plans_sanction(3)]])
      (use plans_sanction(3) plan_sanction_current [OF sound, of env] in \<open>auto split: sum.splits option.splits\<close>)
next
  case (plans_kick env m ch t reason report res2 r sent)
  show ?thesis unfolding plans_kick(1)
    by (rule sound_plan_or_none [OF sound plans_kick(2) plan_kick_quiet [OF plans_kick(3)]])
      (use plans_kick(3) plan_kick_current [of env] in \<open>auto split: sum.splits\<close>)
next
  case (plans_ban env m ch t reason duration report res2 r sent)
  show ?thesis unfolding plans_ban(1)
    by (rule sound_plan_or_none [OF sound plans_ban(2) plan_ban_quiet [OF plans_ban(3)]])
      (use plans_ban(3) plan_ban_current [OF sound, of env] in \<open>auto split: sum.splits\<close>)
next
  case (hash_fails m ch patch reserved hashed e)
  then show ?thesis using sound_finished_calm [OF sound] by (simp add: settled_def)
next
  case (plans_settings m ch patch reserved hashed hash now' res6 r sent)
  moreover have "c_written c = None" using soundD(5) [OF sound] plans_settings(2) by (simp add: plan_current_def)
  ultimately show ?thesis
    by (auto intro!: hashed_sound [OF sound plans_settings(2) plan_settings_quiet] split: sum.splits option.splits)
next
  case (begins_settings now' m ch patch res5 r sent)
  show ?thesis unfolding begins_settings(1)
    by (rule sound_plan_or_none [OF sound begins_settings(2) begin_settings_quiet [OF begins_settings(3)]])
      (use begins_settings(2) soundD(5) [OF sound] in \<open>auto simp: plan_current_def split: sum.splits\<close>)
qed (auto simp: plan_current_def intro!: sound_plan_or_none [OF sound] intro: plan_ops_quiet split: sum.splits option.splits)

lemma release_control_sound:
  assumes "release_control c c'" and sound: "sound c" and live: "\<not> rm_deleting (c_room c')"
  shows "sound c'"
  using assms(1)
proof cases
  case (finishes_kick p2 env out2 r sent)
  moreover have "\<not> rp_ban (rq_publication p2)" using soundD(5) [OF sound] finishes_kick(2) by (simp add: plan_current_def)
  ultimately show ?thesis using sound_finished_calm [OF sound _ finish_kick_calm] by (simp add: settled_def)
next
  case (finishes_unban m t plan benv out4 r sent)
  then show ?thesis using sound_finished_calm [OF sound _ finish_unban_calm] by (simp add: settled_def)
next
  case (admission_fails t a)
  then show ?thesis using sound_finished_calm [OF sound] by (simp add: settled_def)
qed (use finish_sanction_sound [OF sound] finish_ban_sound [OF sound] finish_role_sound [OF sound]
    finish_settings_sound [OF sound] finish_topic_sound [OF sound] admission_sound [OF sound] live in simp_all)

lemma join_step_sound:
  assumes "join_step c c'" and sound: "sound c" and "c_bumps c' < 2 ^ 64"
  shows "sound c'"
proof -
  have all: "list_all (join_current c) (c_joins c)" by (rule soundD(4) [OF sound])
  from assms(1) show ?thesis
  proof cases
    case (join_reads_policy req)
    then show ?thesis using sound_joins [OF sound] all new_join_current [OF sound] by simp
  next
    case (join_reads_bans before ja after req banned)
    then show ?thesis using all join_reads_current(1) [of c ja] unfolding join_reads_bans(1)
      by (intro sound_joins [OF sound]) simp
  next
    case (join_reads_sanctions before ja after req punitive)
    then show ?thesis using all join_reads_current(2) by (auto intro!: sound_joins [OF sound])
  next
    case (join_gives_up before ja after)
    then show ?thesis using all by (auto intro!: sound_joins [OF sound])
  next
    case (join_commits before ja after je prechecked grant pf out8 r sent)
    have "c_bumps c < 2 ^ 64" using assms(3) put_room_bumps [of "c_bumps c" c r] by (simp add: join_commits(1))
    then have put: "sound (put_room r c)"
      by (rule join_commit_sound [OF sound join_commits(2) _ _ join_commits(4-7)]) (simp add: join_commits(3))
    then show ?thesis
      unfolding join_commits(1) using soundD(4) [OF put] by (intro sound_joins [OF put]) (simp add: join_commits(3))
  qed
qed

lemma close_cam_plan_owned:
  assumes "close_cam_plan env m ch t r = (Inr (ks, session), r', sent)"
  shows "\<exists>p. tget (rm_participants r) t = Some p \<and> (\<forall>k \<in> set ks. contains_key (pt_producers p) k)"
proof -
  have "\<exists>p. tget (rm_participants r) t = Some p \<and> set ks \<subseteq> fst ` set (pt_producers p)"
    using assms unfolding close_cam_plan_def attempt_def Let_def
    by (auto split: sum.splits option.splits if_splits prod.splits) force
  moreover have "contains_key (pt_producers p) k" if "k \<in> fst ` set (pt_producers p)" for p :: participant and k
    using that by (auto simp: contains_key_def dest: weak_map_of_SomeI)
  ultimately show ?thesis by blast
qed

lemma producer_step_sound:
  assumes "producer_step c c'" and sound: "sound c"
  shows "sound c'"
  using assms(1)
proof cases
  case (begins_close now' i ch k t0 r sent)
  then obtain p where "tget (rm_participants (c_room c)) i = Some p" "contains_key (pt_producers p) k"
    by (auto simp: reserve_media_mutation_for_sender_def participant_for_sender_def is_some_and_def Let_def
        split: sum.splits option.splits if_splits prod.splits)
  then show ?thesis
    unfolding begins_close(1) by (intro begin_close_sound [OF sound reserve_media_mutation_quiet [OF begins_close(2)]]) simp_all
next
  case (begins_close_cam env m ch t res10 r sent)
  note quiet = close_cam_plan_quiet [OF begins_close_cam(3)]
  show ?thesis
  proof (cases res10)
    case (Inl e)
    then have "c' = put_room r c" by (simp add: begins_close_cam(1) put_room_def)
    then show ?thesis using sound_calm [OF sound quiet_calm [OF quiet]] by simp
  next
    case (Inr x)
    obtain ks session where x: "x = (ks, session)" by (cases x)
    from close_cam_plan_owned [OF begins_close_cam(3) [unfolded Inr x]] begin_close_sound [OF sound quiet]
    show ?thesis unfolding begins_close_cam(1) Inr x by auto
  qed
qed (use commit_producer_sound [OF sound] close_sound [OF sound] close_cam_sound [OF sound] in simp_all)

lemma step_sound:
  assumes "room_step c c'" and "sound c" and "c_bumps c' < 2 ^ 64" and "\<not> rm_deleting (c_room c')"
  shows "sound c'"
  using assms(1)
  by cases (use assms(2-4) passes_sound sound_calm [OF _ meanwhile_calm] write_sound take_control_sound release_control_sound
      join_step_sound producer_step_sound in blast)+

interpretation live_room: stepping new_cell room_step "\<lambda>c. c_bumps c < 2 ^ 64 \<longrightarrow> rm_deleting (c_room c) \<or> sound c"
proof
  fix c assume "new_cell c"
  then show "c_bumps c < 2 ^ 64 \<longrightarrow> rm_deleting (c_room c) \<or> sound c" using new_cell_sound by blast
next
  fix c c' assume "c_bumps c < 2 ^ 64 \<longrightarrow> rm_deleting (c_room c) \<or> sound c" and step: "room_step c c'"
  then show "c_bumps c' < 2 ^ 64 \<longrightarrow> rm_deleting (c_room c') \<or> sound c'"
    using step_bumps [OF step] step_closing [OF step] step_sound [OF step] by (meson le_less_trans)
qed

end
