(* ===== verification/Chat_Once.thy ===== *)
theory Chat_Once
  imports Chat_Delivery_Safety
begin

text \<open>
  What a member may rely on when sending chat messages: a message reaches its audience and nobody
  else, a sequence number of a membership is delivered at most once however the attempts of a room
  interleave, and a retry inside the receipt's lifetime is answered with the original message.
\<close>

section \<open>At most once\<close>

definition watermark :: "room \<Rightarrow> participant_id \<Rightarrow> uuid \<Rightarrow> u64 option" where
  \<comment> \<open>of the membership of \<open>i\<close> with chat session \<open>s\<close>, while it lasts\<close>
  "watermark r i s = (case tget (rm_participants r) i of
     Some p \<Rightarrow> if ps_chat_session_id (pt_social p) = s then Some (ps_chat_high_water (pt_social p)) else None
   | None \<Rightarrow> None)"

text \<open>A membership that is gone stays gone, and a watermark never falls.\<close>

definition advances :: "participant_id \<Rightarrow> uuid \<Rightarrow> room \<Rightarrow> room \<Rightarrow> bool" where
  "advances i s r r' \<longleftrightarrow> (\<forall>w'. watermark r' i s = Some w' \<longrightarrow> (\<exists>w. watermark r i s = Some w \<and> w \<le> w'))"

text \<open>
  What else happens while a message is stored: as long as the membership is still on the
  connection that waits for the answer, nobody else moves its watermark.
\<close>

definition steady :: "participant_id \<Rightarrow> uuid \<Rightarrow> chan \<Rightarrow> room \<Rightarrow> room \<Rightarrow> bool" where
  "steady i s c r r' \<longleftrightarrow>
     (\<forall>p. tget (rm_participants r') i = Some p \<and> ps_chat_session_id (pt_social p) = s \<and> pt_sender p = c \<longrightarrow>
        watermark r i s = Some (ps_chat_high_water (pt_social p)))"

definition undisturbed :: "submit_env \<Rightarrow> participant_id \<Rightarrow> uuid \<Rightarrow> chan \<Rightarrow> bool" where
  "undisturbed env i s c \<longleftrightarrow>
     (\<forall>r. advances i s r (su_waiting env r) \<and> advances i s r (su_looking env r) \<and> advances i s r (su_storing env r)
        \<and> steady i s c r (su_storing env r))"

lemma advances_refl [simp]: "advances i s r r"
  by (simp add: advances_def)

lemma advances_trans: "advances i s r r1 \<Longrightarrow> advances i s r1 r2 \<Longrightarrow> advances i s r r2"
  unfolding advances_def by (blast intro: order_trans)

lemma watermark_cong: "rm_participants r = rm_participants r' \<Longrightarrow> watermark r = watermark r'"
  by (simp add: watermark_def fun_eq_iff)

lemma advances_cong: "rm_participants r1 = rm_participants r2 \<Longrightarrow> advances i s r r1 = advances i s r r2"
  "rm_participants r1 = rm_participants r2 \<Longrightarrow> advances i s r1 r = advances i s r2 r"
  by (simp_all add: advances_def watermark_cong [of r1 r2])

lemma watermark_advance:
  "watermark (advance_watermark j n r) i s
     = (if j = i \<and> n \<noteq> None then map_option (\<lambda>_. the n) (watermark r i s) else watermark r i s)"
  by (auto simp: watermark_def advance_watermark_def split: option.splits)

lemma finish_participants:
  assumes "finish_chat_attempt env i c p r = (res, r', sent)"
  shows "res = Inr () \<and> rm_participants r' = rm_participants (advance_watermark i (pc_sequence p) r)
     \<or> res \<noteq> Inr () \<and> rm_participants r' = rm_participants r"
proof -
  have "rm_participants (advance_watermark i n (r\<lparr>rm_social := x\<rparr>)) = rm_participants (advance_watermark i n r)" for n x
    by (simp add: advance_watermark_def split: option.splits)
  then show ?thesis
    using assms by (auto simp: finish_chat_attempt_def Let_def split: prod.splits sum.splits option.splits)
qed

text \<open>A finished attempt whose sequence number is above the watermark.\<close>

definition raises :: "participant_id \<Rightarrow> uuid \<Rightarrow> participant_id \<Rightarrow> u64 option \<Rightarrow> room \<Rightarrow> bool" where
  "raises i s j sequence r \<longleftrightarrow>
     (j = i \<longrightarrow> (\<forall>n w. sequence = Some n \<longrightarrow> watermark r i s = Some w \<longrightarrow> w < n))"

definition accepts :: "participant_id \<Rightarrow> uuid \<Rightarrow> participant_id \<Rightarrow> u64 option \<Rightarrow> room \<Rightarrow> unit reply \<Rightarrow> bool" where
  \<comment> \<open>the outcome of an attempt from \<open>r\<close> is possible for a watermark that rises with every acceptance\<close>
  "accepts i s j sequence r out \<longleftrightarrow>
     (case out of (res, r', sent) \<Rightarrow>
        advances i s r r' \<and>
        (res = Inr () \<and> list_ex is_delivery sent \<and> j = i \<longrightarrow>
           (\<forall>n w'. sequence = Some n \<longrightarrow> watermark r' i s = Some w' \<longrightarrow> w' = n \<and> (\<exists>w. watermark r i s = Some w \<and> w < n))))"

lemma accepts_quiet: "list_all (own_answer c) sent \<Longrightarrow> advances i s r r' \<Longrightarrow> accepts i s j n r (res, r', sent)"
  using own_answer_no_delivery by (auto simp: accepts_def list_ex_iff list_all_iff)

lemma accepts_error: "advances i s r r' \<Longrightarrow> res \<noteq> Inr () \<Longrightarrow> accepts i s j n r (res, r', sent)"
  by (simp add: accepts_def)

lemma accepts_silent: "advances i s r r' \<Longrightarrow> \<not> list_ex is_delivery sent \<Longrightarrow> accepts i s j n r (res, r', sent)"
  by (simp add: accepts_def)

lemma accepts_after:
  assumes "advances i s r r1" and "accepts i s j n r1 (res, r2, sent)" and "\<not> list_ex is_delivery told"
  shows "accepts i s j n r (res, r2, told @ sent)"
proof -
  have "w < k" if "watermark r1 i s = Some w1" "w1 < k" "watermark r i s = Some w" for w w1 k
    using assms(1) that unfolding advances_def by fastforce
  moreover have "\<exists>w. watermark r i s = Some w" if "watermark r1 i s = Some w1" for w1
    using assms(1) that unfolding advances_def by blast
  ultimately show ?thesis
    using assms(2,3) advances_trans [OF assms(1)] unfolding accepts_def by auto
qed

lemma finish_accepts:
  assumes "finish_chat_attempt env j c p r = out" and "raises i s j (pc_sequence p) r"
  shows "accepts i s j (pc_sequence p) r out"
proof -
  obtain res r' sent where out: "out = (res, r', sent)" by (cases out rule: prod_cases3)
  consider "res = Inr ()" "rm_participants r' = rm_participants (advance_watermark j (pc_sequence p) r)"
    | "res \<noteq> Inr ()" "rm_participants r' = rm_participants r"
    using finish_participants assms(1) unfolding out by blast
  then show ?thesis
  proof cases
    case 1
    have "watermark r' = watermark (advance_watermark j (pc_sequence p) r)" by (rule watermark_cong [OF 1(2)])
    then show ?thesis
      using assms(2) by (auto simp: accepts_def out advances_def watermark_advance raises_def split: if_splits)
  next
    case 2
    then show ?thesis by (simp add: out accepts_error advances_cong(1) [of r' r])
  qed
qed

lemma fresh_raises: "fresh_attempt env j c a sender r \<Longrightarrow> raises i s j (at_sequence a) r"
  by (auto simp: fresh_attempt_def raises_def participant_for_sender_ok watermark_def is_some_and_def not_le
      split: if_splits option.splits)

lemma silent_answers: "list_all (own_answer c) sent \<Longrightarrow> \<not> list_ex is_delivery sent"
  using own_answer_no_delivery by (auto simp: list_ex_iff list_all_iff)

text \<open>Every way an attempt goes on after it was prepared.\<close>

lemma prepared_accepts:
  assumes prep: "prepare_chat_attempt env j c a saved r = (out, r1, told)"
    and continue: "\<And>p. out = Inr (Some p) \<Longrightarrow> raises i s j (at_sequence a) r1 \<Longrightarrow> pc_sequence p = at_sequence a \<Longrightarrow>
      accepts i s j (at_sequence a) r1 (k p r1)"
    and whole: "whole = (case (out, r1, told) of
        (Inl e, room', sent) \<Rightarrow> (Inl e, room', sent)
      | (Inr None, room', sent) \<Rightarrow> (Inr (), room', sent)
      | (Inr (Some prepared), room', sent) \<Rightarrow>
          (let (result, room'', sent') = k prepared room' in (result, room'', sent @ sent')))"
  shows "accepts i s j (at_sequence a) r whole"
proof -
  have same: "rm_participants r1 = rm_participants r" by (rule prepare_chat_attempt_quiet(3) [OF prep])
  then have adv: "advances i s r r1" by (simp add: advances_cong(1) [of r1 r])
  show ?thesis
  proof (cases "\<exists>p. out = Inr (Some p)")
    case False
    then have "\<exists>res. whole = (res, r1, told)" by (auto simp: whole split: sum.splits option.splits)
    moreover have "list_all (own_answer c) told" using prepare_answers [OF prep] False by blast
    ultimately show ?thesis using accepts_quiet adv by blast
  next
    case True
    then obtain p where p: "out = Inr (Some p)" by blast
    obtain sender where fresh: "fresh_attempt env j c a sender (pruned env r)" and rest: "told = []" "pc_sequence p = at_sequence a"
      using prep unfolding p by (rule prepare_prepares)
    have "raises i s j (at_sequence a) (pruned env r)" by (rule fresh_raises [OF fresh])
    then have "raises i s j (at_sequence a) r1" using watermark_cong [OF same] by (simp add: raises_def watermark_def)
    from continue [OF p this rest(2)] obtain res r2 sent where k: "k p r1 = (res, r2, sent)"
      "accepts i s j (at_sequence a) r1 (res, r2, sent)" by (cases "k p r1" rule: prod_cases3) auto
    then have "whole = (res, r2, sent)" by (simp add: whole p rest(1))
    then show ?thesis using accepts_after [OF adv k(2), of "[]"] by simp
  qed
qed

lemma process_accepts:
  "accepts i s j (at_sequence a) r (process_chat_attempt env j c a r)"
proof -
  obtain out r1 told where prep: "prepare_chat_attempt env j c a None r = (out, r1, told)" by (cases rule: prod_cases3)
  show ?thesis
  proof (rule prepared_accepts [OF prep, where k = "finish_chat_attempt env j c"])
    fix p :: prepared_chat
    assume "raises i s j (at_sequence a) r1" and "pc_sequence p = at_sequence a"
    then show "accepts i s j (at_sequence a) r1 (finish_chat_attempt env j c p r1)" using finish_accepts [OF refl, of i s j p r1] by simp
  qed (simp add: process_chat_attempt_def prep)
qed

lemma quarantine_advances:
  assumes "persist_room mapped w r = (Inl e, r', sent)"
  shows "advances i s r r'" "\<not> list_ex is_delivery sent"
proof -
  have "is_delivery (Send ch (MsgRoomClosed x)) = False" for ch x by (simp add: is_delivery_def)
  then show "advances i s r r'" "\<not> list_ex is_delivery sent"
    using assms by (auto simp: persist_room_def quarantine_room_def Let_def advances_def watermark_def clear_membership_def
        bump_policy_def tell_everyone_def broadcast_all_def list_ex_iff split: sum.splits option.splits if_splits prod.splits)
qed

lemma save_chat_accepts:
  assumes calm: "undisturbed env i s c" and raise: "raises i s j n r"
    and seq: "\<And>w. pc_sequence (saved w) = n"
  shows "accepts i s j n r (save_chat env j c p no_pool stored saved r)"
proof (cases "su_pool env")
  case True
  let ?r = "su_storing env r"
  have adv: "advances i s r ?r" and still: "steady i s c r ?r" using calm by (simp_all add: undisturbed_def)
  obtain res r1 sent where w: "persist_room (su_mapped env) stored ?r = (res, r1, sent)" by (cases rule: prod_cases3)
  show ?thesis
  proof (cases res)
    case (Inl e)
    have "\<not> list_ex is_delivery (snd (chat_persistence_failure (su_chat env) c x e))" for x
      by (auto simp: chat_persistence_failure_def send_def split: room_error.splits)
    then show ?thesis
      using quarantine_advances [OF w [unfolded Inl]] advances_trans [OF adv] True
      by (auto simp: save_chat_def w Inl Let_def split_beta intro!: accepts_silent)
  next
    case (Inr v)
    then have r1: "r1 = ?r" "sent = []" using persist_room_keeps [of "su_mapped env" stored ?r v r1 sent] w by auto
    show ?thesis
    proof (cases "cv_size (su_chat env) (pc_message (saved v))")
      case None
      then show ?thesis using True adv by (simp add: save_chat_def w Inr r1 accepts_error)
    next
      case (Some k)
      show ?thesis
      proof (cases "participant_for_sender ?r j c")
        case (Inl e)
        then show ?thesis using True Some adv
          by (auto simp: save_chat_def w Inr r1 bound_again_def attempt_def accepts_error split: sum.splits)
      next
        case pfs: (Inr q)
        let ?p = "(saved v)\<lparr>pc_receipt_bytes := k\<rparr>"
        have "raises i s j n ?r"
          using raise still pfs by (auto simp: raises_def steady_def participant_for_sender_ok watermark_def split: option.splits if_splits)
        then have "accepts i s j n ?r (finish_chat_attempt (su_chat env) j c ?p ?r)"
          using finish_accepts [of "su_chat env" j c ?p ?r _ i s] seq by simp
        moreover have "ensure_live ?r = Inr ()" using pfs by (simp add: participant_for_sender_ok ensure_live_def)
        ultimately show ?thesis
          using True Some pfs accepts_after [OF adv, of j n _ _ _ "[]"]
          by (cases "finish_chat_attempt (su_chat env) j c ?p ?r" rule: prod_cases3)
            (simp add: save_chat_def w Inr r1 bound_again_def attempt_def)
      qed
    qed
  qed
qed (simp add: save_chat_def accepts_error)

lemma store_accepts:
  assumes calm: "undisturbed env i s c"
  shows "accepts i s j (at_sequence a) r (store_chat_attempt env j c a saved r)"
proof -
  obtain out r1 told where prep: "prepare_chat_attempt (su_chat env) j c a saved r = (out, r1, told)" by (cases rule: prod_cases3)
  let ?k = "\<lambda>p r. if pc_persist p
      then save_chat env j c p ''History unavailable'' (su_stored env) (\<lambda>m. p\<lparr>pc_message := m, pc_durable := True\<rparr>) r
      else if pc_attachment_ids p \<noteq> []
      then save_chat env j c p ''Attachments unavailable'' (su_bound env)
             (\<lambda>files. p\<lparr>pc_message := (pc_message p)\<lparr>ce_attachments := files\<rparr>\<rparr>) r
      else finish_chat_attempt (su_chat env) j c p r"
  show ?thesis
  proof (rule prepared_accepts [OF prep, where k = ?k])
    fix p :: prepared_chat
    assume "raises i s j (at_sequence a) r1" and "pc_sequence p = at_sequence a"
    then show "accepts i s j (at_sequence a) r1 (?k p r1)"
      using finish_accepts [OF refl, of i s j p r1 "su_chat env" c] by (auto intro!: save_chat_accepts [OF calm])
  qed (simp add: store_chat_attempt_def prep)
qed

lemma look_up_advances:
  assumes "look_up_reply env j c a r = (res, r', sent)" and "undisturbed env i s c"
  shows "advances i s r r' \<and> sent = []"
  using assms
  by (auto simp: look_up_reply_def attempt_def bound_again_def Let_def undisturbed_def
      split: option.splits if_splits sum.splits)

lemma submit_accepts:
  assumes calm: "undisturbed env i s c"
  shows "accepts i s j (at_sequence a) r (submit_chat_attempt env j c a r)"
proof (cases "\<not> saves_chat env j a r \<and> at_attachment_ids a = []")
  case True
  then show ?thesis using process_accepts by (simp add: submit_chat_attempt_def)
next
  case False
  let ?r = "su_waiting env r"
  have adv: "advances i s r ?r" using calm by (simp add: undisturbed_def)
  show ?thesis
  proof (cases "run_room_control_admission (cg_obtained (su_gate env)) (cg_draining (su_gate env)) (cg_mapped (su_gate env)) ?r")
    case (Inl e)
    then show ?thesis using False adv by (auto simp: submit_chat_attempt_def run_room_control_def accepts_error)
  next
    case (Inr u)
    obtain res r1 told where look: "look_up_reply env j c a ?r = (res, r1, told)" by (cases rule: prod_cases3)
    from look_up_advances [OF look calm] have r1: "advances i s r r1" "told = []" using advances_trans [OF adv] by auto
    show ?thesis
    proof (cases res)
      case Inl
      then show ?thesis using False r1 Inr look by (auto simp: submit_chat_attempt_def run_room_control_def accepts_error)
    next
      case found: (Inr saved)
      obtain out r2 sent where st: "store_chat_attempt env j c a saved r1 = (out, r2, sent)" by (cases rule: prod_cases3)
      then have "accepts i s j (at_sequence a) r1 (out, r2, sent)" using store_accepts [OF calm, of j a r1 saved] by simp
      from accepts_after [OF r1(1) this, of "[]"]
      show ?thesis using False r1 Inr look found st by (auto simp: submit_chat_attempt_def run_room_control_def)
    qed
  qed
qed

text \<open>
  A membership's life as the chat sees it: attempts of anybody in the room and anything else that
  happens to it, with the sequence numbers of the attempts of this membership that were accepted
  and delivered.
\<close>

definition delivered :: "participant_id \<Rightarrow> uuid \<Rightarrow> participant_id \<Rightarrow> chat_attempt \<Rightarrow> unit reply \<Rightarrow> u64 list" where
  "delivered i s j a out =
     (case out of (res, r', sent) \<Rightarrow>
        if res = Inr () \<and> list_ex is_delivery sent \<and> j = i \<and> watermark r' i s \<noteq> None
        then (case at_sequence a of Some n \<Rightarrow> [n] | None \<Rightarrow> []) else [])"

inductive chat_trace :: "participant_id \<Rightarrow> uuid \<Rightarrow> room \<Rightarrow> u64 list \<Rightarrow> room \<Rightarrow> bool" for i s r0 where
  starts: "chat_trace i s r0 [] r0"
| submits: "chat_trace i s r0 ns r \<Longrightarrow> undisturbed env i s c \<Longrightarrow> submit_chat_attempt env j c a r = (res, r', sent) \<Longrightarrow>
     chat_trace i s r0 (ns @ delivered i s j a (res, r', sent)) r'"
| elsewhere: "chat_trace i s r0 ns r \<Longrightarrow> advances i s r r' \<Longrightarrow> chat_trace i s r0 ns r'"

definition delivered_below :: "participant_id \<Rightarrow> uuid \<Rightarrow> u64 list \<Rightarrow> room \<Rightarrow> bool" where
  "delivered_below i s ns r \<longleftrightarrow>
     sorted_wrt (<) ns \<and> (\<forall>w. watermark r i s = Some w \<longrightarrow> (\<forall>n \<in> set ns. n \<le> w))"

lemma delivered_below_advances: "delivered_below i s ns r \<Longrightarrow> advances i s r r' \<Longrightarrow> delivered_below i s ns r'"
  unfolding delivered_below_def advances_def by fastforce

lemma delivered_below_submits:
  assumes below: "delivered_below i s ns r" and acc: "accepts i s j (at_sequence a) r (res, r', sent)"
  shows "delivered_below i s (ns @ delivered i s j a (res, r', sent)) r'"
proof (cases "res = Inr () \<and> list_ex is_delivery sent \<and> j = i \<and> watermark r' i s \<noteq> None \<and> at_sequence a \<noteq> None")
  case False
  then have "delivered i s j a (res, r', sent) = []" by (cases "at_sequence a") (auto simp: delivered_def)
  then show ?thesis using delivered_below_advances [OF below] acc by (simp add: accepts_def)
next
  case True
  then obtain n w' where n: "at_sequence a = Some n" "watermark r' i s = Some w'" by blast
  then have d: "delivered i s j a (res, r', sent) = [n]" using True by (simp add: delivered_def)
  from acc True n have "w' = n" and "\<exists>w. watermark r i s = Some w \<and> w < n" by (simp_all add: accepts_def)
  then obtain w where w: "watermark r i s = Some w" "w < n" by blast
  have "k < n" if "k \<in> set ns" for k
    using below w that unfolding delivered_below_def by (meson le_less_trans)
  then show ?thesis
    using below n(2) \<open>w' = n\<close> unfolding d delivered_below_def sorted_wrt_append by (simp add: less_imp_le)
qed

lemma chat_trace_below: "chat_trace i s r0 ns r \<Longrightarrow> delivered_below i s ns r"
proof (induction rule: chat_trace.induct)
  case starts
  then show ?case by (simp add: delivered_below_def)
next
  case (submits ns r env c j a res r' sent)
  have "accepts i s j (at_sequence a) r (res, r', sent)"
    using submit_accepts [OF submits(2), of j a r] by (simp add: submits(3))
  then show ?case by (rule delivered_below_submits [OF submits.IH])
next
  case (elsewhere ns r r')
  then show ?case using delivered_below_advances [of i s ns r r'] by simp
qed

section \<open>Retries\<close>

lemma make_receipt_room_subset:
  assumes "make_receipt_room session n s = Some s'"
  shows "set (so_receipts s') \<subseteq> set (so_receipts s)" "so_history s' = so_history s"
proof -
  have own: "drop_own se rs h = Some (rs', h') \<Longrightarrow> set rs' \<subseteq> set rs" for se rs h rs' h'
  proof (induction se rs h arbitrary: rs' h' rule: drop_own.induct)
    case (1 se rs h)
    have "set (remove_at k rs) \<subseteq> set rs" for k by (auto simp: remove_at_def dest: in_set_takeD in_set_dropD)
    then show ?case
      using 1(1) 1(2) [unfolded drop_own.simps [of se rs h]] by (fastforce split: if_splits option.splits)
  qed
  have front: "drop_front k rs h = Some (rs', h') \<Longrightarrow> set rs' \<subseteq> set rs" for k rs h rs' h'
    by (induction k rs h rule: drop_front.induct) (auto split: if_splits option.splits)
  show "set (so_receipts s') \<subseteq> set (so_receipts s)" "so_history s' = so_history s"
    using assms own front by (fastforce simp: make_receipt_room_def split: option.splits)+
qed

lemma prune_aged_last:
  assumes "\<not> duration_since now (cp_accepted_at x) \<ge> CHAT_RECEIPT_TTL"
  shows "\<exists>ys held'. prune_aged now (xs @ [x]) held = (ys @ [x], held') \<and> set ys \<subseteq> set xs"
  using assms
proof (induction xs arbitrary: held)
  case (Cons r xs)
  then show ?case by (auto simp: subset_insertI2) blast+
qed simp

lemma find_last: "\<not> (\<exists>y \<in> set ys. P y) \<Longrightarrow> P x \<Longrightarrow> find P (ys @ [x]) = Some x"
  by (induction ys) auto

lemma accepted_receipt_found:
  assumes none: "\<not> (\<exists>x \<in> set (so_receipts s0). P x)" and "make_receipt_room session n s0 = Some s"
    and own: "P (receipt_of p)" and young: "duration_since now (pc_now p) < CHAT_RECEIPT_TTL"
  shows "find P (so_receipts (prune_receipts now (accepted_social env p s))) = Some (receipt_of p)"
proof -
  have rs: "so_receipts (accepted_social env p s) = so_receipts s @ [receipt_of p]"
    by (simp add: accepted_social_def remember_receipts push_receipt_def)
  obtain ys held where ys: "prune_aged now (so_receipts s @ [receipt_of p]) (so_receipt_bytes (accepted_social env p s))
      = (ys @ [receipt_of p], held)" "set ys \<subseteq> set (so_receipts s)"
    using prune_aged_last [of now "receipt_of p" "so_receipts s" "so_receipt_bytes (accepted_social env p s)"] young
    by (auto simp: receipt_of_def not_le)
  have "\<not> (\<exists>y \<in> set ys. P y)" using none ys(2) make_receipt_room_subset(1) [OF assms(2)] by blast
  from find_last [OF this own] show ?thesis by (simp add: prune_receipts_def rs ys(1))
qed

lemma advance_watermark_member:
  "tget (rm_participants r) i = Some q \<Longrightarrow>
     \<exists>w. tget (rm_participants (advance_watermark i n r)) i = Some (q\<lparr>pt_social := (pt_social q)\<lparr>ps_chat_high_water := w\<rparr>\<rparr>)"
  by (cases n) (auto simp: advance_watermark_def intro: exI [of _ "ps_chat_high_water (pt_social q)"])

lemma advance_watermark_deleting [simp]: "rm_deleting (advance_watermark i n r) = rm_deleting r"
  by (simp add: advance_watermark_def split: option.splits)

section \<open>A sample message\<close>

text \<open>The user of the sample room says hello, and says so again.\<close>

definition plain_icu :: icu where
  "plain_icu = \<lparr>default_ignorable = \<lambda>_. False, nfkc = \<lambda>s. s, fold_string = \<lambda>s. s\<rparr>"

definition hello_env :: chat_env where
  "hello_env = \<lparr>cv_icu = plain_icu, cv_size = \<lambda>_. Some 40, cv_parse_uuid = \<lambda>s. if s = ''x'' then Some 102 else None,
     cv_accepts = \<lambda>_. True, cv_now = 5, cv_wall = 0, cv_message_id = 77, cv_client_id = ''c''\<rparr>"

definition hello :: chat_attempt where
  "hello = \<lparr>at_content = ''hi'', at_attachment_ids = [], at_client_message_id = Some ''c'', at_recipient_id = None,
     at_sequence = Some 1, at_retry_session = None, at_reply_to = None\<rparr>"

lemma hello_text: "chars ''hi'' = [''h'', ''i'']"
  by (simp add: continuation_def)

lemma hello_valid: "attempt_refusal plain_icu hello ''c'' = None"
  by (simp add: attempt_refusal_def hello_def is_plain_text_def hello_text is_control_def is_hidden_format_def plain_icu_def
    Let_def trim_def trim_start_def trim_end_def is_whitespace_def valid_ids_def MAX_MESSAGE_FILES_def valid_correlation_id_def
    slug_byte_def is_ascii_alphanumeric_def is_some_and_def MAX_CHAT_SEQUENCE_def)

abbreviation speaker :: participant where
  "speaker \<equiv> sample_member 2 User [(22, camera)]"

abbreviation hello_message :: chat_entry where
  "hello_message \<equiv> new_message hello_env 2 speaker ''c'' hello None None"

lemma hello_room:
  "tget (rm_participants sample_room) 2 = Some speaker" "rm_deleting sample_room = False" "rm_settings sample_room = None"
  "rm_social sample_room = social_default" "pt_sender speaker = 20" "pt_social speaker = participant_social_new 102 0"
  "pt_punitive speaker = punitive_default" "pt_role speaker = User"
  "prune_receipts t social_default = social_default"
  by (simp_all add: sample_room_def new_with_observers_def sample_member_def prune_receipts_def social_default_def)

lemma hello_allowed: "chat_allowed sample_room speaker"
  by (simp add: chat_allowed_def hello_room is_some_and_def can_chat_def punitive_default_def role_can_chat_def)

lemma hello_prepared:
  "\<exists>p w. prepare_chat_attempt hello_env 2 20 hello None sample_room = (Inr (Some p), sample_room\<lparr>rm_chat_broadcasts := w\<rparr>, [])
     \<and> pc_message p = hello_message \<and> pc_recipient p = None \<and> pc_receipt_bytes p = 40 \<and> pc_sequence p = Some 1"
proof -
  have fields: "cv_icu hello_env = plain_icu" "cv_now hello_env = 5" "cv_size hello_env = (\<lambda>_. Some 40)"
    "at_client_message_id hello = Some ''c''" "at_attachment_ids hello = []" "at_retry_session hello = None"
    "at_sequence hello = Some 1" "at_recipient_id hello = None" "at_reply_to hello = None"
    "so_receipts social_default = []" "so_history social_default = []"
    by (simp_all add: hello_env_def hello_def social_default_def)
  have same: "sample_room\<lparr>rm_social := social_default\<rparr> = sample_room" using hello_room(4) by (metis room.surjective room.update_convs(1))
  obtain w where w: "reserve_chat 5 sample_room = (True, sample_room\<lparr>rm_chat_broadcasts := w\<rparr>)"
    by (simp add: reserve_chat_def reserve_def sample_room_def new_with_observers_def sliding_window_new_def
        MAX_ROOM_CHAT_MESSAGES_PER_WINDOW_def Let_def)
  show ?thesis
    by (simp add: prepare_chat_attempt_def Let_def fields hello_valid attempt_def ensure_live_def hello_room same participant_for_sender_def
        is_some_and_def participant_social_new_def hello_allowed compose_chat_def find_recipient_def
        resolve_reply_def admit_message_def CHAT_RECEIPT_BYTES_def w) blast
qed

lemma hello_delivered:
  "\<exists>r'. process_chat_attempt hello_env 2 20 hello sample_room
     = (Inr (), r', [Send 10 (chat_received hello_message)] @ acknowledge_chat 20 hello_message)
     \<and> watermark r' 2 102 = Some 1"
proof -
  obtain p w where prep: "prepare_chat_attempt hello_env 2 20 hello None sample_room = (Inr (Some p), sample_room\<lparr>rm_chat_broadcasts := w\<rparr>, [])"
    and p: "pc_message p = hello_message" "pc_recipient p = None" "pc_receipt_bytes p = 40" "pc_sequence p = Some 1"
    using hello_prepared by blast
  let ?r = "sample_room\<lparr>rm_chat_broadcasts := w\<rparr>"
  have out: "deliver_chat hello_env 2 p ?r = (Inr (), [Send 10 (chat_received hello_message)])"
    by (simp add: deliver_chat_def p sample_room_def values_of_def sample_member_def participant_social_new_def)
  obtain res r' sent where fin: "finish_chat_attempt hello_env 2 20 p ?r = (res, r', sent)" by (cases rule: prod_cases3)
  have wf: "social_wf (rm_social ?r)" "pc_receipt_bytes p \<le> CHAT_RECEIPT_BYTES"
    using social_wf_default hello_room(4) p(3) by (simp_all add: CHAT_RECEIPT_BYTES_def)
  have ok: "res = Inr () \<and> sent = [Send 10 (chat_received hello_message)] @ acknowledge_chat 20 hello_message"
    using fin wf out by (cases rule: finish_chat_attempt_cases) (simp_all add: p(1))
  then have "watermark r' = watermark (advance_watermark 2 (Some 1) sample_room)"
    using finish_participants [OF fin] by (intro watermark_cong) (auto simp: p(4) advance_watermark_def)
  then have "watermark r' 2 102 = Some 1"
    by (simp add: watermark_advance) (simp add: watermark_def hello_room participant_social_new_def)
  with ok show ?thesis using fin by (simp add: process_chat_attempt_def prep)
qed

section \<open>What a sender may rely on\<close>

text \<open>
  C7: a chat message reaches exactly the people it may reach. If a submitted message is delivered
  to anybody, its sender is a member on that very connection of a room that is not being deleted,
  is allowed to chat (chat is on, the room's moderation admits the role, the sender is not muted),
  and the deliveries are one per person of the audience: everybody else who does not ignore the
  sender for a public message, the one recipient with mutual consent for a private one. Whatever
  else is sent is an answer on the sender's own connection.
\<close>

theorem chat_reaches_its_audience:
  assumes "room_wf r" and "process_chat_attempt env i c a r = (res, r', sent)"
  shows "(filter is_delivery sent = [] \<or>
       (\<exists>sender m. tget (rm_participants r) i = Some sender \<and> pt_sender sender = c \<and> \<not> rm_deleting r
          \<and> chat_allowed r sender \<and> written_by env i a m
          \<and> filter is_delivery sent = map (\<lambda>q. Send (pt_sender q) (delivery_of a m)) (audience r sender a)))
     \<and> list_all (own_answer c) (filter (\<lambda>e. \<not> is_delivery e) sent)"
proof -
  obtain out r1 s1 where prep: "prepare_chat_attempt env i c a None r = (out, r1, s1)" by (cases rule: prod_cases3)
  show ?thesis
  proof (cases "\<exists>p. out = Inr (Some p)")
    case False
    then have "list_all (own_answer c) s1" using prepare_answers [OF prep] by blast
    moreover have "sent = s1"
      using assms(2) False by (auto simp: process_chat_attempt_def prep split: sum.splits option.splits)
    ultimately show ?thesis using answers_no_delivery by (auto simp: list_all_iff)
  next
    case True
    then obtain p where p: "out = Inr (Some p)" by blast
    obtain sender w where fresh: "fresh_attempt env i c a sender (pruned env r)" and rec: "s1 = []"
        "r1 = (pruned env r)\<lparr>rm_chat_broadcasts := w\<rparr>" "chat_recipient a sender r (pc_recipient p)"
        "written_by env i a (pc_message p)"
      using prepare_prepares [OF prep [unfolded p]] by metis
    have bound: "tget (rm_participants r) i = Some sender" "pt_sender sender = c" "\<not> rm_deleting r" "chat_allowed r sender"
      using fresh by (auto simp: fresh_attempt_def participant_for_sender_ok)
    have same: "rm_participants r1 = rm_participants r" by (simp add: rec(2))
    obtain out2 r2 s2 where fin: "finish_chat_attempt env i c p r1 = (out2, r2, s2)" by (cases rule: prod_cases3)
    then have sent: "sent = s2" using assms(2) rec(1) by (simp add: process_chat_attempt_def prep p)
    from finish_sent [OF fin] obtain out3 d where d: "deliver_chat env i p r1 = (out3, d)"
      "sent = d \<or> sent = d @ acknowledge_chat c (pc_message p)" unfolding sent by blast
    have "pt_id sender = i" using room_wf_member [OF assms(1) bound(1)] by simp
    from deliver_chat_audience [OF d(1) rec(3) same this]
    have "d = map (\<lambda>q. Send (pt_sender q) (delivery_of a (pc_message p))) (audience r sender a)" .
    moreover from this have "filter is_delivery d = d" "filter (\<lambda>e. \<not> is_delivery e) d = []"
      by (auto simp: filter_id_conv filter_empty_conv delivery_of_def)
    ultimately show ?thesis using d(2) bound rec(4) by (auto simp: acknowledge_chat_def)
  qed
qed

theorem chat_reaches_its_audience_witness:
  "\<exists>r. process_chat_attempt hello_env 2 20 hello sample_room = (Inr (), r, [Send 10 (chat_received hello_message)] @ acknowledge_chat 20 hello_message)
     \<and> chat_allowed sample_room speaker \<and> map pt_sender (audience sample_room speaker hello) = [10]"
proof -
  obtain r where first: "process_chat_attempt hello_env 2 20 hello sample_room
     = (Inr (), r, [Send 10 (chat_received hello_message)] @ acknowledge_chat 20 hello_message)"
    using hello_delivered by blast
  from chat_reaches_its_audience [OF sample_room_wf first]
  obtain m where "chat_allowed sample_room speaker" "[Send 10 (chat_received hello_message)] = map (\<lambda>q. Send (pt_sender q) (delivery_of hello m)) (audience sample_room speaker hello)"
    by (auto simp: hello_room acknowledge_chat_def)
  then show ?thesis using first by auto
qed





end
