(* ===== verification/Moderation_Retention.thy ===== *)
theory Moderation_Retention
  imports Durable_Moderation Room_Names "HOL-Library.Multiset"
begin

text \<open>
  How long moderation data stays (the retention half of \<^verbatim>\<open>src/room/moderation.rs\<close>): the configured
  days, one bounded batch over the tables of all rooms, and the sweep of up to sixteen batches. The
  clock of each statement, the rows other transactions hold locked, failures of the database, and
  its arithmetic on days (\<^verbatim>\<open>now() - make_interval(days => n)\<close>, the parameter \<open>back\<close>) are arguments.
\<close>

section \<open>Configuration\<close>

record retention_config =
  rt_address_days :: u32
  rt_history_days :: u32

definition DEFAULT_ADDRESS_RETENTION_DAYS :: u32 where "DEFAULT_ADDRESS_RETENTION_DAYS = 30"
definition DEFAULT_HISTORY_RETENTION_DAYS :: u32 where "DEFAULT_HISTORY_RETENTION_DAYS = 365"
definition MAX_RETENTION_DAYS :: u32 where "MAX_RETENTION_DAYS = 3650"
definition RETENTION_BATCH_SIZE :: nat where "RETENTION_BATCH_SIZE = 1000"
definition RETENTION_MAX_BATCHES :: nat where "RETENTION_MAX_BATCHES = 16"
definition INVITE_RECEIPT_RETENTION_DAYS :: nat where "INVITE_RECEIPT_RETENTION_DAYS = 7"

text \<open>\<^verbatim>\<open>str::parse::<u32>\<close>: decimal digits after an optional plus sign, within range.\<close>

definition digit_value :: "char \<Rightarrow> nat option" where
  "digit_value c = (let n = of_char c :: nat in if 48 \<le> n \<and> n \<le> 57 then Some (n - 48) else None)"

fun decimal :: "nat \<Rightarrow> string \<Rightarrow> nat option" where
  "decimal acc [] = Some acc"
| "decimal acc (c # cs) = (case digit_value c of None \<Rightarrow> None | Some d \<Rightarrow> decimal (10 * acc + d) cs)"

definition parse_u32 :: "string \<Rightarrow> u32 option" where
  "parse_u32 s =
     (let digits = (case s of c # cs \<Rightarrow> if c = CHR ''+'' then cs else s | [] \<Rightarrow> []) in
      if digits = [] then None
      else (case decimal 0 digits of
              Some n \<Rightarrow> if n < 2 ^ 32 then Some (of_nat n) else None
            | None \<Rightarrow> None))"

definition parse_days :: "string \<Rightarrow> string option \<Rightarrow> u32 \<Rightarrow> u32 outcome" where
  "parse_days name setting default_days =
     (case setting of
        None \<Rightarrow> Inr default_days
      | Some v \<Rightarrow>
          if trim v = [] then Inr default_days
          else (case parse_u32 (trim v) of
                  Some days \<Rightarrow>
                    if 1 \<le> days \<and> days \<le> MAX_RETENTION_DAYS then Inr days
                    else Inl (Bail (name @ '' must be a whole number of days from 1 to 3650''))
                | None \<Rightarrow> Inl (Bail (name @ '' must be a whole number of days from 1 to 3650''))))"

definition retention_config_parse :: "string option \<Rightarrow> string option \<Rightarrow> retention_config outcome" where
  "retention_config_parse address history =
     (case parse_days ''MODERATION_ADDRESS_RETENTION_DAYS'' address DEFAULT_ADDRESS_RETENTION_DAYS of
        Inl e \<Rightarrow> Inl e
      | Inr address_days \<Rightarrow>
          (case parse_days ''MODERATION_HISTORY_RETENTION_DAYS'' history DEFAULT_HISTORY_RETENTION_DAYS of
             Inl e \<Rightarrow> Inl e
           | Inr history_days \<Rightarrow>
               if address_days \<le> history_days
               then Inr \<lparr>rt_address_days = address_days, rt_history_days = history_days\<rparr>
               else Inl (Bail ''MODERATION_ADDRESS_RETENTION_DAYS must not exceed MODERATION_HISTORY_RETENTION_DAYS'')))"

section \<open>Tables\<close>

text \<open>The tables hold the rows of every room. Of an invitation only its key and expiry are read here.\<close>

record invite_row =
  iw_code_hash :: nat
  iw_expires :: date_time

record saved_tables =
  tb_states :: "(room_id \<times> state_row) list"
  tb_events :: "(room_id \<times> moderation_event) list"
  tb_reports :: "(room_id \<times> report_row) list"
  tb_invites :: "invite_row list"

definition states_of :: "saved_tables \<Rightarrow> room_id \<Rightarrow> state_row list" where
  "states_of db room = map snd (filter (\<lambda>(k, _). k = room) (tb_states db))"

record retention_report =
  rr_addresses_cleared :: nat
  rr_sanctions_removed :: nat
  rr_entries_removed :: nat
  rr_reports_removed :: nat
  rr_invites_removed :: nat

definition retention_total :: "retention_report \<Rightarrow> nat" where
  "retention_total r = rr_addresses_cleared r + rr_sanctions_removed r + rr_entries_removed r + rr_reports_removed r
     + rr_invites_removed r"

datatype retention_statement = ClearAddresses | RemoveSanctions | RemoveEntries | RemoveReports | RemoveInvites

text \<open>What one statement meets: its clock, the locked rows by key, and a failure.\<close>

record statement_env =
  se_now :: date_time
  se_locked :: "nat \<Rightarrow> bool"
  se_failure :: "sqlx_error option"

type_synonym batch_env = "retention_statement \<Rightarrow> statement_env"

text \<open>
  The subquery \<^verbatim>\<open>ORDER BY ... LIMIT n FOR UPDATE SKIP LOCKED\<close> collects the keys of the oldest due
  rows that nobody has locked; the statement then changes the rows with these keys.
\<close>

definition oldest :: "('r \<Rightarrow> nat) \<Rightarrow> ('r \<Rightarrow> bool) \<Rightarrow> ('r \<Rightarrow> date_time) \<Rightarrow> (nat \<Rightarrow> bool) \<Rightarrow> nat \<Rightarrow> 'r list \<Rightarrow> nat list" where
  "oldest key due age locked n rows =
     map key (take n (sort_key (\<lambda>r. (age r, key r)) (filter (\<lambda>r. due r \<and> \<not> locked (key r)) rows)))"

definition delete_keys :: "('r \<Rightarrow> nat) \<Rightarrow> nat list \<Rightarrow> 'r list \<Rightarrow> 'r list" where
  "delete_keys key keys rows = filter (\<lambda>r. key r \<notin> set keys) rows"

definition rows_with :: "('r \<Rightarrow> nat) \<Rightarrow> nat list \<Rightarrow> 'r list \<Rightarrow> nat" where
  "rows_with key keys rows = length (filter (\<lambda>r. key r \<in> set keys) rows)"

definition run_statement :: "statement_env \<Rightarrow> (saved_tables \<Rightarrow> nat \<times> saved_tables) \<Rightarrow> saved_tables \<Rightarrow> (room_error + nat) \<times> saved_tables" where
  "run_statement env change db =
     (case se_failure env of
        Some e \<Rightarrow> (Inl (Database e), db)
      | None \<Rightarrow> (let (n, db') = change db in (Inr n, db')))"

definition state_key :: "room_id \<times> state_row \<Rightarrow> nat" where "state_key = sw_id \<circ> snd"
definition event_key :: "room_id \<times> moderation_event \<Rightarrow> nat" where "event_key = me_event_id \<circ> snd"
definition report_key :: "room_id \<times> report_row \<Rightarrow> nat" where "report_key = rw_id \<circ> snd"

text \<open>Which rows are due before a cutoff.\<close>

definition address_due :: "date_time \<Rightarrow> room_id \<times> moderation_event \<Rightarrow> bool" where
  "address_due cutoff e \<longleftrightarrow> me_target_ip (snd e) \<noteq> None \<and> me_created_at (snd e) < cutoff"

definition sanction_due :: "date_time \<Rightarrow> room_id \<times> state_row \<Rightarrow> bool" where
  "sanction_due cutoff s \<longleftrightarrow> (case sw_expires (snd s) of Some e \<Rightarrow> e < cutoff | None \<Rightarrow> False)"

definition entry_due :: "date_time \<Rightarrow> room_id \<times> moderation_event \<Rightarrow> bool" where
  "entry_due cutoff e \<longleftrightarrow> me_created_at (snd e) < cutoff"

definition report_due :: "date_time \<Rightarrow> room_id \<times> report_row \<Rightarrow> bool" where
  "report_due cutoff r \<longleftrightarrow>
     rw_status (snd r) \<noteq> ReportOpen \<and> (case rw_resolved_at (snd r) of Some t \<Rightarrow> t < cutoff | None \<Rightarrow> False)"

definition invite_due :: "date_time \<Rightarrow> invite_row \<Rightarrow> bool" where
  "invite_due cutoff i \<longleftrightarrow> iw_expires i < cutoff"

section \<open>A batch\<close>

definition clear_addresses :: "date_time \<Rightarrow> (nat \<Rightarrow> bool) \<Rightarrow> nat \<Rightarrow> saved_tables \<Rightarrow> nat \<times> saved_tables" where
  "clear_addresses cutoff locked n db =
     (let keys = oldest event_key (address_due cutoff) (me_created_at \<circ> snd) locked n (tb_events db) in
      (rows_with event_key keys (tb_events db),
       db\<lparr>tb_events := map (\<lambda>e. if event_key e \<in> set keys then (fst e, (snd e)\<lparr>me_target_ip := None\<rparr>) else e) (tb_events db)\<rparr>))"

definition remove_sanctions :: "date_time \<Rightarrow> (nat \<Rightarrow> bool) \<Rightarrow> nat \<Rightarrow> saved_tables \<Rightarrow> nat \<times> saved_tables" where
  "remove_sanctions cutoff locked n db =
     (let keys = oldest state_key (sanction_due cutoff) (\<lambda>s. the (sw_expires (snd s))) locked n (tb_states db) in
      (rows_with state_key keys (tb_states db), db\<lparr>tb_states := delete_keys state_key keys (tb_states db)\<rparr>))"

definition remove_entries :: "date_time \<Rightarrow> (nat \<Rightarrow> bool) \<Rightarrow> nat \<Rightarrow> saved_tables \<Rightarrow> nat \<times> saved_tables" where
  "remove_entries cutoff locked n db =
     (let keys = oldest event_key (entry_due cutoff) (me_created_at \<circ> snd) locked n (tb_events db) in
      (rows_with event_key keys (tb_events db), db\<lparr>tb_events := delete_keys event_key keys (tb_events db)\<rparr>))"

definition remove_reports :: "date_time \<Rightarrow> (nat \<Rightarrow> bool) \<Rightarrow> nat \<Rightarrow> saved_tables \<Rightarrow> nat \<times> saved_tables" where
  "remove_reports cutoff locked n db =
     (let keys = oldest report_key (report_due cutoff) (\<lambda>r. the (rw_resolved_at (snd r))) locked n (tb_reports db) in
      (rows_with report_key keys (tb_reports db), db\<lparr>tb_reports := delete_keys report_key keys (tb_reports db)\<rparr>))"

definition remove_invites :: "date_time \<Rightarrow> (nat \<Rightarrow> bool) \<Rightarrow> nat \<Rightarrow> saved_tables \<Rightarrow> nat \<times> saved_tables" where
  "remove_invites cutoff locked n db =
     (let keys = oldest iw_code_hash (invite_due cutoff) iw_expires locked n (tb_invites db) in
      (rows_with iw_code_hash keys (tb_invites db), db\<lparr>tb_invites := delete_keys iw_code_hash keys (tb_invites db)\<rparr>))"

definition days_i32 :: "u32 \<Rightarrow> nat" where
  \<comment> \<open>\<^verbatim>\<open>i32::try_from(days).unwrap_or(i32::MAX)\<close>\<close>
  "days_i32 d = min (unat d) (2 ^ 31 - 1)"

definition cutoff_of :: "(date_time \<Rightarrow> nat \<Rightarrow> date_time) \<Rightarrow> retention_config \<Rightarrow> batch_env \<Rightarrow> retention_statement \<Rightarrow> date_time" where
  "cutoff_of back config env st =
     back (se_now (env st))
       (case st of
          ClearAddresses \<Rightarrow> days_i32 (rt_address_days config)
        | RemoveInvites \<Rightarrow> INVITE_RECEIPT_RETENTION_DAYS
        | _ \<Rightarrow> days_i32 (rt_history_days config))"

definition statement_change ::
  "(date_time \<Rightarrow> nat \<Rightarrow> date_time) \<Rightarrow> retention_config \<Rightarrow> batch_env \<Rightarrow> nat \<Rightarrow> retention_statement \<Rightarrow> saved_tables \<Rightarrow> nat \<times> saved_tables" where
  "statement_change back config env n st =
     (case st of ClearAddresses \<Rightarrow> clear_addresses | RemoveSanctions \<Rightarrow> remove_sanctions | RemoveEntries \<Rightarrow> remove_entries
        | RemoveReports \<Rightarrow> remove_reports | RemoveInvites \<Rightarrow> remove_invites)
       (cutoff_of back config env st) (se_locked (env st)) n"

text \<open>The five statements in order; each commits on its own, and a failure ends the batch.\<close>

fun run_statements ::
  "(date_time \<Rightarrow> nat \<Rightarrow> date_time) \<Rightarrow> retention_config \<Rightarrow> batch_env \<Rightarrow> nat \<Rightarrow> retention_statement list \<Rightarrow> saved_tables \<Rightarrow>
     (room_error + nat list) \<times> saved_tables" where
  "run_statements back config env n [] db = (Inr [], db)"
| "run_statements back config env n (st # sts) db =
     (case run_statement (env st) (statement_change back config env n st) db of
        (Inl e, db') \<Rightarrow> (Inl e, db')
      | (Inr changed, db') \<Rightarrow>
          (case run_statements back config env n sts db' of
             (Inl e, db'') \<Rightarrow> (Inl e, db'')
           | (Inr rest, db'') \<Rightarrow> (Inr (changed # rest), db'')))"

definition retention_statements :: "retention_statement list" where
  "retention_statements = [ClearAddresses, RemoveSanctions, RemoveEntries, RemoveReports, RemoveInvites]"

definition report_of_counts :: "nat list \<Rightarrow> retention_report" where
  "report_of_counts ns = \<lparr>rr_addresses_cleared = ns ! 0, rr_sanctions_removed = ns ! 1, rr_entries_removed = ns ! 2,
     rr_reports_removed = ns ! 3, rr_invites_removed = ns ! 4\<rparr>"

definition retire_old_batch ::
  "(date_time \<Rightarrow> nat \<Rightarrow> date_time) \<Rightarrow> retention_config \<Rightarrow> batch_env \<Rightarrow> nat \<Rightarrow> saved_tables \<Rightarrow>
     (room_error + retention_report) \<times> saved_tables" where
  "retire_old_batch back config env n db =
     (case run_statements back config env n retention_statements db of
        (Inl e, db') \<Rightarrow> (Inl e, db')
      | (Inr counts, db') \<Rightarrow> (Inr (report_of_counts counts), db'))"

section \<open>A sweep\<close>

definition add_reports :: "retention_report \<Rightarrow> retention_report \<Rightarrow> retention_report" where
  "add_reports a b = \<lparr>rr_addresses_cleared = rr_addresses_cleared a + rr_addresses_cleared b,
     rr_sanctions_removed = rr_sanctions_removed a + rr_sanctions_removed b,
     rr_entries_removed = rr_entries_removed a + rr_entries_removed b,
     rr_reports_removed = rr_reports_removed a + rr_reports_removed b,
     rr_invites_removed = rr_invites_removed a + rr_invites_removed b\<rparr>"

definition counts_of :: "retention_report \<Rightarrow> nat list" where
  "counts_of r = [rr_addresses_cleared r, rr_sanctions_removed r, rr_entries_removed r, rr_reports_removed r, rr_invites_removed r]"

fun sweep_loop ::
  "(date_time \<Rightarrow> nat \<Rightarrow> date_time) \<Rightarrow> retention_config \<Rightarrow> (nat \<Rightarrow> batch_env) \<Rightarrow> nat list \<Rightarrow> retention_report \<Rightarrow> saved_tables \<Rightarrow>
     (room_error + retention_report) \<times> saved_tables" where
  "sweep_loop back config envs [] so_far db = (Inr so_far, db)"
| "sweep_loop back config envs (i # is) so_far db =
     (case retire_old_batch back config (envs i) RETENTION_BATCH_SIZE db of
        (Inl e, db') \<Rightarrow> (Inl e, db')
      | (Inr batch, db') \<Rightarrow>
          let sum' = add_reports so_far batch in
          if list_all (\<lambda>rows. rows < RETENTION_BATCH_SIZE) (counts_of batch) then (Inr sum', db')
          else sweep_loop back config envs is sum' db')"

definition retention_sweep ::
  "(date_time \<Rightarrow> nat \<Rightarrow> date_time) \<Rightarrow> retention_config \<Rightarrow> (nat \<Rightarrow> batch_env) \<Rightarrow> saved_tables \<Rightarrow>
     (room_error + retention_report) \<times> saved_tables" where
  "retention_sweep back config envs db =
     sweep_loop back config envs [0..<RETENTION_MAX_BATCHES] (report_of_counts [0, 0, 0, 0, 0]) db"

section \<open>What a statement removes\<close>

lemma oldest_due:
  assumes "k \<in> set (oldest key due age locked n rows)"
  shows "\<exists>r \<in> set rows. key r = k \<and> due r"
  using assms by (auto simp: oldest_def dest!: in_set_takeD)

lemma oldest_all:
  assumes "rows_with key (oldest key due age (\<lambda>_. False) n rows) rows < n" and "r \<in> set rows" and "due r"
  shows "key r \<in> set (oldest key due age (\<lambda>_. False) n rows)"
proof -
  let ?L = "sort_key (\<lambda>r. (age r, key r)) (filter due rows)"
  let ?P = "\<lambda>r. key r \<in> set (oldest key due age (\<lambda>_. False) n rows)"
  have keys: "oldest key due age (\<lambda>_. False) n rows = map key (take n ?L)" by (simp add: oldest_def)
  have "mset (take n ?L @ drop n ?L) = mset (take n ?L) + mset (drop n ?L)" by (rule mset_append)
  then have "mset (take n ?L) \<subseteq># mset ?L" by simp
  also have "\<dots> \<subseteq># mset rows" by (simp add: mset_filter)
  finally have "filter_mset ?P (mset (take n ?L)) \<subseteq># filter_mset ?P (mset rows)" by (rule multiset_filter_mono)
  moreover have "filter_mset ?P (mset (take n ?L)) = mset (take n ?L)" by (auto simp: filter_mset_eq_conv keys)
  ultimately have "length (take n ?L) \<le> rows_with key (oldest key due age (\<lambda>_. False) n rows) rows"
    using size_mset_mono [of "mset (take n ?L)" "filter_mset ?P (mset rows)"] by (simp add: rows_with_def flip: mset_filter)
  then have "length ?L < n" using assms(1) by simp
  then show ?thesis using assms(2,3) by (simp add: keys)
qed

section \<open>What stays\<close>

text \<open>Rows only disappear, and none that a query at \<open>t\<close> would still find, nor an open report.\<close>

definition keeps_live :: "date_time \<Rightarrow> saved_tables \<Rightarrow> saved_tables \<Rightarrow> bool" where
  "keeps_live t db db' \<longleftrightarrow>
     (\<exists>P. tb_states db' = filter P (tb_states db) \<and> (\<forall>s \<in> set (tb_states db). unexpired_row t (snd s) \<longrightarrow> P s))
     \<and> (\<exists>Q. tb_reports db' = filter Q (tb_reports db) \<and> (\<forall>r \<in> set (tb_reports db). rw_status (snd r) = ReportOpen \<longrightarrow> Q r))"

definition keyed :: "saved_tables \<Rightarrow> bool" where
  "keyed db \<longleftrightarrow> distinct (map state_key (tb_states db)) \<and> distinct (map report_key (tb_reports db))"

lemma filter_True_exI: "\<exists>P. xs = filter P xs \<and> (\<forall>x \<in> set xs. Q x \<longrightarrow> P x)"
  by (rule exI [of _ "\<lambda>_. True"]) simp

lemma keeps_live_refl [simp]: "keeps_live t db db"
  by (simp add: keeps_live_def filter_True_exI)

lemma keeps_live_trans:
  assumes "keeps_live t a b" and "keeps_live t b c"
  shows "keeps_live t a c"
proof -
  have join: "\<exists>P. zs = filter P xs \<and> (\<forall>x \<in> set xs. R x \<longrightarrow> P x)"
    if "\<exists>P. ys = filter P xs \<and> (\<forall>x \<in> set xs. R x \<longrightarrow> P x)" "\<exists>P. zs = filter P ys \<and> (\<forall>x \<in> set ys. R x \<longrightarrow> P x)" for xs ys zs R
  proof -
    from that obtain P Q where "ys = filter P xs" "\<forall>x \<in> set xs. R x \<longrightarrow> P x" "zs = filter Q ys" "\<forall>x \<in> set ys. R x \<longrightarrow> Q x" by blast
    then show ?thesis by (intro exI [of _ "\<lambda>x. Q x \<and> P x"]) (auto simp: conj_commute)
  qed
  from assms show ?thesis
    unfolding keeps_live_def
    by (elim conjE) (rule conjI, (rule join, assumption, assumption)+)
qed

lemma keeps_live_keyed: "keeps_live t db db' \<Longrightarrow> keyed db \<Longrightarrow> keyed db'"
  by (auto simp: keeps_live_def keyed_def distinct_map intro: inj_on_subset)

lemma distinct_key_unique: "distinct (map key rows) \<Longrightarrow> r \<in> set rows \<Longrightarrow> q \<in> set rows \<Longrightarrow> key r = key q \<Longrightarrow> r = q"
  by (simp add: distinct_map inj_on_def)

lemma statement_keeps_live:
  assumes "keyed db" and "cutoff \<le> t"
  shows "keeps_live t db (snd (clear_addresses cutoff locked n db))" "keeps_live t db (snd (remove_sanctions cutoff locked n db))"
    "keeps_live t db (snd (remove_entries cutoff locked n db))" "keeps_live t db (snd (remove_reports cutoff locked n db))"
    "keeps_live t db (snd (remove_invites cutoff locked n db))"
proof -
  let ?S = "oldest state_key (sanction_due cutoff) (\<lambda>s. the (sw_expires (snd s))) locked n (tb_states db)"
  let ?R = "oldest report_key (report_due cutoff) (\<lambda>r. the (rw_resolved_at (snd r))) locked n (tb_reports db)"
  have "state_key s \<notin> set ?S" if "s \<in> set (tb_states db)" "unexpired_row t (snd s)" for s
  proof
    assume "state_key s \<in> set ?S"
    then obtain q where "q \<in> set (tb_states db)" "state_key q = state_key s" "sanction_due cutoff q" using oldest_due by fastforce
    then have "sanction_due cutoff s" using distinct_key_unique [of state_key "tb_states db" q s] assms(1) that(1) by (simp add: keyed_def)
    then show False using that(2) assms(2) by (auto simp: sanction_due_def unexpired_row_def split: option.splits)
  qed
  then show "keeps_live t db (snd (remove_sanctions cutoff locked n db))"
    by (auto simp: keeps_live_def remove_sanctions_def Let_def delete_keys_def filter_True_exI intro!: exI [of _ "\<lambda>s. state_key s \<notin> set ?S"])
  have "report_key s \<notin> set ?R" if "s \<in> set (tb_reports db)" "rw_status (snd s) = ReportOpen" for s
  proof
    assume "report_key s \<in> set ?R"
    then obtain q where "q \<in> set (tb_reports db)" "report_key q = report_key s" "report_due cutoff q" using oldest_due by fastforce
    then have "report_due cutoff s" using distinct_key_unique [of report_key "tb_reports db" q s] assms(1) that(1) by (simp add: keyed_def)
    then show False using that(2) by (simp add: report_due_def)
  qed
  then show "keeps_live t db (snd (remove_reports cutoff locked n db))"
    by (auto simp: keeps_live_def remove_reports_def Let_def delete_keys_def filter_True_exI intro!: exI [of _ "\<lambda>s. report_key s \<notin> set ?R"])
qed (simp_all add: keeps_live_def clear_addresses_def remove_entries_def remove_invites_def Let_def filter_True_exI)

lemma run_statement_keeps:
  assumes "keyed db" and "\<forall>t n. back t n \<le> t" and "se_now (env st) \<le> t"
    and "run_statement (env st) (statement_change back config env n st) db = (res, db')"
  shows "keeps_live t db db'"
proof -
  have "cutoff_of back config env st \<le> t" using assms(2,3) by (auto simp: cutoff_of_def intro: order_trans)
  from statement_keeps_live [OF assms(1) this]
  have "keeps_live t db (snd (statement_change back config env n st db))" by (cases st) (simp_all add: statement_change_def)
  then show ?thesis using assms(4) by (auto simp: run_statement_def split: option.splits prod.splits)
qed

lemma run_statements_keep:
  assumes "keyed db" and "\<forall>t n. back t n \<le> t" and "\<forall>st. se_now (env st) \<le> t"
    and "run_statements back config env n sts db = (res, db')"
  shows "keeps_live t db db'"
  using assms(1,4)
proof (induction sts arbitrary: db res db')
  case (Cons st sts)
  obtain out db1 where one: "run_statement (env st) (statement_change back config env n st) db = (out, db1)" by force
  have keep: "keeps_live t db db1" using run_statement_keeps [OF Cons.prems(1) assms(2) _ one] assms(3) by blast
  obtain out2 db2 where rest: "run_statements back config env n sts db1 = (out2, db2)" by force
  have "keeps_live t db1 db2" by (rule Cons.IH [OF keeps_live_keyed [OF keep Cons.prems(1)] rest])
  then show ?case using Cons.prems(2) keep keeps_live_trans by (auto simp: one rest split: sum.splits)
qed simp

lemma batch_keeps:
  assumes "keyed db" and "\<forall>t n. back t n \<le> t" and "\<forall>st. se_now (env st) \<le> t"
    and "retire_old_batch back config env n db = (res, db')"
  shows "keeps_live t db db'"
proof -
  obtain out db1 where "run_statements back config env n retention_statements db = (out, db1)" by force
  then show ?thesis
    using run_statements_keep [OF assms(1-3)] assms(4) by (auto simp: retire_old_batch_def split: sum.splits)
qed

lemma sweep_keeps:
  assumes "keyed db" and "\<forall>t n. back t n \<le> t" and "\<forall>i st. se_now (envs i st) \<le> t"
    and "sweep_loop back config envs is so_far db = (res, db')"
  shows "keeps_live t db db'"
  using assms(1,4)
proof (induction "is" arbitrary: so_far db)
  case (Cons i rest)
  obtain out db1 where one: "retire_old_batch back config (envs i) RETENTION_BATCH_SIZE db = (out, db1)" by force
  have keep: "keeps_live t db db1" using batch_keeps [OF Cons.prems(1) assms(2) _ one] assms(3) by blast
  show ?case
  proof (cases out)
    case (Inl e)
    then show ?thesis using Cons.prems(2) keep by (simp add: one)
  next
    case (Inr batch)
    show ?thesis
    proof (cases "list_all (\<lambda>rows. rows < RETENTION_BATCH_SIZE) (counts_of batch)")
      case True
      then show ?thesis using Cons.prems(2) keep Inr by (simp add: one Let_def)
    next
      case False
      then have "sweep_loop back config envs rest (add_reports so_far batch) db1 = (res, db')"
        using Cons.prems(2) Inr by (simp add: one Let_def)
      from Cons.IH [OF keeps_live_keyed [OF keep Cons.prems(1)] this] show ?thesis by (rule keeps_live_trans [OF keep])
    qed
  qed
qed simp

lemma state_exists_kept:
  assumes "keeps_live t db db'"
  shows "state_exists (states_of db' room) t st u ip a = state_exists (states_of db room) t st u ip a"
  using assms by (fastforce simp: keeps_live_def states_of_def state_exists_def list_ex_iff)

text \<open>
  C16: ageing out never changes who is kept out or restricted. However a retention sweep goes, with
  any rows locked by others and whether or not a statement fails on the way, every identity is
  found banned, muted or camera banned in every room exactly as before, from the sweep's last
  clock reading on; nothing appears, and no open report disappears whatever its age. The rows have
  distinct primary keys, and subtracting days does not go forward in time.
\<close>

theorem retention_keeps_live_rows:
  assumes "keyed db" and "\<forall>t n. back t n \<le> t" and "\<forall>i st. se_now (envs i st) \<le> later"
    and "retention_sweep back config envs db = (res, db')"
  shows "(\<forall>room u ip a. is_banned (states_of db' room) later u ip a = is_banned (states_of db room) later u ip a
        \<and> load_punitive_state (states_of db' room) later u ip a = load_punitive_state (states_of db room) later u ip a)
     \<and> set (tb_states db') \<subseteq> set (tb_states db)
     \<and> filter (\<lambda>r. rw_status (snd r) = ReportOpen) (tb_reports db') = filter (\<lambda>r. rw_status (snd r) = ReportOpen) (tb_reports db)"
proof -
  have keep: "keeps_live later db db'" by (rule sweep_keeps [OF assms(1-3) assms(4) [unfolded retention_sweep_def]])
  from keep obtain P Q where "tb_states db' = filter P (tb_states db)" "tb_reports db' = filter Q (tb_reports db)"
      and "\<forall>r \<in> set (tb_reports db). rw_status (snd r) = ReportOpen \<longrightarrow> Q r" by (auto simp: keeps_live_def)
  then show ?thesis
    by (auto simp: is_banned_def load_punitive_state_def state_exists_kept [OF keep] intro!: filter_cong)
qed


section \<open>What goes\<close>

lemma retire_old_batch_steps:
  assumes "retire_old_batch back config env n db = (Inr rep, db')"
  obtains db1 db2 db3 db4 where
    "statement_change back config env n ClearAddresses db = (rr_addresses_cleared rep, db1)"
    "statement_change back config env n RemoveSanctions db1 = (rr_sanctions_removed rep, db2)"
    "statement_change back config env n RemoveEntries db2 = (rr_entries_removed rep, db3)"
    "statement_change back config env n RemoveReports db3 = (rr_reports_removed rep, db4)"
    "statement_change back config env n RemoveInvites db4 = (rr_invites_removed rep, db')"
proof -
  have one: "run_statement (env st) change x = (Inr k, y) \<Longrightarrow> change x = (k, y)" for st change x y k
    by (auto simp: run_statement_def split: option.splits prod.splits)
  show ?thesis
    using assms that
    by (auto simp: retire_old_batch_def retention_statements_def report_of_counts_def dest!: one
        split: prod.splits sum.splits)
qed

definition nothing_due :: "(date_time \<Rightarrow> nat \<Rightarrow> date_time) \<Rightarrow> retention_config \<Rightarrow> batch_env \<Rightarrow> saved_tables \<Rightarrow> bool" where
  "nothing_due back config env db \<longleftrightarrow>
     \<not> list_ex (address_due (cutoff_of back config env ClearAddresses)) (tb_events db)
     \<and> \<not> list_ex (sanction_due (cutoff_of back config env RemoveSanctions)) (tb_states db)
     \<and> \<not> list_ex (entry_due (cutoff_of back config env RemoveEntries)) (tb_events db)
     \<and> \<not> list_ex (report_due (cutoff_of back config env RemoveReports)) (tb_reports db)
     \<and> \<not> list_ex (invite_due (cutoff_of back config env RemoveInvites)) (tb_invites db)"

lemma short_statements:
  "clear_addresses cutoff (\<lambda>_. False) n db = (k, db') \<Longrightarrow> k < n \<Longrightarrow> \<not> list_ex (address_due cutoff) (tb_events db')"
  "remove_sanctions cutoff (\<lambda>_. False) n db = (k, db') \<Longrightarrow> k < n \<Longrightarrow> \<not> list_ex (sanction_due cutoff) (tb_states db')"
  "remove_entries cutoff (\<lambda>_. False) n db = (k, db') \<Longrightarrow> k < n \<Longrightarrow> \<not> list_ex (entry_due cutoff) (tb_events db')"
  "remove_reports cutoff (\<lambda>_. False) n db = (k, db') \<Longrightarrow> k < n \<Longrightarrow> \<not> list_ex (report_due cutoff) (tb_reports db')"
  "remove_invites cutoff (\<lambda>_. False) n db = (k, db') \<Longrightarrow> k < n \<Longrightarrow> \<not> list_ex (invite_due cutoff) (tb_invites db')"
proof -
  assume clear: "clear_addresses cutoff (\<lambda>_. False) n db = (k, db')" and few: "k < n"
  let ?K = "oldest event_key (address_due cutoff) (me_created_at \<circ> snd) (\<lambda>_. False) n (tb_events db)"
  have db': "tb_events db' = map (\<lambda>e. if event_key e \<in> set ?K then (fst e, (snd e)\<lparr>me_target_ip := None\<rparr>) else e) (tb_events db)"
    and short: "rows_with event_key ?K (tb_events db) < n" using clear few by (auto simp: clear_addresses_def Let_def)
  have all: "e \<in> set (tb_events db) \<Longrightarrow> address_due cutoff e \<Longrightarrow> event_key e \<in> set ?K" for e by (rule oldest_all [OF short])
  have "\<not> address_due cutoff (fst e, (snd e)\<lparr>me_target_ip := None\<rparr>)" for e by (simp add: address_due_def)
  then show "\<not> list_ex (address_due cutoff) (tb_events db')" using all by (auto simp: db' list_ex_iff simp del: fst_conv split_paired_all)
qed (auto simp: remove_sanctions_def remove_entries_def remove_reports_def remove_invites_def Let_def
      delete_keys_def list_ex_iff dest: oldest_all)

lemma statement_frames:
  "clear_addresses cutoff l n db = (k, db') \<Longrightarrow> tb_states db' = tb_states db \<and> tb_reports db' = tb_reports db \<and> tb_invites db' = tb_invites db"
  "remove_sanctions cutoff l n db = (k, db') \<Longrightarrow> tb_events db' = tb_events db \<and> tb_reports db' = tb_reports db \<and> tb_invites db' = tb_invites db"
  "remove_entries cutoff l n db = (k, db') \<Longrightarrow> set (tb_events db') \<subseteq> set (tb_events db) \<and> tb_states db' = tb_states db
     \<and> tb_reports db' = tb_reports db \<and> tb_invites db' = tb_invites db"
  "remove_reports cutoff l n db = (k, db') \<Longrightarrow> tb_states db' = tb_states db \<and> tb_events db' = tb_events db \<and> tb_invites db' = tb_invites db"
  "remove_invites cutoff l n db = (k, db') \<Longrightarrow> tb_states db' = tb_states db \<and> tb_events db' = tb_events db \<and> tb_reports db' = tb_reports db"
  by (auto simp: clear_addresses_def remove_sanctions_def remove_entries_def remove_reports_def remove_invites_def Let_def delete_keys_def)

text \<open>
  C35: the sweep does not stop early. A batch in which every statement changes fewer rows than it
  may, which is when \<^const>\<open>retention_sweep\<close> stops, leaves no address, no sanction, no history entry,
  no closed report and no invitation beyond its retention, if no row was locked by others.
\<close>

theorem short_batch_leaves_nothing_due:
  assumes "retire_old_batch back config env n db = (Inr rep, db')" and "\<forall>st. se_locked (env st) = (\<lambda>_. False)"
    and "list_all (\<lambda>rows. rows < n) (counts_of rep)"
  shows "nothing_due back config env db'"
proof -
  obtain db1 db2 db3 db4 where steps:
    "clear_addresses (cutoff_of back config env ClearAddresses) (\<lambda>_. False) n db = (rr_addresses_cleared rep, db1)"
    "remove_sanctions (cutoff_of back config env RemoveSanctions) (\<lambda>_. False) n db1 = (rr_sanctions_removed rep, db2)"
    "remove_entries (cutoff_of back config env RemoveEntries) (\<lambda>_. False) n db2 = (rr_entries_removed rep, db3)"
    "remove_reports (cutoff_of back config env RemoveReports) (\<lambda>_. False) n db3 = (rr_reports_removed rep, db4)"
    "remove_invites (cutoff_of back config env RemoveInvites) (\<lambda>_. False) n db4 = (rr_invites_removed rep, db')"
    by (rule retire_old_batch_steps [OF assms(1), unfolded statement_change_def retention_statement.case]) (simp add: assms(2))
  have few: "rr_addresses_cleared rep < n" "rr_sanctions_removed rep < n" "rr_entries_removed rep < n" "rr_reports_removed rep < n"
    "rr_invites_removed rep < n" using assms(3) by (simp_all add: counts_of_def)
  note clear = short_statements(1) [OF steps(1) few(1)] short_statements(2) [OF steps(2) few(2)] short_statements(3) [OF steps(3) few(3)]
    short_statements(4) [OF steps(4) few(4)] short_statements(5) [OF steps(5) few(5)]
  note same = statement_frames(2) [OF steps(2)] statement_frames(3) [OF steps(3)] statement_frames(4) [OF steps(4)]
    statement_frames(5) [OF steps(5)]
  have "\<not> list_ex (address_due (cutoff_of back config env ClearAddresses)) (tb_events db3)"
    using clear(1) same(1,2) by (auto simp: list_ex_iff)
  then show ?thesis using clear(2-5) same by (simp add: nothing_due_def)
qed

section \<open>Days\<close>

declare nat_to_string.simps [simp del]

lemma decimal_digits:
  "(\<forall>c \<in> set s. 48 \<le> (of_char c :: nat) \<and> (of_char c :: nat) < 58) \<Longrightarrow>
     decimal acc s = Some (foldl (\<lambda>a c. a * 10 + (of_char c - 48)) acc s)"
  by (induction s arbitrary: acc) (auto simp: digit_value_def Let_def mult.commute)

lemma nat_to_string_nonempty: "nat_to_string n \<noteq> []"
  by (subst nat_to_string.simps) simp

lemma trim_digits: "trim (nat_to_string n) = nat_to_string n"
proof -
  have "ascii (nat_to_string n)" using nat_to_string_digits by (fastforce simp: ascii_def)
  then have cs: "chars (nat_to_string n) = map (\<lambda>c. [c]) (nat_to_string n)" by (rule ascii_chars)
  have "\<not> is_whitespace [c]" if "c \<in> set (nat_to_string n)" for c
    using nat_to_string_digits [OF that] by (simp add: is_whitespace_def Let_def)
  then have "\<not> is_whitespace x" if "x \<in> set (chars (nat_to_string n))" for x using that by (auto simp: cs)
  then have "dropWhile is_whitespace xs = xs" if "set xs = set (chars (nat_to_string n))" for xs
    using that by (cases xs) auto
  then have "dropWhile is_whitespace (chars (nat_to_string n)) = chars (nat_to_string n)"
    "dropWhile is_whitespace (rev (chars (nat_to_string n))) = rev (chars (nat_to_string n))" by simp_all
  then show ?thesis by (simp add: trim_def trim_start_def trim_end_def cs)
qed

lemma parse_u32_nat_to_string: "n < 2 ^ 32 \<Longrightarrow> parse_u32 (nat_to_string n) = Some (of_nat n)"
proof -
  assume n: "n < 2 ^ 32"
  have d: "decimal 0 (nat_to_string n) = Some n"
    using decimal_digits [of "nat_to_string n" 0] nat_to_string_digits string_to_nat_inverse [of n] by fastforce
  obtain c cs where c: "nat_to_string n = c # cs" using nat_to_string_nonempty by (cases "nat_to_string n") auto
  then have "c \<noteq> CHR ''+''" using nat_to_string_digits [of c n] by auto
  then show "parse_u32 (nat_to_string n) = Some (of_nat n)" using d n by (simp add: parse_u32_def c)
qed

lemma parse_days_bounds:
  "parse_days name setting d = Inr days \<Longrightarrow> 1 \<le> d \<Longrightarrow> d \<le> MAX_RETENTION_DAYS \<Longrightarrow> 1 \<le> days \<and> days \<le> MAX_RETENTION_DAYS"
  by (auto simp: parse_days_def split: option.splits if_splits)

lemma parse_days_round_trip:
  assumes "1 \<le> n" and "n \<le> 3650"
  shows "parse_days name (Some (nat_to_string n)) d = Inr (of_nat n)"
proof -
  have n: "n < 2 ^ 32" using assms(2) by simp
  then have "unat (of_nat n :: u32) = n" by (simp add: unat_of_nat take_bit_nat_eq_self)
  then have "1 \<le> (of_nat n :: u32) \<and> (of_nat n :: u32) \<le> MAX_RETENTION_DAYS"
    using assms by (simp add: word_le_nat_alt MAX_RETENTION_DAYS_def)
  then show ?thesis using parse_u32_nat_to_string [OF n] by (simp add: parse_days_def trim_digits nat_to_string_nonempty)
qed

text \<open>
  C36: the configured retention is always sensible, and every sensible one can be configured. Whatever
  the two environment variables hold, an accepted configuration keeps addresses at least a day, no
  longer than entries, and entries at most 3650 days; and any two numbers of days in that order,
  written in decimal, are accepted as they are.
\<close>

theorem retention_config_exact:
  "(retention_config_parse address history = Inr config \<longrightarrow>
      1 \<le> rt_address_days config \<and> rt_address_days config \<le> rt_history_days config \<and> rt_history_days config \<le> 3650)
   \<and> (1 \<le> a \<and> a \<le> h \<and> h \<le> 3650 \<longrightarrow>
      retention_config_parse (Some (nat_to_string a)) (Some (nat_to_string h))
        = Inr \<lparr>rt_address_days = of_nat a, rt_history_days = of_nat h\<rparr>)"
proof (intro conjI impI)
  assume "retention_config_parse address history = Inr config"
  then show "1 \<le> rt_address_days config" "rt_address_days config \<le> rt_history_days config" "rt_history_days config \<le> 3650"
    using parse_days_bounds [of "''MODERATION_ADDRESS_RETENTION_DAYS''" address DEFAULT_ADDRESS_RETENTION_DAYS]
      parse_days_bounds [of "''MODERATION_HISTORY_RETENTION_DAYS''" history DEFAULT_HISTORY_RETENTION_DAYS]
    by (auto simp: retention_config_parse_def DEFAULT_ADDRESS_RETENTION_DAYS_def DEFAULT_HISTORY_RETENTION_DAYS_def
        MAX_RETENTION_DAYS_def split: sum.splits if_splits)
next
  assume ok: "1 \<le> a \<and> a \<le> h \<and> h \<le> 3650"
  then have "unat (of_nat a :: u32) = a" "unat (of_nat h :: u32) = h" by (simp_all add: unat_of_nat take_bit_nat_eq_self)
  then have "(of_nat a :: u32) \<le> of_nat h" using ok by (simp add: word_le_nat_alt)
  then show "retention_config_parse (Some (nat_to_string a)) (Some (nat_to_string h))
      = Inr \<lparr>rt_address_days = of_nat a, rt_history_days = of_nat h\<rparr>"
    using ok by (simp add: retention_config_parse_def parse_days_round_trip)
qed

theorem retention_config_exact_witness:
  "retention_config_parse (Some (nat_to_string 30)) (Some (nat_to_string 365))
     = Inr \<lparr>rt_address_days = 30, rt_history_days = 365\<rparr>"
  using retention_config_exact [of None None undefined 30 365] by simp

text \<open>A database with a ban that ran out long ago, one that still holds, and an old open report.\<close>

definition sample_state :: "uuid \<Rightarrow> date_time option \<Rightarrow> state_row" where
  "sample_state i expires = \<lparr>sw_id = i, sw_user = Some i, sw_state = ''banned'', sw_ip = None, sw_reason = None,
     sw_expires = expires, sw_applied_by = 9\<rparr>"

definition sample_tables :: saved_tables where
  "sample_tables = \<lparr>tb_states = [(''r'', sample_state 1 (Some 5)), (''r'', sample_state 2 None)], tb_events = [],
     tb_reports = [(''r'', \<lparr>rw_id = 3, rw_target = 1, rw_target_name = ''ann'', rw_status = ReportOpen, rw_resolved_at = None,
       rw_resolved_by = None\<rparr>)], tb_invites = []\<rparr>"

definition sample_batch :: batch_env where
  "sample_batch st = \<lparr>se_now = 1000, se_locked = \<lambda>_. False, se_failure = None\<rparr>"

definition days_back :: "date_time \<Rightarrow> nat \<Rightarrow> date_time" where "days_back t n = t - int n"

abbreviation sample_days :: retention_config where
  "sample_days \<equiv> \<lparr>rt_address_days = 30, rt_history_days = 365\<rparr>"

lemma sample_batch_result:
  "retire_old_batch days_back sample_days sample_batch 1000 sample_tables
     = (Inr (report_of_counts [0, 1, 0, 0, 0]), sample_tables\<lparr>tb_states := [(''r'', sample_state 2 None)]\<rparr>)"
  by (simp add: retire_old_batch_def retention_statements_def run_statement_def statement_change_def sample_batch_def
      cutoff_of_def days_back_def days_i32_def clear_addresses_def remove_sanctions_def remove_entries_def remove_reports_def
      remove_invites_def oldest_def rows_with_def delete_keys_def sample_tables_def sample_state_def sanction_due_def report_due_def
      state_key_def report_key_def Let_def)

theorem retention_keeps_live_rows_witness:
  "\<exists>rep db. retention_sweep days_back sample_days (\<lambda>_. sample_batch) sample_tables = (Inr rep, db)
     \<and> \<not> is_banned (states_of db ''r'') 1000 (Some 1) None True \<and> is_banned (states_of db ''r'') 1000 (Some 2) None True"
proof -
  obtain res db where run: "retention_sweep days_back sample_days (\<lambda>_. sample_batch) sample_tables = (res, db)" by force
  have "keyed sample_tables" by (simp add: keyed_def sample_tables_def sample_state_def state_key_def report_key_def)
  from retention_keeps_live_rows [OF this _ _ run, of 1000]
  have "is_banned (states_of db ''r'') 1000 u None True = is_banned (states_of sample_tables ''r'') 1000 u None True" for u
    by (simp add: days_back_def sample_batch_def)
  moreover have "\<exists>rep. res = Inr rep"
    using run sample_batch_result
    by (auto simp: retention_sweep_def RETENTION_MAX_BATCHES_def RETENTION_BATCH_SIZE_def upt_conv_Cons counts_of_def report_of_counts_def Let_def)
  ultimately show ?thesis
    using run by (auto simp: is_banned_def state_exists_def states_of_def sample_tables_def sample_state_def unexpired_row_def row_binds_def)
qed

theorem short_batch_leaves_nothing_due_witness:
  "nothing_due days_back sample_days sample_batch (sample_tables\<lparr>tb_states := [(''r'', sample_state 2 None)]\<rparr>)"
  by (rule short_batch_leaves_nothing_due [OF sample_batch_result])
    (simp_all add: sample_batch_def counts_of_def report_of_counts_def)

end
