(* ===== verification/Spec2Isabelle.thy ===== *)
theory Spec2Isabelle
  imports Room_System_Safety Chat_Once Moderation_Retention
begin

text \<open>
  A verification development of the simplestChat server: group video chat with moderated rooms.
  File names below are those of the Rust crate (\<^verbatim>\<open>src/\<close> of the repository).

  \<^bold>\<open>The program.\<close> A connection (\<^verbatim>\<open>signaling/\<close>) dispatches a client's messages to the
  room manager (\<^verbatim>\<open>room/\<close>). A room is runtime state behind a state lock: members, a lobby,
  producers of media, sanctions and bans kept under identities, settings, and a bounded
  conversation. Persisted rooms also have rows in a database. An operation that writes rows holds
  the room's control lock for its whole length, but releases the state lock while it waits for the
  database, so members leave, joins commit and producers close in between. A write whose outcome
  is uncertain quarantines the room. Media flows through worker processes that the server tells
  what to open and close.

  \<^bold>\<open>Theories and code.\<close>
  \<^item> \<^verbatim>\<open>Chat_Prelude\<close>: clocks, 64-bit saturating arithmetic, hash tables as association lists, the
    locale \<^verbatim>\<open>stepping\<close> for invariants of transition systems.
  \<^item> \<^verbatim>\<open>Net_Cohort\<close> (\<^verbatim>\<open>net.rs\<close>), \<^verbatim>\<open>Room_Roles\<close> (\<^verbatim>\<open>room/roles.rs\<close>), \<^verbatim>\<open>Chat_Text\<close>
    (\<^verbatim>\<open>ids.rs\<close>, \<^verbatim>\<open>labels.rs\<close>), \<^verbatim>\<open>Room_Refusals\<close> (\<^verbatim>\<open>room/refusal.rs\<close>), \<^verbatim>\<open>Room_Settings\<close>
    (\<^verbatim>\<open>room/settings.rs\<close>), \<^verbatim>\<open>Moderation_State\<close> (the vocabulary of \<^verbatim>\<open>room/moderation.rs\<close>): values
    and pure functions.
  \<^item> \<^verbatim>\<open>Admission_Windows\<close> (\<^verbatim>\<open>room/window.rs\<close>, \<^verbatim>\<open>signaling/connection_token_bucket.rs\<close>) and
    \<^verbatim>\<open>Join_Rates\<close> (the limiters of \<^verbatim>\<open>room/mod.rs\<close>): budgets, refined against accounts that
    forget nothing.
  \<^item> \<^verbatim>\<open>Chat_Messages\<close> and \<^verbatim>\<open>Room_Social\<close> (\<^verbatim>\<open>room/social.rs\<close>): messages as values and what a room
    retains of its conversation. \<^verbatim>\<open>Wire_Messages\<close> (\<^verbatim>\<open>signaling/protocol.rs\<close>): the protocol.
  \<^item> \<^verbatim>\<open>Chat_Delivery\<close> with \<^verbatim>\<open>Chat_Delivery_Safety\<close> and \<^verbatim>\<open>Chat_Once\<close> (\<^verbatim>\<open>room/social.rs\<close>,
    \<^verbatim>\<open>handle_chat_command\<close> to \<^verbatim>\<open>finish_chat_attempt\<close>): sending, saving, retrying.
  \<^item> \<^verbatim>\<open>Room_State\<close>, \<^verbatim>\<open>Room_Names\<close>, \<^verbatim>\<open>Room_Invariant\<close> (\<^verbatim>\<open>room/mod.rs\<close>): the room as a record,
    its helper operations, and its invariant \<^verbatim>\<open>room_wf\<close> and \<^verbatim>\<open>room_safe\<close>.
  \<^item> \<^verbatim>\<open>Media_Policy\<close>, \<^verbatim>\<open>Media_Revocation\<close>, \<^verbatim>\<open>Media_Ops\<close> (\<^verbatim>\<open>room/manager/media_ops.rs\<close>): who may
    broadcast, revocation, producers and consumers.
  \<^item> \<^verbatim>\<open>Publication\<close> (\<^verbatim>\<open>room/publication.rs\<close>), \<^verbatim>\<open>Room_Control\<close> (\<^verbatim>\<open>room/control.rs\<close>),
    \<^verbatim>\<open>Moderation_Ops\<close> (\<^verbatim>\<open>room/manager/moderation_ops.rs\<close>), \<^verbatim>\<open>Settings_Ops\<close>
    (\<^verbatim>\<open>room/manager/settings_ops.rs\<close>), \<^verbatim>\<open>Lobby\<close> (\<^verbatim>\<open>room/manager/lobby.rs\<close>), \<^verbatim>\<open>Membership\<close>
    (\<^verbatim>\<open>room/manager/membership.rs\<close>): the operations. One that awaits the database is a step that
    plans and a step that finishes, composed around what happens to the room meanwhile.
  \<^item> \<^verbatim>\<open>Durable_Moderation\<close> (\<^verbatim>\<open>room/moderation.rs\<close>): the saved rows and what a join finds in them.
    \<^verbatim>\<open>Moderation_Retention\<close> (\<^verbatim>\<open>RetentionConfig\<close> to \<^verbatim>\<open>retention_sweep\<close>): ageing them out.
  \<^item> \<^verbatim>\<open>Moderation_Safety\<close>, \<^verbatim>\<open>Membership_Safety\<close>, \<^verbatim>\<open>Moderation_Outcomes\<close>: what the operations keep
    and achieve. \<^verbatim>\<open>Live_Invariant\<close>, \<^verbatim>\<open>Live_Steps\<close>, \<^verbatim>\<open>Live_Changes\<close>, \<^verbatim>\<open>Live_Joins\<close>,
    \<^verbatim>\<open>Live_Records\<close>: what each of them does to the promise of a live room.
  \<^item> \<^verbatim>\<open>Room_System\<close> and \<^verbatim>\<open>Room_System_Safety\<close>: one room, its rows, the operation under control, the
    joins and closings in flight, as a transition system with one rule per critical section.

  \<^bold>\<open>Correspondence.\<close> A struct is a record with prefixed field names, an enum a datatype, a \<^verbatim>\<open>HashMap\<close>
  an association list with distinct keys (its position stands for the unspecified iteration
  order), \<^verbatim>\<open>u64\<close> and \<^verbatim>\<open>u32\<close> words, a string its UTF-8 bytes. A fallible operation returns a sum;
  \<^verbatim>\<open>anyhow\<close> errors are \<^typ>\<open>failure\<close>, those of the persistence layer \<^typ>\<open>room_error\<close>. Messages to
  clients are a list of effects in order. Clock readings, fresh identifiers, closed channels, the
  answers of the database and of the media server, the Unicode tables and the serialised size of a
  message are arguments.

  \<^bold>\<open>What is shown.\<close> This theory has the theorems about whole runs: in every interleaving an open
  persisted room agrees with the saved rows whenever no operation holds control, every producer is
  one the policy allows, the room stays well formed, and a join that succeeds met the policy it
  read. The component theories have the rest: what bans, camera bans and failed writes leave
  behind, exactness of revocation, round trips of saved sanctions, delivery of a chat message to
  its audience at most once, retention that never lifts a ban or a sanction in force and never
  drops an open report, budgets equal to their accounts, limits that hold for every
  sequence of requests, bounded memory of a conversation, names that stay distinct and settings
  patches that round trip.

  \<^bold>\<open>Bounds.\<close> Loops are structural recursion on the queue they consume, or on the code's own count
  of rounds (sixteen batches of a retention sweep). The one search without a
  bound of its own, for a free suffix of a participant's name, is a partial function that is shown
  to return. The policy revision is a 64-bit counter that wraps; the theorems about runs are for
  runs with fewer than \<^term>\<open>2 ^ 64 :: nat\<close> changes of policy.

  \<^bold>\<open>Not modelled.\<close> The map of rooms and the HTTP administration of rooms, saved chat history with its
  cursors, invitations, accounts and sign-in, the connection loop, the media workers, attachments,
  push and TURN, configuration, metrics and start-up, and everything that is not the server
  (migrations, tooling, vendored crates, the browser client). These are I/O, SQL over a schema
  that is not part of the model, or drivers of libraries; what a room receives from them is an
  argument of the operations. Log lines and counters are left out everywhere.
\<close>

section \<open>A live room\<close>

lemma live_room_promise:
  assumes "new_cell start" and "room_step\<^sup>*\<^sup>* start c" and "c_bumps c < 2 ^ 64" and "\<not> rm_deleting (c_room c)"
  shows "promise (recorded c) (banned c) (c_room c)"
  using live_room.good_reachable [OF assms(1,2)] assms(3,4) by (auto dest: soundD(3))

text \<open>
  C1: whatever the order in which joins, departures, moderation, settings changes and producers
  interleave with each other and with the database, a persisted room that is still open and in
  which no operation holds control agrees with the saved rows: everybody present, in the room or
  its lobby, carries exactly the sanctions saved for them, and nobody present has a saved ban in
  force. The bound on policy changes is the width of the revision counter.
\<close>

theorem live_room_follows_saved_rows:
  assumes "new_cell start" and "room_step\<^sup>*\<^sup>* start c" and "c_bumps c < 2 ^ 64" and "\<not> rm_deleting (c_room c)"
    and "rm_persisted (c_room c)" and "c_pending c = None"
    and "present (c_room c) i = Some (authenticated, ip, s)"
  shows "s = load_punitive_state (mr_states (c_rows c)) (c_time c) (if authenticated then Some i else None) ip authenticated
     \<and> \<not> is_banned (mr_states (c_rows c)) (c_time c) (if authenticated then Some i else None) ip authenticated"
proof -
  have settled: "settled c = mr_states (c_rows c)" by (simp add: settled_def assms(6))
  note promise = live_room_promise [OF assms(1-4)]
  let ?load = "load_punitive_state (mr_states (c_rows c)) (c_time c) (if authenticated then Some i else None) ip authenticated"
  have "punitive_value s kind = punitive_value ?load kind" for kind
    using promise assms(5,7) unfolding load_punitive_state_value
    by (simp add: promise_def sanctions_follow_def recorded_def settled)
  then have "s = ?load" by (rule punitive_state_eqI)
  moreover have "\<not> banned c (sanction_key_for i authenticated ip)" using promise assms(7) by (auto simp: promise_def bans_follow_def)
  then have "\<not> is_banned (mr_states (c_rows c)) (c_time c) (if authenticated then Some i else None) ip authenticated"
    unfolding is_banned_def state_exists_key by (simp add: banned_def assms(5) settled)
  ultimately show ?thesis by blast
qed

text \<open>A run: an account the rows mute joins.\<close>

definition muted_row :: state_row where
  "muted_row = \<lparr>sw_id = 1, sw_user = Some 7, sw_state = ''muted'', sw_ip = None, sw_reason = None, sw_expires = None,
     sw_applied_by = 9\<rparr>"

definition muted_cell :: cell where
  \<comment> \<open>a persisted room just loaded, with one account muted in its saved rows\<close>
  "muted_cell =
     \<lparr>c_room = new_with_observers ''r'' (Some (settings_defaults ''r'')) True None,
      c_rows = \<lparr>mr_states = [muted_row], mr_reports = [], mr_events = []\<rparr>, c_time = 0, c_pool = True, c_pending = None,
      c_written = None, c_joins = [], c_closings = [], c_used = [], c_bumps = 0\<rparr>"

definition ann_joins :: join_request where
  "ann_joins = \<lparr>jq_participant_id = 7, jq_name = ''ann'', jq_sender = 70, jq_authenticated = True, jq_in_lobby_flag = 7,
     jq_password = None, jq_reconnect_token = ''t'', jq_client_ip = None, jq_chat_style = None\<rparr>"

definition ann_meets :: join_env where
  "ann_meets = \<lparr>je_icu = ascii_icu, je_closed = (\<lambda>_. False), je_now = 0, je_pool = True, je_banned = Inr False,
     je_role_row = Inr None, je_style = None, je_punitive = Inr \<lparr>cam_banned = False, text_muted = True\<rparr>,
     je_preferences = None, je_lane = \<lparr>pl_permit_in_time = True, pl_open = True, pl_task_ended = True, pl_verify = \<lambda>_ _. None\<rparr>,
     je_snapshot_in_time = True, je_commit_in_time = True, je_draining = False, je_media_session = 700,
     je_chat_session = 701, je_max_participants = None\<rparr>"

lemma ann_commits:
  "\<exists>res r sent. join_commit ann_meets ann_joins (join_snapshot_of (c_room muted_cell))
       \<lparr>jg_role = Some User, jg_chat_style = chat_style_default, jg_punitive = \<lparr>cam_banned = False, text_muted = True\<rparr>\<rparr> None
       (c_room muted_cell) = Some (Inr res, r, sent)
     \<and> present r 7 = Some (True, None, \<lparr>cam_banned = False, text_muted = True\<rparr>) \<and> rm_persisted r \<and> \<not> rm_deleting r
     \<and> rm_policy_revision r = 0"
  by (simp add: join_commit_def ann_meets_def ann_joins_def muted_cell_def join_snapshot_of_def new_with_observers_def
      policy_snapshot_matches_def prune_expired_bans_def join_refusal_def identity_is_banned_def ensure_room_has_space_def
      unique_participant_name_def occupied_keys_def values_of_def select_join_role_def setting_def settings_defaults_def
      is_some_and_def enter_room_def Let_def present_def complete_locked_def merge_punitive_state_def contains_key_def retain_def)

text \<open>Taking the snapshot, asking for bans and sanctions, and committing.\<close>

lemma ann_reaches:
  "\<exists>c. room_step\<^sup>*\<^sup>* muted_cell c \<and> present (c_room c) 7 = Some (True, None, \<lparr>cam_banned = False, text_muted = True\<rparr>)
     \<and> rm_persisted (c_room c) \<and> \<not> rm_deleting (c_room c) \<and> c_bumps c = 0 \<and> c_pending c = None \<and> c_rows c = c_rows muted_cell
     \<and> c_time c = 0"
proof -
  define s where "s = \<lparr>cam_banned = False, text_muted = True\<rparr>"
  define ja where "ja = \<lparr>ja_request = ann_joins, ja_snapshot = join_snapshot_of (c_room muted_cell), ja_taken = 0,
     ja_banned = None, ja_punitive = None\<rparr>"
  let ?c1 = "muted_cell\<lparr>c_joins := [ja]\<rparr>" and ?c2 = "muted_cell\<lparr>c_joins := [ja\<lparr>ja_banned := Some False\<rparr>]\<rparr>"
    and ?ja = "ja\<lparr>ja_banned := Some False, ja_punitive := Some s\<rparr>"
  let ?c3 = "muted_cell\<lparr>c_joins := [?ja]\<rparr>"
  define grant where "grant = \<lparr>jg_role = Some User, jg_chat_style = chat_style_default, jg_punitive = s\<rparr>"
  obtain res r sent where r: "join_commit ann_meets ann_joins (join_snapshot_of (c_room muted_cell)) grant None (c_room muted_cell)
       = Some (Inr res, r, sent)" "present r 7 = Some (True, None, s)" "rm_persisted r" "\<not> rm_deleting r" "rm_policy_revision r = 0"
    using ann_commits unfolding grant_def s_def by blast
  have "room_step muted_cell ?c1"
    using join_reads_policy [of muted_cell ann_joins] by (intro joins) (simp add: muted_cell_def ja_def)
  moreover have "room_step ?c1 ?c2"
    using join_reads_bans [of ?c1 "[]" ja "[]", OF _ refl refl]
    by (intro joins) (simp add: ja_def ann_joins_def muted_cell_def muted_row_def is_banned_def state_exists_def)
  moreover have "room_step ?c2 ?c3"
    using join_reads_sanctions [of ?c2 "[]" "ja\<lparr>ja_banned := Some False\<rparr>" "[]", OF _ refl refl]
    by (intro joins) (simp add: ja_def s_def ann_joins_def muted_cell_def muted_row_def load_punitive_state_def state_exists_def
        user_uuid_def row_binds_def unexpired_row_def)
  moreover have "room_step ?c3 ((put_room r ?c3)\<lparr>c_joins := []\<rparr>)"
    using join_commits [of ?c3 "[]" ?ja "[]" ann_meets None grant None "Inr res" r sent] r(1)
    by (intro joins) (simp add: ja_def s_def grant_def ann_joins_def ann_meets_def muted_cell_def join_authorize_def join_ban_check_def
        join_role_def join_punitive_def password_gate_def join_snapshot_of_def new_with_observers_def settings_defaults_def
        setting_def is_some_and_def resolve_role_def user_uuid_def join_chat_style_def looked_up_def)
  ultimately have "room_step\<^sup>*\<^sup>* muted_cell ((put_room r ?c3)\<lparr>c_joins := []\<rparr>)"
    by (meson converse_rtranclp_into_rtranclp rtranclp.rtrancl_refl)
  then show ?thesis
    using r by (intro exI [of _ "(put_room r ?c3)\<lparr>c_joins := []\<rparr>"])
      (simp add: s_def, simp add: put_room_def muted_cell_def new_with_observers_def)
qed


lemma muted_cell_new: "new_cell muted_cell"
  by (auto simp: new_cell_def muted_cell_def lasting_def muted_row_def)

theorem live_room_follows_saved_rows_witness:
  "\<exists>c s. room_step\<^sup>*\<^sup>* muted_cell c \<and> present (c_room c) 7 = Some (True, None, s) \<and> text_muted s
     \<and> s = load_punitive_state (mr_states (c_rows c)) (c_time c) (Some 7) None True
     \<and> \<not> is_banned (mr_states (c_rows c)) (c_time c) (Some 7) None True"
proof -
  obtain c where c: "room_step\<^sup>*\<^sup>* muted_cell c" "present (c_room c) 7 = Some (True, None, \<lparr>cam_banned = False, text_muted = True\<rparr>)"
    "rm_persisted (c_room c)" "\<not> rm_deleting (c_room c)" "c_bumps c = 0" "c_pending c = None"
    using ann_reaches by blast
  have found: "\<lparr>cam_banned = False, text_muted = True\<rparr> = load_punitive_state (mr_states (c_rows c)) (c_time c) (Some 7) None True
      \<and> \<not> is_banned (mr_states (c_rows c)) (c_time c) (Some 7) None True"
    using live_room_follows_saved_rows [OF muted_cell_new c(1) _ c(4,3,6,2)] c(5) by simp
  show ?thesis
    by (intro exI [of _ c] exI [of _ "\<lparr>cam_banned = False, text_muted = True\<rparr>"] conjI)
      (simp_all add: c(1,2) conjunct2 [OF found] flip: conjunct1 [OF found])
qed



text \<open>
  C3: at every moment of every interleaving an open room is well formed and safe: members and
  lobby entries are filed under their own identifiers and nobody is in both, the owners of
  producers are exactly the members that hold them, the retained conversation is within its
  bounds, nobody present is on the room's ban lists, and every sanction somebody present carries
  is recorded under their identity.
\<close>

theorem live_room_well_formed:
  assumes "new_cell start" and "room_step\<^sup>*\<^sup>* start c" and "c_bumps c < 2 ^ 64" and "\<not> rm_deleting (c_room c)"
  shows "room_safe (c_room c)"
  using live_room_promise [OF assms] by (simp add: promise_def)

theorem live_room_well_formed_witness:
  "\<exists>c. room_step\<^sup>*\<^sup>* muted_cell c \<and> present (c_room c) 7 \<noteq> None \<and> room_safe (c_room c)"
proof -
  obtain c where "room_step\<^sup>*\<^sup>* muted_cell c" "present (c_room c) 7 \<noteq> None" "\<not> rm_deleting (c_room c)" "c_bumps c = 0"
    using ann_reaches by fastforce
  then show ?thesis using live_room_well_formed [OF muted_cell_new, of c] by auto
qed

section \<open>Joins\<close>

text \<open>
  C8: a join that succeeds met the policy it had read: the room was open at the same revision,
  the identity is on no ban list and was not in the room or its lobby, a registered account where
  the room asks for one, and there was space. Afterwards exactly the newcomer is added, in the
  room or in its lobby, carrying every sanction saved for them or still held by the room.
\<close>

theorem join_meets_policy:
  assumes "room_safe r" and "join_commit env req snap grant pf r = Some (Inr res, r', sent)"
  shows "policy_snapshot_matches r (js_policy_revision snap)
     \<and> \<not> identity_is_banned (prune_expired_bans (je_now env) r) (jq_participant_id req) (jq_authenticated req) (jq_client_ip req)
     \<and> present r (jq_participant_id req) = None
     \<and> (jq_authenticated req \<or> \<not> setting r rs_require_registration \<and> \<not> setting r (\<lambda>s. \<not> rs_guests_allowed s))
     \<and> ensure_room_has_space (je_max_participants env) r = Inr ()
     \<and> (\<exists>s. present r' = (present r)(jq_participant_id req \<mapsto> (jq_authenticated req, jq_client_ip req, s))
          \<and> (\<forall>kind. punitive_value s kind \<longleftrightarrow> punitive_value (jg_punitive grant) kind \<or> stored_sanction r (request_key req) kind))
     \<and> (res = Lobbied \<longleftrightarrow> contains_key (rm_lobby r') (jq_participant_id req))"
proof -
  note commit = assms(2)
  from commit show ?thesis
  proof (cases rule: join_commit_cases)
    case (Admitted q key s name role)
    let ?i = "jq_participant_id req"
    have safe: "room_safe q" unfolding Admitted(1) by (rule prune_expired_bans_safe [OF assms(1)])
    have kept: "rm_participants q = rm_participants r" "rm_lobby q = rm_lobby r" "rm_settings q = rm_settings r"
      "rm_sanctions q = rm_sanctions r"
      by (simp_all add: Admitted(1) prune_expired_bans_def Let_def)
    have same: "present q = present r" "setting q = setting r" "ensure_room_has_space m q = ensure_room_has_space m r" for m
      unfolding present_def setting_def ensure_room_has_space_def fun_eq_iff kept by simp_all
    note ok = join_refusal_passed [OF Admitted(3)]
    have "present r ?i = None" using ok(2,3) by (simp add: present_def kept)
    moreover have "jq_authenticated req \<or> \<not> setting r rs_require_registration \<and> \<not> setting r (\<lambda>s. \<not> rs_guests_allowed s)"
      using ok(4,5) unfolding same by blast
    moreover have "present r' = (present r)(?i \<mapsto> (jq_authenticated req, jq_client_ip req, s))
        \<and> (res = Lobbied \<longleftrightarrow> contains_key (rm_lobby r') ?i)"
    proof (cases "(js_invite_only snap \<and> role < Member) \<or> (js_lobby_enabled snap \<and> \<not> room_is_empty q \<and> role < Moderator)")
      case True
      then have "enter_lobby env req grant name role s (with_sanction key s q) = (Inr res, r', sent)" using Admitted(8) by (simp only: if_True)
      then show ?thesis using enter_lobby_safe(2) [OF safe Admitted(3,6,7)] unfolding same [symmetric]
        by (auto simp: enter_lobby_def complete_locked_def contains_key_def Let_def split: prod.splits)
    next
      case False
      then have enter: "enter_room env req pf grant name role s (with_sanction key s q) = (Inr res, r', sent)" using Admitted(8) by (simp only: if_False)
      then have "res \<noteq> Lobbied" "rm_lobby r' = rm_lobby q"
        by (auto simp: enter_room_def complete_locked_def with_sanction_def Let_def)
      then show ?thesis using enter_room_safe(2) [OF safe Admitted(3,6,7) enter] ok(3) by (simp add: contains_key_def same)
    qed
    moreover have "punitive_value s kind \<longleftrightarrow> punitive_value (jg_punitive grant) kind \<or> stored_sanction r (request_key req) kind" for kind
      by (simp add: Admitted(6,7) merge_punitive_value kept stored_sanction_def is_some_and_def request_key_def split: option.splits)
    ultimately show ?thesis using Admitted(2) ok(1) [unfolded Admitted(1)] ok(6) [unfolded same] by blast
  qed simp
qed

theorem join_meets_policy_witness:
  "\<exists>res r' sent s. join_commit ann_meets ann_joins (join_snapshot_of (c_room muted_cell))
       \<lparr>jg_role = Some User, jg_chat_style = chat_style_default, jg_punitive = \<lparr>cam_banned = False, text_muted = True\<rparr>\<rparr> None
       (c_room muted_cell) = Some (Inr res, r', sent)
     \<and> present r' 7 = Some (True, None, s) \<and> text_muted s"
proof -
  let ?grant = "\<lparr>jg_role = Some User, jg_chat_style = chat_style_default, jg_punitive = \<lparr>cam_banned = False, text_muted = True\<rparr>\<rparr>"
  have safe: "room_safe (c_room muted_cell)" using new_room_promise by (simp add: muted_cell_def promise_def)
  obtain res r' sent where r': "join_commit ann_meets ann_joins (join_snapshot_of (c_room muted_cell)) ?grant None (c_room muted_cell)
      = Some (Inr res, r', sent)" using ann_commits by blast
  obtain s where "present r' = (present (c_room muted_cell))(jq_participant_id ann_joins \<mapsto> (jq_authenticated ann_joins, jq_client_ip ann_joins, s))"
    "\<forall>kind. punitive_value s kind \<longleftrightarrow> punitive_value (jg_punitive ?grant) kind \<or> stored_sanction (c_room muted_cell) (request_key ann_joins) kind"
    using join_meets_policy [OF safe r'] by blast
  then have "present r' 7 = Some (True, None, s)" and "punitive_value s Muted" by (simp_all only: ann_joins_def) simp_all
  then show ?thesis using r' by (intro exI [of _ res] exI [of _ r'] exI [of _ sent] exI [of _ s]) simp
qed

end
